(* ===== verification/Prelude.thy ===== *)
theory Prelude
  imports Complex_Main "HOL-Library.AList" "HOL-Library.Char_ord" "HOL-Library.List_Lexorder"
    "HOL-Library.Product_Lexorder" "HOL-Library.Multiset"
begin

text \<open>
  Shared vocabulary of the FleetPulse development: exceptions as values, the Python string and
  sequence operations the sources use, rows of a table addressed by a key, and the generic lemmas
  the component theories rest on.

  A Python string is a \<^typ>\<open>string\<close>; one \<^typ>\<open>char\<close> is one code point, so the
  model covers the code points below 256 (the Latin-1 range).
\<close>

named_theorems row_simps \<open>rewrite rules for keyed rows\<close>
named_theorems res_simps \<open>rewrite rules for results that may be an exception\<close>

section \<open>Exceptions and results\<close>

text \<open>
  The exceptions the modelled code raises, catches or lets through. \<open>ServiceError\<close> carries
  the class name of an exception raised by a driver (database, Redis, HTTP transport).
\<close>

datatype py_error =
    ValidationError
  | KeyError string
  | ValueError string
  | TypeError
  | AttributeError
  | AssertionError string
  | JSONDecodeError
  | OverflowError
  | RuntimeError string
  | NoResultFound
  | IntegrityError
  | DataError
  | HTTPStatusError int
  | HTTPException int string
  | UnknownProposalError string
  | DuplicateReviewError string
  | ServiceError string

text \<open>The class name, as \<open>type(error).__name__\<close> gives it.\<close>

fun error_name :: "py_error \<Rightarrow> string" where
  "error_name ValidationError = ''ValidationError''"
| "error_name (KeyError k) = ''KeyError''"
| "error_name (ValueError m) = ''ValueError''"
| "error_name TypeError = ''TypeError''"
| "error_name AttributeError = ''AttributeError''"
| "error_name (AssertionError m) = ''AssertionError''"
| "error_name JSONDecodeError = ''JSONDecodeError''"
| "error_name OverflowError = ''OverflowError''"
| "error_name (RuntimeError m) = ''RuntimeError''"
| "error_name NoResultFound = ''NoResultFound''"
| "error_name IntegrityError = ''IntegrityError''"
| "error_name DataError = ''DataError''"
| "error_name (HTTPStatusError s) = ''HTTPStatusError''"
| "error_name (HTTPException s d) = ''HTTPException''"
| "error_name (UnknownProposalError m) = ''UnknownProposalError''"
| "error_name (DuplicateReviewError m) = ''DuplicateReviewError''"
| "error_name (ServiceError n) = n"

type_synonym 'a res = "py_error + 'a"

definition res_bind :: "'a res \<Rightarrow> ('a \<Rightarrow> 'b res) \<Rightarrow> 'b res" where
  "res_bind m f = (case m of Inl e \<Rightarrow> Inl e | Inr x \<Rightarrow> f x)"

definition res_of :: "py_error \<Rightarrow> 'a option \<Rightarrow> 'a res" where
  "res_of e m = (case m of None \<Rightarrow> Inl e | Some x \<Rightarrow> Inr x)"

lemma res_bind_Inl [simp, res_simps]: "res_bind (Inl e) f = Inl e"
  by (simp add: res_bind_def)

lemma res_bind_Inr [simp, res_simps]: "res_bind (Inr x) f = f x"
  by (simp add: res_bind_def)

lemma res_bind_eq_Inr [res_simps]:
  "res_bind m f = Inr y \<longleftrightarrow> (\<exists>x. m = Inr x \<and> f x = Inr y)"
  by (cases m) auto

lemma res_of_Some [simp]: "res_of e (Some x) = Inr x"
  by (simp add: res_of_def)

lemma res_of_None [simp]: "res_of e None = Inl e"
  by (simp add: res_of_def)

lemma res_of_eq_Inr [res_simps]: "res_of e m = Inr x \<longleftrightarrow> m = Some x"
  by (cases m) auto

lemma res_of_eq_Inl [res_simps]: "res_of e m = Inl e' \<longleftrightarrow> m = None \<and> e' = e"
  by (cases m) auto

section \<open>Strings\<close>

abbreviation ord :: "char \<Rightarrow> nat" where
  "ord c \<equiv> of_char c"

lemma ord_less_256: "ord c < 256"
  by (metis char_of_char mod_less_divisor of_char_of zero_less_numeral)

text \<open>\<open>str.lower\<close> on the modelled code points.\<close>

definition lower_char :: "char \<Rightarrow> char" where
  "lower_char c =
     (if (65 \<le> ord c \<and> ord c \<le> 90) \<or> (192 \<le> ord c \<and> ord c \<le> 222 \<and> ord c \<noteq> 215)
      then char_of (ord c + 32) else c)"

definition lower :: "string \<Rightarrow> string" where
  "lower s = map lower_char s"

text \<open>\<open>s.partition(" ")\<close>: what is before the first separator, the separator, the rest.\<close>

definition partition_at :: "char \<Rightarrow> string \<Rightarrow> string \<times> string \<times> string" where
  "partition_at c s =
     (case dropWhile (\<lambda>x. x \<noteq> c) s of
        [] \<Rightarrow> (s, [], [])
      | x # rest \<Rightarrow> (takeWhile (\<lambda>y. y \<noteq> c) s, [x], rest))"

definition is_ascii :: "string \<Rightarrow> bool" where
  "is_ascii s \<longleftrightarrow> list_all (\<lambda>c. ord c < 128) s"

definition is_alnum_ascii :: "char \<Rightarrow> bool" where
  "is_alnum_ascii c \<longleftrightarrow> (48 \<le> ord c \<and> ord c \<le> 57) \<or> (65 \<le> ord c \<and> ord c \<le> 90)
     \<or> (97 \<le> ord c \<and> ord c \<le> 122)"

text \<open>\<open>len(s.encode())\<close>: UTF-8 takes two bytes for the code points 128 to 255.\<close>

definition utf8_len :: "string \<Rightarrow> nat" where
  "utf8_len s = sum_list (map (\<lambda>c. if ord c < 128 then 1 else 2) s)"

lemma length_le_utf8_len: "length s \<le> utf8_len s"
  by (induction s) (auto simp: utf8_len_def)

section \<open>First extremum, as Python's max and min\<close>

text \<open>
  \<open>max(xs, key=k)\<close> keeps the first element and replaces it only by a strictly greater one;
  it raises on an empty sequence (here \<^const>\<open>None\<close>).
\<close>

definition keep_max :: "('a \<Rightarrow> 'a \<Rightarrow> bool) \<Rightarrow> 'a \<Rightarrow> 'a \<Rightarrow> 'a" where
  "keep_max lt m y = (if lt m y then y else m)"

fun first_max :: "('a \<Rightarrow> 'a \<Rightarrow> bool) \<Rightarrow> 'a list \<Rightarrow> 'a option" where
  "first_max lt [] = None"
| "first_max lt (x # xs) = Some (foldl (keep_max lt) x xs)"

definition first_min :: "('a \<Rightarrow> 'a \<Rightarrow> bool) \<Rightarrow> 'a list \<Rightarrow> 'a option" where
  "first_min lt xs = first_max (\<lambda>a b. lt b a) xs"

lemma first_max_None [simp]: "first_max lt xs = None \<longleftrightarrow> xs = []"
  by (cases xs) auto

lemma foldl_keep_max_in: "foldl (keep_max lt) x xs \<in> insert x (set xs)"
  by (induction xs arbitrary: x) (auto simp: keep_max_def split: if_splits)

lemma first_max_in: "first_max lt xs = Some m \<Longrightarrow> m \<in> set xs"
  using foldl_keep_max_in by (cases xs) fastforce+

lemma foldl_keep_max_ge:
  fixes k :: "'a \<Rightarrow> 'b::linorder"
  shows "\<forall>y \<in> insert x (set xs). k y \<le> k (foldl (keep_max (\<lambda>a b. k a < k b)) x xs)"
proof (induction xs arbitrary: x)
  case Nil
  then show ?case by simp
next
  case (Cons y ys)
  let ?m = "keep_max (\<lambda>a b. k a < k b) x y"
  have "k x \<le> k ?m" "k y \<le> k ?m" by (auto simp: keep_max_def)
  with Cons.IH[of ?m] show ?case by (auto intro: order_trans)
qed

lemma first_max_ge:
  fixes k :: "'a \<Rightarrow> 'b::linorder"
  assumes "first_max (\<lambda>a b. k a < k b) xs = Some m" and "x \<in> set xs"
  shows "k x \<le> k m"
  using assms foldl_keep_max_ge[of _ _ k] by (cases xs) auto

lemma foldl_keep_max_cong:
  assumes "\<forall>a \<in> insert x (set xs). \<forall>b \<in> insert x (set xs). lt a b = lt' a b"
  shows "foldl (keep_max lt) x xs = foldl (keep_max lt') x xs"
  using assms
proof (induction xs arbitrary: x)
  case Nil
  then show ?case by simp
next
  case (Cons y ys)
  have "keep_max lt x y = keep_max lt' x y" using Cons.prems by (simp add: keep_max_def)
  moreover have "keep_max lt' x y \<in> {x, y}" by (simp add: keep_max_def)
  ultimately show ?case using Cons.IH[of "keep_max lt' x y"] Cons.prems by auto
qed

lemma first_max_cong:
  assumes "\<And>a b. a \<in> set xs \<Longrightarrow> b \<in> set xs \<Longrightarrow> lt a b = lt' a b"
  shows "first_max lt xs = first_max lt' xs"
proof (cases xs)
  case (Cons x ys)
  then show ?thesis using assms foldl_keep_max_cong[of x ys lt lt'] by simp
qed simp

section \<open>Rows addressed by a key\<close>

text \<open>
  A table is the list of its rows in insertion order. These are the statements the sources issue
  against a unique key: \<open>INSERT ... ON CONFLICT DO NOTHING\<close> (which reports whether a row was
  inserted), \<open>INSERT ... ON CONFLICT DO UPDATE\<close>, a lookup, a deletion and an update by key.
\<close>

definition row_lookup :: "('r \<Rightarrow> 'k) \<Rightarrow> 'r list \<Rightarrow> 'k \<Rightarrow> 'r option" where
  "row_lookup key rows k = find (\<lambda>r. key r = k) rows"

definition row_insert_ignore :: "('r \<Rightarrow> 'k) \<Rightarrow> 'r \<Rightarrow> 'r list \<Rightarrow> 'r list \<times> bool" where
  "row_insert_ignore key r rows =
     (if key r \<in> set (map key rows) then (rows, False) else (rows @ [r], True))"

definition row_update :: "('r \<Rightarrow> 'k) \<Rightarrow> 'k \<Rightarrow> ('r \<Rightarrow> 'r) \<Rightarrow> 'r list \<Rightarrow> 'r list" where
  "row_update key k f rows = map (\<lambda>r. if key r = k then f r else r) rows"

definition row_upsert :: "('r \<Rightarrow> 'k) \<Rightarrow> 'r \<Rightarrow> ('r \<Rightarrow> 'r) \<Rightarrow> 'r list \<Rightarrow> 'r list" where
  "row_upsert key r f rows =
     (if key r \<in> set (map key rows) then row_update key (key r) f rows else rows @ [r])"

definition row_delete :: "('r \<Rightarrow> 'k) \<Rightarrow> 'k \<Rightarrow> 'r list \<Rightarrow> 'r list" where
  "row_delete key k rows = filter (\<lambda>r. key r \<noteq> k) rows"

abbreviation keyed :: "('r \<Rightarrow> 'k) \<Rightarrow> 'r list \<Rightarrow> bool" where
  "keyed key rows \<equiv> distinct (map key rows)"

lemma row_lookup_None [row_simps]: "row_lookup key rows k = None \<longleftrightarrow> k \<notin> key ` set rows"
  by (auto simp: row_lookup_def find_None_iff)

lemma row_lookup_Some:
  "keyed key rows \<Longrightarrow> row_lookup key rows k = Some r \<longleftrightarrow> r \<in> set rows \<and> key r = k"
  by (induction rows) (auto simp: row_lookup_def)

lemma row_lookup_in: "row_lookup key rows k = Some r \<Longrightarrow> r \<in> set rows \<and> key r = k"
  by (auto simp: row_lookup_def find_Some_iff)

lemma row_lookup_append_new [row_simps]:
  "key r \<notin> key ` set rows \<Longrightarrow>
   row_lookup key (rows @ [r]) = (row_lookup key rows)(key r \<mapsto> r)"
  by (induction rows) (auto simp: row_lookup_def fun_eq_iff)

lemma row_insert_ignore_flag [row_simps]:
  "snd (row_insert_ignore key r rows) \<longleftrightarrow> key r \<notin> key ` set rows"
  by (auto simp: row_insert_ignore_def)

lemma row_insert_ignore_keys [row_simps]:
  "key ` set (fst (row_insert_ignore key r rows)) = insert (key r) (key ` set rows)"
  by (auto simp: row_insert_ignore_def)

lemma keyed_insert_ignore [row_simps]:
  "keyed key rows \<Longrightarrow> keyed key (fst (row_insert_ignore key r rows))"
  by (auto simp: row_insert_ignore_def)

lemma row_insert_ignore_lookup [row_simps]:
  "row_lookup key (fst (row_insert_ignore key r rows)) =
     (if row_lookup key rows (key r) = None
      then (row_lookup key rows)(key r \<mapsto> r) else row_lookup key rows)"
  by (auto simp: row_insert_ignore_def row_lookup_None row_lookup_append_new)

lemma map_key_row_update [row_simps]:
  "(\<And>r. r \<in> set rows \<Longrightarrow> key (f r) = key r) \<Longrightarrow> map key (row_update key k f rows) = map key rows"
  by (induction rows) (auto simp: row_update_def)

lemma row_update_length [row_simps]: "length (row_update key k f rows) = length rows"
  by (simp add: row_update_def)

lemma set_row_update:
  "set (row_update key k f rows) = {r \<in> set rows. key r \<noteq> k} \<union> f ` {r \<in> set rows. key r = k}"
  by (auto simp: row_update_def)

lemma keyed_row_upsert [row_simps]:
  assumes "keyed key rows" and "\<And>x. x \<in> set rows \<Longrightarrow> key (f x) = key x"
  shows "keyed key (row_upsert key r f rows)"
proof (cases "key r \<in> key ` set rows")
  case True
  with assms show ?thesis by (simp add: row_upsert_def map_key_row_update)
next
  case False
  with assms(1) show ?thesis by (simp add: row_upsert_def)
qed

lemma row_upsert_keys [row_simps]:
  assumes "\<And>x. x \<in> set rows \<Longrightarrow> key (f x) = key x"
  shows "key ` set (row_upsert key r f rows) = insert (key r) (key ` set rows)"
proof (cases "key r \<in> key ` set rows")
  case True
  have "set (map key (row_update key (key r) f rows)) = set (map key rows)"
    using assms by (simp only: map_key_row_update)
  with True show ?thesis by (auto simp: row_upsert_def)
next
  case False
  then show ?thesis by (simp add: row_upsert_def)
qed

lemma set_row_delete [row_simps]: "set (row_delete key k rows) = {r \<in> set rows. key r \<noteq> k}"
  by (auto simp: row_delete_def)

lemma keyed_row_delete [row_simps]: "keyed key rows \<Longrightarrow> keyed key (row_delete key k rows)"
  by (induction rows) (auto simp: row_delete_def)

lemma length_row_delete:
  "keyed key rows \<Longrightarrow> k \<in> key ` set rows \<Longrightarrow> Suc (length (row_delete key k rows)) = length rows"
proof (induction rows)
  case Nil
  then show ?case by simp
next
  case (Cons x xs)
  show ?case
  proof (cases "key x = k")
    case True
    with Cons.prems have "\<forall>r \<in> set xs. key r \<noteq> k" by (metis distinct.simps(2) image_eqI list.map(2) list.set_map)
    then have "row_delete key k xs = xs" by (simp add: row_delete_def filter_id_conv)
    with True show ?thesis by (simp add: row_delete_def)
  next
    case False
    with Cons show ?thesis by (auto simp: row_delete_def)
  qed
qed

lemma sum_list_filter_split:
  fixes f :: "'a \<Rightarrow> 'b::comm_monoid_add"
  shows "sum_list (map f xs) = sum_list (map f (filter P xs)) + sum_list (map f (filter (\<lambda>x. \<not> P x) xs))"
  by (induction xs) (auto simp: algebra_simps)

lemma sum_list_row_delete:
  fixes f :: "'r \<Rightarrow> 'b::comm_monoid_add"
  assumes "keyed key rows" and "r \<in> set rows"
  shows "sum_list (map f rows) = f r + sum_list (map f (row_delete key (key r) rows))"
proof -
  have "filter (\<lambda>x. \<not> key x \<noteq> key r) rows = [r]"
    using assms
  proof (induction rows)
    case (Cons x xs)
    show ?case
    proof (cases "key x = key r")
      case True
      with Cons.prems have "r = x" and "\<forall>y \<in> set xs. key y \<noteq> key r" by (auto simp: rev_image_eqI)
      then show ?thesis by (simp add: filter_empty_conv)
    next
      case False
      with Cons show ?thesis by auto
    qed
  qed simp
  then show ?thesis
    using sum_list_filter_split[of f rows "\<lambda>x. key x \<noteq> key r"] by (simp add: row_delete_def add.commute)
qed

end
