(* ===== verification/Values.thy ===== *)
theory Values
  imports Prelude "HOL-Library.Word"
begin

text \<open>
  The Python values the FleetPulse models carry: floats with infinities and NaN, timezone-aware
  and naive datetimes, and UUIDs with the text \<open>str(uuid)\<close> gives them.

  A finite float is an exact rational: comparisons, \<open>max\<close> and \<open>min\<close> are exact on floats,
  rounding of arithmetic results is not modelled. The two zeros are one value.
\<close>

section \<open>Floats\<close>

datatype pyfloat = NegInf | Fin rat | PosInf | NaN

text \<open>Python's \<open>a < b\<close> and \<open>a <= b\<close>: every comparison with NaN is false.\<close>

fun flt :: "pyfloat \<Rightarrow> pyfloat \<Rightarrow> bool" where
  "flt NegInf (Fin b) = True"
| "flt NegInf PosInf = True"
| "flt (Fin a) (Fin b) = (a < b)"
| "flt (Fin a) PosInf = True"
| "flt _ _ = False"

definition fle :: "pyfloat \<Rightarrow> pyfloat \<Rightarrow> bool" where
  "fle a b \<longleftrightarrow> flt a b \<or> (a = b \<and> a \<noteq> NaN)"

lemma fle_Fin [simp]: "fle (Fin a) (Fin b) \<longleftrightarrow> a \<le> b"
  by (auto simp: fle_def)

lemma fle_NaN [simp]: "\<not> fle NaN x" "\<not> fle x NaN"
  by (cases x; simp add: fle_def)+

text \<open>
  The total order used for sorting: it agrees with Python's comparison on everything but NaN
  (lemma \<open>less_pyfloat_flt\<close>), which it puts last.
\<close>

instantiation pyfloat :: linorder
begin

definition less_pyfloat :: "pyfloat \<Rightarrow> pyfloat \<Rightarrow> bool" where
  "less_pyfloat a b \<longleftrightarrow> flt a b \<or> (a \<noteq> NaN \<and> b = NaN)"

definition less_eq_pyfloat :: "pyfloat \<Rightarrow> pyfloat \<Rightarrow> bool" where
  "less_eq_pyfloat a b \<longleftrightarrow> a = b \<or> flt a b \<or> (a \<noteq> NaN \<and> b = NaN)"

instance
proof
  fix x y z :: pyfloat
  show "(x < y) = (x \<le> y \<and> \<not> y \<le> x)"
    by (cases x; cases y) (auto simp: less_pyfloat_def less_eq_pyfloat_def)
  show "x \<le> x"
    by (simp add: less_eq_pyfloat_def)
  show "x \<le> y \<Longrightarrow> y \<le> z \<Longrightarrow> x \<le> z"
    by (cases x; cases y; cases z) (auto simp: less_eq_pyfloat_def)
  show "x \<le> y \<Longrightarrow> y \<le> x \<Longrightarrow> x = y"
    by (cases x; cases y) (auto simp: less_eq_pyfloat_def)
  show "x \<le> y \<or> y \<le> x"
    by (cases x; cases y) (auto simp: less_eq_pyfloat_def)
qed

end

lemma less_pyfloat_flt: "a \<noteq> NaN \<Longrightarrow> b \<noteq> NaN \<Longrightarrow> (a < b) = flt a b"
  by (simp add: less_pyfloat_def)

lemma less_eq_pyfloat_fle: "a \<noteq> NaN \<Longrightarrow> b \<noteq> NaN \<Longrightarrow> (a \<le> b) = fle a b"
  by (auto simp: less_eq_pyfloat_def fle_def)

text \<open>The two-argument \<open>max\<close> and \<open>min\<close>: the second argument wins only when it is strictly
  beyond the first.\<close>

definition fmax :: "pyfloat \<Rightarrow> pyfloat \<Rightarrow> pyfloat" where
  "fmax a b = (if flt a b then b else a)"

definition fmin :: "pyfloat \<Rightarrow> pyfloat \<Rightarrow> pyfloat" where
  "fmin a b = (if flt b a then b else a)"

lemma fmax_zero_nonneg: "fle (Fin 0) (fmax (Fin 0) x)"
  by (cases x) (auto simp: fmax_def fle_def)

lemma fmax_zero_not_NaN: "fmax (Fin 0) x \<noteq> NaN"
  by (cases x) (auto simp: fmax_def)

lemma clamp_percentage:
  "fle (Fin 0) (fmax (Fin 0) (fmin (Fin 100) x)) \<and> fle (fmax (Fin 0) (fmin (Fin 100) x)) (Fin 100)"
  by (cases x) (auto simp: fmax_def fmin_def fle_def)

lemma between_Fin:
  assumes "fle (Fin a) x" and "fle x (Fin b)"
  obtains r where "x = Fin r" and "a \<le> r" and "r \<le> b"
  using assms by (cases x) (auto simp: fle_def)

section \<open>Datetimes\<close>

text \<open>
  Wall-clock microseconds and the UTC offset in minutes; a naive datetime has no offset. Aware
  datetimes compare by their instant.
\<close>

record datetime =
  wall_us :: int
  utcoffset :: "int option"

definition instant :: "datetime \<Rightarrow> int" where
  "instant d = wall_us d - 60000000 * (case utcoffset d of None \<Rightarrow> 0 | Some m \<Rightarrow> m)"

definition is_aware :: "datetime \<Rightarrow> bool" where
  "is_aware d \<longleftrightarrow> utcoffset d \<noteq> None"

text \<open>\<open>datetime.now(UTC)\<close> at a given instant.\<close>

definition utc_at :: "int \<Rightarrow> datetime" where
  "utc_at t = \<lparr>wall_us = t, utcoffset = Some 0\<rparr>"

lemma is_aware_utc_at [simp]: "is_aware (utc_at t)"
  by (simp add: is_aware_def utc_at_def)

lemma instant_utc_at [simp]: "instant (utc_at t) = t"
  by (simp add: instant_def utc_at_def)

section \<open>UUIDs\<close>

type_synonym uuid = "128 word"

definition hex_digit :: "nat \<Rightarrow> char" where
  "hex_digit n = char_of (if n < 10 then 48 + n else 87 + n)"

definition hex_value :: "char \<Rightarrow> nat" where
  "hex_value c = (if ord c < 58 then ord c - 48 else ord c - 87)"

fun hex_fixed :: "nat \<Rightarrow> nat \<Rightarrow> string" where
  "hex_fixed 0 n = []"
| "hex_fixed (Suc k) n = hex_fixed k (n div 16) @ [hex_digit (n mod 16)]"

definition hex_number :: "string \<Rightarrow> nat" where
  "hex_number s = foldl (\<lambda>a c. 16 * a + hex_value c) 0 s"

text \<open>\<open>str(uuid)\<close>: 32 lower-case hex digits in groups of 8, 4, 4, 4 and 12.\<close>

definition uuid_str :: "uuid \<Rightarrow> string" where
  "uuid_str u =
     (let h = hex_fixed 32 (unat u)
      in take 8 h @ ''-'' @ take 4 (drop 8 h) @ ''-'' @ take 4 (drop 12 h) @ ''-'' @
         take 4 (drop 16 h) @ ''-'' @ drop 20 h)"

text \<open>Reading the canonical text back.\<close>

definition uuid_of_str :: "string \<Rightarrow> uuid option" where
  "uuid_of_str s =
     (let u = word_of_nat (hex_number (filter (\<lambda>c. c \<noteq> CHR ''-'') s))
      in if uuid_str u = s then Some u else None)"

lemma length_hex_fixed [simp]: "length (hex_fixed k n) = k"
  by (induction k arbitrary: n) auto

lemma ord_hex_digit: "n < 16 \<Longrightarrow> ord (hex_digit n) = (if n < 10 then 48 + n else 87 + n)"
  by (simp add: hex_digit_def)

lemma hex_value_digit [simp]: "n < 16 \<Longrightarrow> hex_value (hex_digit n) = n"
  by (auto simp: hex_value_def ord_hex_digit)

lemma hex_digit_not_dash: "n < 16 \<Longrightarrow> hex_digit n \<noteq> CHR ''-''"
proof
  assume "n < 16" and "hex_digit n = CHR ''-''"
  then have "(if n < 10 then 48 + n else 87 + n) = ord (CHR ''-'')"
    using ord_hex_digit[of n] by simp
  then show False by (simp split: if_splits)
qed

lemma hex_fixed_not_dash: "CHR ''-'' \<notin> set (hex_fixed k n)"
  using not_sym [OF hex_digit_not_dash] by (induction k arbitrary: n) simp_all

lemma hex_number_fixed: "hex_number (hex_fixed k n) = n mod 16 ^ k"
proof (induction k arbitrary: n)
  case 0
  then show ?case by (simp add: hex_number_def)
next
  case (Suc k)
  have "hex_number (hex_fixed (Suc k) n) = 16 * hex_number (hex_fixed k (n div 16)) + n mod 16"
    by (simp add: hex_number_def)
  also have "\<dots> = 16 * (n div 16 mod 16 ^ k) + n mod 16"
    using Suc by simp
  also have "\<dots> = n mod 16 ^ Suc k"
    using mod_mult2_eq[of n 16 "16 ^ k"] by simp
  finally show ?case .
qed

lemma filter_uuid_str: "filter (\<lambda>c. c \<noteq> CHR ''-'') (uuid_str u) = hex_fixed 32 (unat u)"
proof -
  let ?h = "hex_fixed 32 (unat u)"
  let ?f = "filter (\<lambda>c. c \<noteq> CHR ''-'')"
  have f: "?f (take i (drop j ?h)) = take i (drop j ?h)" for i j
    using hex_fixed_not_dash by (auto simp: filter_id_conv dest!: in_set_takeD in_set_dropD)
  have "?f (uuid_str u) = take 8 ?h @ take 4 (drop 8 ?h) @ take 4 (drop 12 ?h) @ take 4 (drop 16 ?h) @ drop 20 ?h"
    using f[of 8 0] f[of 4 8] f[of 4 12] f[of 4 16] f[of 12 20] by (simp add: uuid_str_def Let_def)
  also have "\<dots> = ?h"
  proof -
    have d: "drop n ?h = take 4 (drop n ?h) @ drop (n + 4) ?h" for n
      by (metis add.commute append_take_drop_id drop_drop)
    show ?thesis using d[of 8] d[of 12] d[of 16] append_take_drop_id[of 8 ?h] by simp
  qed
  finally show ?thesis .
qed

lemma uuid_of_str_str [simp]: "uuid_of_str (uuid_str u) = Some u"
proof -
  have "unat u < 16 ^ 32" using unsigned_less[of u, where ?'a = nat] by simp
  then have "word_of_nat (hex_number (hex_fixed 32 (unat u))) = u"
    by (simp add: hex_number_fixed)
  then show ?thesis by (simp add: uuid_of_str_def filter_uuid_str Let_def)
qed

lemma uuid_str_inj [simp]: "uuid_str u = uuid_str v \<longleftrightarrow> u = v"
  by (metis option.inject uuid_of_str_str)

lemma length_uuid_str [simp]: "length (uuid_str u) = 36"
  by (simp add: uuid_str_def Let_def)

end
