(* ===== verification/Json.thy ===== *)
theory Json
  imports Values "HOL-Library.Monad_Syntax"
begin

text \<open>
  JSON values and the standard library's \<open>json.dumps\<close> and \<open>json.loads\<close>, which the relay,
  the workers and the cache use. \<open>dumps\<close> escapes everything outside printable ASCII
  (\<open>ensure_ascii\<close>) and takes the item and key separators; the text of a float is a parameter
  (\<open>float.__repr__\<close>). \<open>loads\<close> is the strict recursive-descent reader, with the nesting
  depth as fuel; the input length is always enough, as every level consumes a character.
\<close>

section \<open>Values\<close>

datatype jval =
    JNull
  | JBool bool
  | JInt int
  | JFloat pyfloat
  | JStr string
  | JList "jval list"
  | JObj "(string \<times> jval) list"

text \<open>\<open>bool(value)\<close> for a JSON value.\<close>

fun jtruthy :: "jval \<Rightarrow> bool" where
  "jtruthy JNull = False"
| "jtruthy (JBool b) = b"
| "jtruthy (JInt i) = (i \<noteq> 0)"
| "jtruthy (JFloat f) = (f \<noteq> Fin 0)"
| "jtruthy (JStr s) = (s \<noteq> [])"
| "jtruthy (JList xs) = (xs \<noteq> [])"
| "jtruthy (JObj m) = (m \<noteq> [])"

section \<open>Writing\<close>

definition dquote :: char where "dquote = CHR 0x22"
definition bslash :: char where "bslash = CHR 0x5C"

definition escape_char :: "char \<Rightarrow> string" where
  "escape_char c =
     (if c = dquote then [bslash, dquote]
      else if c = bslash then [bslash, bslash]
      else if c = CHR 0x0A then [bslash, CHR ''n'']
      else if c = CHR 0x0D then [bslash, CHR ''r'']
      else if c = CHR 0x09 then [bslash, CHR ''t'']
      else if c = CHR 0x0C then [bslash, CHR ''f'']
      else if c = CHR 0x08 then [bslash, CHR ''b'']
      else if 32 \<le> ord c \<and> ord c \<le> 126 then [c]
      else [bslash, CHR ''u''] @ hex_fixed 4 (ord c))"

definition dump_str :: "string \<Rightarrow> string" where
  "dump_str s = [dquote] @ concat (map escape_char s) @ [dquote]"

definition digit :: "nat \<Rightarrow> char" where
  "digit n = char_of (48 + n)"

fun show_nat :: "nat \<Rightarrow> string" where
  "show_nat n = (if n < 10 then [digit n] else show_nat (n div 10) @ [digit (n mod 10)])"

declare show_nat.simps [simp del]

definition show_int :: "int \<Rightarrow> string" where
  "show_int i = (if i < 0 then CHR ''-'' # show_nat (nat (- i)) else show_nat (nat i))"

record separators =
  item_sep :: string
  key_sep :: string

definition compact :: separators where
  "compact = \<lparr>item_sep = '','', key_sep = '':''\<rparr>"

definition spaced :: separators where
  "spaced = \<lparr>item_sep = '', '', key_sep = '': ''\<rparr>"

fun dumps :: "(pyfloat \<Rightarrow> string) \<Rightarrow> separators \<Rightarrow> jval \<Rightarrow> string"
  and dump_items :: "(pyfloat \<Rightarrow> string) \<Rightarrow> separators \<Rightarrow> jval list \<Rightarrow> string"
  and dump_members :: "(pyfloat \<Rightarrow> string) \<Rightarrow> separators \<Rightarrow> (string \<times> jval) list \<Rightarrow> string" where
  "dumps fr sp JNull = ''null''"
| "dumps fr sp (JBool b) = (if b then ''true'' else ''false'')"
| "dumps fr sp (JInt i) = show_int i"
| "dumps fr sp (JFloat f) = fr f"
| "dumps fr sp (JStr s) = dump_str s"
| "dumps fr sp (JList xs) = ''['' @ dump_items fr sp xs @ '']''"
| "dumps fr sp (JObj m) = ''{'' @ dump_members fr sp m @ ''}''"
| "dump_items fr sp [] = []"
| "dump_items fr sp [x] = dumps fr sp x"
| "dump_items fr sp (x # y # xs) = dumps fr sp x @ item_sep sp @ dump_items fr sp (y # xs)"
| "dump_members fr sp [] = []"
| "dump_members fr sp [(k, v)] = dump_str k @ key_sep sp @ dumps fr sp v"
| "dump_members fr sp ((k, v) # m # ms) =
     dump_str k @ key_sep sp @ dumps fr sp v @ item_sep sp @ dump_members fr sp (m # ms)"

section \<open>Reading\<close>

definition is_ws :: "char \<Rightarrow> bool" where
  "is_ws c \<longleftrightarrow> c \<in> {CHR '' '', CHR 0x09, CHR 0x0A, CHR 0x0D}"

definition skip_ws :: "string \<Rightarrow> string" where
  "skip_ws s = dropWhile is_ws s"

definition is_digit :: "char \<Rightarrow> bool" where
  "is_digit c \<longleftrightarrow> 48 \<le> ord c \<and> ord c \<le> 57"

definition digit_value :: "char \<Rightarrow> nat" where
  "digit_value c = ord c - 48"

definition read_nat :: "string \<Rightarrow> nat" where
  "read_nat s = foldl (\<lambda>a c. 10 * a + digit_value c) 0 s"

definition is_hex :: "char \<Rightarrow> bool" where
  "is_hex c \<longleftrightarrow> is_digit c \<or> (97 \<le> ord (lower_char c) \<and> ord (lower_char c) \<le> 102)"

definition unescape :: "char \<Rightarrow> char option" where
  "unescape c =
     (if c = dquote \<or> c = bslash \<or> c = CHR ''/'' then Some c
      else if c = CHR ''n'' then Some (CHR 0x0A)
      else if c = CHR ''r'' then Some (CHR 0x0D)
      else if c = CHR ''t'' then Some (CHR 0x09)
      else if c = CHR ''f'' then Some (CHR 0x0C)
      else if c = CHR ''b'' then Some (CHR 0x08)
      else None)"

definition unescape_hex :: "string \<Rightarrow> char option" where
  "unescape_hex h =
     (let n = hex_number (lower h)
      in if list_all is_hex h \<and> n < 256 then Some (char_of n) else None)"

text \<open>After the opening quote: the content and what follows the closing quote.\<close>

fun scan_string :: "string \<Rightarrow> (string \<times> string) option" where
  "scan_string [] = None"
| "scan_string (c # r) =
     (if c = dquote then Some ([], r)
      else if c = bslash then
        (case r of
           [] \<Rightarrow> None
         | e # r' \<Rightarrow>
             if e = CHR ''u'' then
               (case r' of
                  h1 # h2 # h3 # h4 # r'' \<Rightarrow>
                    do { x \<leftarrow> unescape_hex [h1, h2, h3, h4];
                         (s, rest) \<leftarrow> scan_string r'';
                         Some (x # s, rest) }
                | _ \<Rightarrow> None)
             else do { x \<leftarrow> unescape e; (s, rest) \<leftarrow> scan_string r'; Some (x # s, rest) })
      else if ord c < 32 then None
      else do { (s, rest) \<leftarrow> scan_string r; Some (c # s, rest) })"

text \<open>
  A number: an optional minus, an integer part without a leading zero, an optional fraction and
  an optional exponent. Only the integer part makes an \<open>int\<close>; the others make a \<open>float\<close>.
\<close>

definition scan_fraction :: "string \<Rightarrow> (string \<times> string)" where
  "scan_fraction s =
     (case s of
        c # r \<Rightarrow> if c = CHR ''.'' \<and> takeWhile is_digit r \<noteq> []
                 then (takeWhile is_digit r, dropWhile is_digit r) else ([], s)
      | [] \<Rightarrow> ([], s))"

definition scan_exponent :: "string \<Rightarrow> (int option \<times> string)" where
  "scan_exponent s =
     (case s of
        c # r \<Rightarrow>
          if c = CHR ''e'' \<or> c = CHR ''E'' then
            (let (neg, r1) = (case r of
                   d # r' \<Rightarrow> if d = CHR ''-'' then (True, r')
                              else if d = CHR ''+'' then (False, r') else (False, r)
                 | [] \<Rightarrow> (False, r))
             in if takeWhile is_digit r1 = [] then (None, s)
                else (Some ((if neg then -1 else 1) * int (read_nat (takeWhile is_digit r1))),
                      dropWhile is_digit r1))
          else (None, s)
      | [] \<Rightarrow> (None, s))"

definition pow10 :: "int \<Rightarrow> rat" where
  "pow10 e = (if e < 0 then 1 / 10 ^ nat (- e) else 10 ^ nat e)"

definition int_digits :: "string \<Rightarrow> string" where
  "int_digits s = (case s of [] \<Rightarrow> [] | c # r \<Rightarrow> if c = CHR ''0'' then [c] else takeWhile is_digit s)"

definition scan_number :: "bool \<Rightarrow> string \<Rightarrow> (jval \<times> string) option" where
  "scan_number neg s =
     (let ds = int_digits s;
          r = drop (length ds) s;
          (frac, r1) = scan_fraction r;
          (ex, r2) = scan_exponent r1;
          sg = (if neg then -1 else 1)
      in if ds = [] then None
         else if frac = [] \<and> ex = None then Some (JInt (sg * int (read_nat ds)), r2)
         else Some (JFloat (Fin (of_int sg * of_nat (read_nat (ds @ frac)) *
                pow10 ((case ex of None \<Rightarrow> 0 | Some e \<Rightarrow> e) - int (length frac)))), r2))"

definition scan_word :: "string \<Rightarrow> jval \<Rightarrow> string \<Rightarrow> (jval \<times> string) option" where
  "scan_word w v s = (if take (length w) s = w then Some (v, drop (length w) s) else None)"

definition scan_atom :: "char \<Rightarrow> string \<Rightarrow> (jval \<times> string) option" where
  "scan_atom c r =
     (if c = CHR ''n'' then scan_word ''null'' JNull (c # r)
      else if c = CHR ''t'' then scan_word ''true'' (JBool True) (c # r)
      else if c = CHR ''f'' then scan_word ''false'' (JBool False) (c # r)
      else if c = CHR ''N'' then scan_word ''NaN'' (JFloat NaN) (c # r)
      else if c = CHR ''I'' then scan_word ''Infinity'' (JFloat PosInf) (c # r)
      else if c = CHR ''-'' then
        (case scan_word ''Infinity'' (JFloat NegInf) r of
           Some x \<Rightarrow> Some x
         | None \<Rightarrow> scan_number True r)
      else scan_number False (c # r))"

text \<open>Building the dict: a repeated key keeps its place and takes the last value.\<close>

definition dict_of_pairs :: "(string \<times> jval) list \<Rightarrow> (string \<times> jval) list" where
  "dict_of_pairs ps = foldl (\<lambda>d (k, v). AList.update k v d) [] ps"

fun scan_value :: "nat \<Rightarrow> string \<Rightarrow> (jval \<times> string) option"
  and scan_items :: "nat \<Rightarrow> string \<Rightarrow> (jval list \<times> string) option"
  and scan_members :: "nat \<Rightarrow> string \<Rightarrow> ((string \<times> jval) list \<times> string) option" where
  "scan_value 0 s = None"
| "scan_value (Suc n) [] = None"
| "scan_value (Suc n) (c # r) =
     (if c = dquote then do { (t, rest) \<leftarrow> scan_string r; Some (JStr t, rest) }
      else if c = CHR ''['' then
        (case skip_ws r of
           [] \<Rightarrow> None
         | d # r' \<Rightarrow> if d = CHR '']'' then Some (JList [], r')
                     else do { (xs, rest) \<leftarrow> scan_items n (d # r'); Some (JList xs, rest) })
      else if c = CHR ''{'' then
        (case skip_ws r of
           [] \<Rightarrow> None
         | d # r' \<Rightarrow> if d = CHR ''}'' then Some (JObj [], r')
                     else do { (ms, rest) \<leftarrow> scan_members n (d # r');
                               Some (JObj (dict_of_pairs ms), rest) })
      else scan_atom c r)"
| "scan_items 0 s = None"
| "scan_items (Suc n) s =
     do { (x, r) \<leftarrow> scan_value n s;
          (case skip_ws r of
             [] \<Rightarrow> None
           | d # r' \<Rightarrow>
               if d = CHR '']'' then Some ([x], r')
               else if d = CHR '','' then
                 do { (xs, rest) \<leftarrow> scan_items n (skip_ws r'); Some (x # xs, rest) }
               else None) }"
| "scan_members 0 s = None"
| "scan_members (Suc n) [] = None"
| "scan_members (Suc n) (q # s) =
     (if q \<noteq> dquote then None
      else do { (k, r) \<leftarrow> scan_string s;
                (case skip_ws r of
                   [] \<Rightarrow> None
                 | col # r1 \<Rightarrow>
                     if col \<noteq> CHR '':'' then None
                     else do { (v, r2) \<leftarrow> scan_value n (skip_ws r1);
                               (case skip_ws r2 of
                                  [] \<Rightarrow> None
                                | d # r3 \<Rightarrow>
                                    if d = CHR ''}'' then Some ([(k, v)], r3)
                                    else if d = CHR '','' then
                                      do { (ms, rest) \<leftarrow> scan_members n (skip_ws r3);
                                           Some ((k, v) # ms, rest) }
                                    else None) }) })"

definition loads :: "string \<Rightarrow> jval option" where
  "loads s =
     (case scan_value (Suc (2 * length s)) (skip_ws s) of
        Some (v, r) \<Rightarrow> if skip_ws r = [] then Some v else None
      | None \<Rightarrow> None)"

section \<open>Reading back what was written\<close>

text \<open>The values for which the text determines the value: no floats, distinct keys.\<close>

fun plain :: "jval \<Rightarrow> bool"
  and plain_items :: "jval list \<Rightarrow> bool"
  and plain_members :: "(string \<times> jval) list \<Rightarrow> bool" where
  "plain (JFloat f) = False"
| "plain (JList xs) = plain_items xs"
| "plain (JObj m) = (distinct (map fst m) \<and> plain_members m)"
| "plain _ = True"
| "plain_items [] = True"
| "plain_items (x # xs) = (plain x \<and> plain_items xs)"
| "plain_members [] = True"
| "plain_members ((k, v) # m) = (plain v \<and> plain_members m)"

definition ok_sep :: "separators \<Rightarrow> bool" where
  "ok_sep sp \<longleftrightarrow> sp = compact \<or> sp = spaced"

lemma skip_ws_Cons [simp]: "\<not> is_ws c \<Longrightarrow> skip_ws (c # r) = c # r" "is_ws c \<Longrightarrow> skip_ws (c # r) = skip_ws r"
  by (simp_all add: skip_ws_def)

lemma skip_ws_Nil [simp]: "skip_ws [] = []"
  by (simp add: skip_ws_def)

lemma is_ws_simps [simp]:
  "is_ws (CHR '' '')" "\<not> is_ws dquote" "\<not> is_ws (CHR '']'')" "\<not> is_ws (CHR ''['')"
  "\<not> is_ws (CHR ''{'')" "\<not> is_ws (CHR ''}'')" "\<not> is_ws (CHR '','')" "\<not> is_ws (CHR '':'')"
  by (simp_all add: is_ws_def dquote_def)

subsection \<open>Strings\<close>

lemma lower_hex_digit: "n < 16 \<Longrightarrow> lower_char (hex_digit n) = hex_digit n"
  by (auto simp: lower_char_def ord_hex_digit)

lemma is_hex_digit: "n < 16 \<Longrightarrow> is_hex (hex_digit n)"
  by (auto simp: is_hex_def is_digit_def lower_hex_digit ord_hex_digit)

lemma lower_hex_fixed: "lower (hex_fixed k n) = hex_fixed k n"
  by (induction k arbitrary: n) (auto simp: lower_def lower_hex_digit)

lemma is_hex_fixed: "list_all is_hex (hex_fixed k n)"
  by (induction k arbitrary: n) (auto simp: is_hex_digit)

lemma unescape_hex_fixed: "unescape_hex (hex_fixed 4 (ord c)) = Some c"
proof -
  have "ord c < 16 ^ 4" by (rule order.strict_trans2 [OF ord_less_256]) simp
  then have "hex_number (hex_fixed 4 (ord c)) = ord c"
    unfolding hex_number_fixed by (rule mod_less)
  with ord_less_256[of c] show ?thesis
    using is_hex_fixed[of 4 "ord c"]
    by (simp add: unescape_hex_def lower_hex_fixed Let_def del: hex_fixed.simps)
qed

lemma length_4E: "length xs = 4 \<Longrightarrow> \<exists>a b c d. xs = [a, b, c, d]"
  by (auto simp: numeral_eq_Suc length_Suc_conv)

lemmas hex_fixed_4 = length_4E [OF length_hex_fixed]

lemma scan_unicode_escape:
  "scan_string (bslash # CHR ''u'' # hex_fixed 4 (ord c) @ t) =
     map_option (\<lambda>(s, r). (c # s, r)) (scan_string t)"
proof -
  obtain h1 h2 h3 h4 where h: "hex_fixed 4 (ord c) = [h1, h2, h3, h4]"
    using hex_fixed_4 by blast
  then have "unescape_hex [h1, h2, h3, h4] = Some c"
    using unescape_hex_fixed[of c] by simp
  then show ?thesis
    by (cases "scan_string t") (auto simp: h bslash_def dquote_def)
qed

lemma scan_simple_escape:
  "unescape e = Some c \<Longrightarrow> scan_string (bslash # e # t) = map_option (\<lambda>(s, r). (c # s, r)) (scan_string t)"
  by (cases "scan_string t") (auto simp: bslash_def dquote_def unescape_def split: if_splits)

lemma scan_escape:
  "scan_string (escape_char c @ t) = map_option (\<lambda>(s, r). (c # s, r)) (scan_string t)"
proof -
  have u: "unescape dquote = Some dquote" "unescape bslash = Some bslash"
    "unescape (CHR ''n'') = Some (CHR 0x0A)" "unescape (CHR ''r'') = Some (CHR 0x0D)"
    "unescape (CHR ''t'') = Some (CHR 0x09)" "unescape (CHR ''f'') = Some (CHR 0x0C)"
    "unescape (CHR ''b'') = Some (CHR 0x08)"
    by (simp_all add: unescape_def dquote_def bslash_def)
  show ?thesis
  proof (cases "c \<in> {dquote, bslash, CHR 0x0A, CHR 0x0D, CHR 0x09, CHR 0x0C, CHR 0x08}")
    case True
    then obtain e where "escape_char c = [bslash, e]" and "unescape e = Some c"
      using u by (auto simp: escape_char_def dquote_def bslash_def)
    then show ?thesis by (simp add: scan_simple_escape del: scan_string.simps)
  next
    case False
    show ?thesis
    proof (cases "32 \<le> ord c \<and> ord c \<le> 126")
      case True
      with False have "escape_char c = [c]" by (simp add: escape_char_def)
      with False True show ?thesis by (cases "scan_string t") auto
    next
      case no: False
      with False have "escape_char c = bslash # CHR ''u'' # hex_fixed 4 (ord c)"
        by (simp add: escape_char_def del: hex_fixed.simps)
      then show ?thesis using scan_unicode_escape by simp
    qed
  qed
qed

lemma scan_dump_str:
  "scan_string (concat (map escape_char s) @ dquote # rest) = Some (s, rest)"
  by (induction s) (simp_all add: scan_escape del: scan_string.simps(2), simp)

subsection \<open>Numbers\<close>

definition ok_rest :: "string \<Rightarrow> bool" where
  "ok_rest r \<longleftrightarrow> (case r of [] \<Rightarrow> True | c # _ \<Rightarrow> c \<in> {CHR '','', CHR '']'', CHR ''}'', CHR '' ''})"

lemma ord_digit: "n < 10 \<Longrightarrow> ord (digit n) = 48 + n"
  by (simp add: digit_def)

lemma is_digit_digit [simp]: "n < 10 \<Longrightarrow> is_digit (digit n)"
  by (simp add: is_digit_def ord_digit)

lemma digit_value_digit [simp]: "n < 10 \<Longrightarrow> digit_value (digit n) = n"
  by (simp add: digit_value_def ord_digit)

lemma show_nat_digits: "list_all is_digit (show_nat n)"
proof (induction n rule: show_nat.induct)
  case (1 n)
  then show ?case by (cases "n < 10") (simp_all add: show_nat.simps [of n])
qed

lemma read_show_nat [simp]: "read_nat (show_nat n) = n"
proof (induction n rule: show_nat.induct)
  case (1 n)
  then show ?case by (cases "n < 10") (simp_all add: show_nat.simps [of n] read_nat_def)
qed

lemma show_nat_inj [simp]: "show_nat m = show_nat n \<longleftrightarrow> m = n"
  by (metis read_show_nat)

lemma show_nat_hd: "show_nat n = c # r \<Longrightarrow> c = CHR ''0'' \<Longrightarrow> n = 0 \<and> r = []"
proof (induction n arbitrary: c r rule: show_nat.induct)
  case (1 n)
  show ?case
  proof (cases "n < 10")
    case True
    with "1.prems" have "ord (digit n) = ord (CHR ''0'')" and "r = []"
      by (simp_all add: show_nat.simps [of n])
    with True show ?thesis by (simp add: ord_digit)
  next
    case False
    obtain c' r' where s: "show_nat (n div 10) = c' # r'"
      by (cases "show_nat (n div 10)") (auto simp: show_nat.simps [of "n div 10"] split: if_splits)
    with False "1.prems" have "c' = CHR ''0''" by (simp add: show_nat.simps [of n])
    with "1.IH"[OF False s] False show ?thesis by (simp add: div_eq_0_iff)
  qed
qed

lemma show_nat_nonempty: "show_nat n \<noteq> []"
  by (simp add: show_nat.simps [of n])

lemma ok_rest_not_number:
  assumes "ok_rest r"
  shows "takeWhile is_digit r = []" "scan_fraction r = ([], r)" "scan_exponent r = (None, r)"
  using assms by (auto simp: ok_rest_def is_digit_def scan_fraction_def scan_exponent_def split: list.splits)

lemma takeWhile_digits:
  "list_all is_digit ds \<Longrightarrow> ok_rest r \<Longrightarrow> takeWhile is_digit (ds @ r) = ds"
  using ok_rest_not_number(1)[of r] by (auto simp: takeWhile_append list_all_iff)

lemma scan_show_nat:
  assumes "ok_rest r"
  shows "scan_number neg (show_nat n @ r) = Some (JInt ((if neg then -1 else 1) * int n), r)"
proof -
  obtain c t where s: "show_nat n = c # t"
    using show_nat_nonempty by (cases "show_nat n") auto
  have "int_digits (show_nat n @ r) = show_nat n"
    using takeWhile_digits[OF show_nat_digits assms, of n] show_nat_hd[OF s] s
    by (auto simp: int_digits_def)
  then show ?thesis
    using ok_rest_not_number[OF assms] by (simp add: scan_number_def show_nat_nonempty Let_def)
qed

lemma digit_not_special:
  "is_digit c \<Longrightarrow> c \<noteq> dquote \<and> c \<noteq> CHR ''['' \<and> c \<noteq> CHR ''{'' \<and> c \<noteq> CHR ''-'' \<and> c \<noteq> CHR ''n''
     \<and> c \<noteq> CHR ''t'' \<and> c \<noteq> CHR ''f'' \<and> c \<noteq> CHR ''N'' \<and> c \<noteq> CHR ''I''"
  by (auto simp: is_digit_def dquote_def)

lemma show_nat_Cons: "\<exists>c t. show_nat n = c # t \<and> is_digit c"
  using show_nat_digits[of n] show_nat_nonempty[of n] by (cases "show_nat n") auto

lemma scan_show_int:
  assumes "ok_rest r"
  shows "\<exists>c t. show_int i @ r = c # t \<and> c \<noteq> dquote \<and> c \<noteq> CHR ''['' \<and> c \<noteq> CHR ''{'' \<and>
    \<not> is_ws c \<and> c \<noteq> CHR '']'' \<and> scan_atom c t = Some (JInt i, r)"
proof (cases "i < 0")
  case True
  obtain c t where s: "show_nat (nat (- i)) = c # t" and c: "is_digit c"
    using show_nat_Cons by blast
  have "scan_word ''Infinity'' (JFloat NegInf) (show_nat (nat (- i)) @ r) = None"
    using c by (auto simp: scan_word_def s is_digit_def)
  moreover have "scan_number True (show_nat (nat (- i)) @ r) = Some (JInt i, r)"
    using True scan_show_nat[OF assms, of True "nat (- i)"] by simp
  ultimately show ?thesis
    using True by (simp add: show_int_def scan_atom_def is_ws_def dquote_def)
next
  case False
  obtain c t where s: "show_nat (nat i) = c # t" and c: "is_digit c"
    using show_nat_Cons by blast
  have "scan_number False (show_nat (nat i) @ r) = Some (JInt i, r)"
    using False scan_show_nat[OF assms, of False "nat i"] by simp
  moreover have "\<not> is_ws c" "c \<noteq> CHR '']''" using c by (auto simp: is_digit_def is_ws_def)
  ultimately show ?thesis
    using False digit_not_special[OF c] by (simp add: show_int_def scan_atom_def s)
qed

subsection \<open>Whole values\<close>

text \<open>Every text starts with a character that is neither blank nor a closing bracket.\<close>

lemma dumps_start:
  assumes "plain v"
  shows "\<exists>c t. dumps fr sp v = c # t \<and> \<not> is_ws c \<and> c \<noteq> CHR '']''"
proof (cases v)
  case (JInt i)
  then show ?thesis
    using show_nat_Cons[of "nat i"] by (auto simp: show_int_def is_ws_def is_digit_def)
qed (use assms in \<open>auto simp: dump_str_def is_ws_def dquote_def\<close>)

lemma skip_ws_dumps: "plain v \<Longrightarrow> skip_ws (dumps fr sp v @ r) = dumps fr sp v @ r"
  using dumps_start[of v fr sp] by auto

lemma skip_ws_str: "skip_ws (dump_str k @ r) = dump_str k @ r"
  by (simp add: dump_str_def)

lemma foldl_update_append:
  "distinct (map fst (d @ ps)) \<Longrightarrow> foldl (\<lambda>d (k, v). AList.update k v d) d ps = d @ ps"
proof (induction ps arbitrary: d)
  case Nil
  then show ?case by simp
next
  case (Cons p ps)
  obtain k v where p: "p = (k, v)" by fastforce
  have "AList.update k v d = d @ [(k, v)]"
    using Cons.prems p by (induction d) auto
  with Cons p show ?case by simp
qed

lemma dict_of_pairs_id: "distinct (map fst ps) \<Longrightarrow> dict_of_pairs ps = ps"
  by (simp add: dict_of_pairs_def foldl_update_append)

lemma ok_rest_sep: "ok_sep sp \<Longrightarrow> ok_rest (item_sep sp @ r)"
  by (auto simp: ok_sep_def ok_rest_def compact_def spaced_def)

lemma ok_sep_cases:
  assumes "ok_sep sp"
  obtains ws1 ws2 where "item_sep sp = CHR '','' # ws1" "key_sep sp = CHR '':'' # ws2"
    "\<And>r. skip_ws (ws1 @ r) = skip_ws r" "\<And>r. skip_ws (ws2 @ r) = skip_ws r"
  using assms by (auto simp: ok_sep_def compact_def spaced_def)

lemma length_dumps_pos: "plain v \<Longrightarrow> 0 < length (dumps fr sp v)"
  using dumps_start[of v fr sp] by auto

lemma scan_value_str:
  "scan_value (Suc n) (dump_str s @ r) = Some (JStr s, r)"
  using scan_dump_str[of s r] by (simp add: dump_str_def)

lemma scan_value_items:
  assumes "plain x" and "scan_items n (dumps fr sp x @ t) = Some (xs, r)"
  shows "scan_value (Suc n) (CHR ''['' # dumps fr sp x @ t) = Some (JList xs, r)"
proof -
  obtain c u where c: "dumps fr sp x = c # u" "\<not> is_ws c" "c \<noteq> CHR '']''"
    using dumps_start[OF assms(1)] by blast
  with assms(2) show ?thesis by (simp add: dquote_def)
qed

lemma scan_value_members:
  assumes "scan_members n (dump_str k @ t) = Some (ms, r)" and "distinct (map fst ms)"
  shows "scan_value (Suc n) (CHR ''{'' # dump_str k @ t) = Some (JObj ms, r)"
  using assms dict_of_pairs_id[OF assms(2)] by (simp add: dump_str_def dquote_def is_ws_def)

lemma scan_items_Cons:
  assumes "scan_value n (dumps fr sp x @ t) = Some (x, t)"
  shows "t = CHR '']'' # r \<Longrightarrow> scan_items (Suc n) (dumps fr sp x @ t) = Some ([x], r)"
    and "t = CHR '','' # ws @ u \<Longrightarrow> scan_items n (skip_ws (ws @ u)) = Some (xs, r) \<Longrightarrow>
         scan_items (Suc n) (dumps fr sp x @ t) = Some (x # xs, r)"
  using assms by (simp_all add: is_ws_def)

lemma scan_members_Cons:
  assumes "key_sep sp = CHR '':'' # ws2" and "\<And>r. skip_ws (ws2 @ r) = skip_ws r" and "plain v"
    and "scan_value n (dumps fr sp v @ t) = Some (v, t)"
  shows "t = CHR ''}'' # r \<Longrightarrow>
           scan_members (Suc n) (dump_str k @ key_sep sp @ dumps fr sp v @ t) = Some ([(k, v)], r)"
    and "t = CHR '','' # ws @ u \<Longrightarrow> scan_members n (skip_ws (ws @ u)) = Some (ms, r) \<Longrightarrow>
         scan_members (Suc n) (dump_str k @ key_sep sp @ dumps fr sp v @ t) = Some ((k, v) # ms, r)"
  using assms scan_dump_str[of k "CHR '':'' # ws2 @ dumps fr sp v @ t"]
  by (simp_all add: dump_str_def skip_ws_dumps is_ws_def)

text \<open>The start of a non-empty list of items or members.\<close>

lemma dump_items_start:
  "xs \<noteq> [] \<Longrightarrow> plain_items xs \<Longrightarrow> \<exists>x t. plain x \<and> dump_items fr sp xs = dumps fr sp x @ t"
proof (cases xs)
  case (Cons x ys)
  assume "plain_items xs"
  with Cons show ?thesis by (cases ys) auto
qed simp

lemma dump_members_start:
  "m \<noteq> [] \<Longrightarrow> \<exists>k t. dump_members fr sp m = dump_str k @ t"
proof (cases m)
  case (Cons x ys)
  then show ?thesis by (cases x; cases ys) auto
qed simp

lemma skip_ws_dump_items:
  "xs \<noteq> [] \<Longrightarrow> plain_items xs \<Longrightarrow> skip_ws (dump_items fr sp xs @ r) = dump_items fr sp xs @ r"
  using dump_items_start[of xs fr sp] skip_ws_dumps by (metis append.assoc)

lemma skip_ws_dump_members:
  "m \<noteq> [] \<Longrightarrow> skip_ws (dump_members fr sp m @ r) = dump_members fr sp m @ r"
  using dump_members_start[of m fr sp] skip_ws_str by (metis append.assoc)

lemma scan_dumps:
  "ok_sep sp \<Longrightarrow> plain v \<Longrightarrow> ok_rest r \<Longrightarrow> 2 * length (dumps fr sp v @ r) < n \<Longrightarrow>
     scan_value n (dumps fr sp v @ r) = Some (v, r)"
  "ok_sep sp \<Longrightarrow> plain_items xs \<Longrightarrow> xs \<noteq> [] \<Longrightarrow> 2 * length (dump_items fr sp xs @ CHR '']'' # r) + 1 < n \<Longrightarrow>
     scan_items n (dump_items fr sp xs @ CHR '']'' # r) = Some (xs, r)"
  "ok_sep sp \<Longrightarrow> plain_members m \<Longrightarrow> m \<noteq> [] \<Longrightarrow> 2 * length (dump_members fr sp m @ CHR ''}'' # r) + 1 < n \<Longrightarrow>
     scan_members n (dump_members fr sp m @ CHR ''}'' # r) = Some (m, r)"
proof (induction fr sp v and fr sp xs and fr sp m arbitrary: n r and n r and n r
    rule: dumps_dump_items_dump_members.induct)
  case (1 fr sp)
  then show ?case by (cases n) (auto simp: scan_atom_def scan_word_def dquote_def)
next
  case (2 fr sp b)
  then show ?case by (cases n; cases b) (auto simp: scan_atom_def scan_word_def dquote_def)
next
  case (3 fr sp i)
  then show ?case using scan_show_int[OF "3.prems"(3), of i] by (cases n) auto
next
  case (4 fr sp f)
  then show ?case by simp
next
  case (5 fr sp s)
  then show ?case using scan_value_str by (cases n) auto
next
  case (6 fr sp xs)
  obtain n' where n: "n = Suc n'" using "6.prems"(4) by (cases n) auto
  show ?case
  proof (cases "xs = []")
    case True
    then show ?thesis by (simp add: n dquote_def)
  next
    case False
    then obtain x t where x: "plain x" "dump_items fr sp xs = dumps fr sp x @ t"
      using dump_items_start "6.prems"(2) by (metis plain.simps(2))
    have "scan_items n' (dump_items fr sp xs @ CHR '']'' # r) = Some (xs, r)"
      using "6.IH"[of r n'] "6.prems" False n by simp
    then show ?thesis using x n scan_value_items[OF x(1)] by simp
  qed
next
  case (7 fr sp m)
  obtain n' where n: "n = Suc n'" using "7.prems"(4) by (cases n) auto
  show ?case
  proof (cases "m = []")
    case True
    then show ?thesis by (simp add: n dquote_def)
  next
    case False
    then obtain k t where x: "dump_members fr sp m = dump_str k @ t"
      using dump_members_start by metis
    have "scan_members n' (dump_members fr sp m @ CHR ''}'' # r) = Some (m, r)"
      using "7.IH"[of r n'] "7.prems" False n by simp
    then show ?thesis using x n scan_value_members "7.prems"(2) by simp
  qed
next
  case (8 fr sp)
  then show ?case by simp
next
  case (9 fr sp x)
  obtain n' where n: "n = Suc n'" using "9.prems"(4) by (cases n) auto
  have "scan_value n' (dumps fr sp x @ CHR '']'' # r) = Some (x, CHR '']'' # r)"
    using "9.IH"[of "CHR '']'' # r" n'] "9.prems" n by (simp add: ok_rest_def)
  then show ?case using scan_items_Cons(1) n by simp
next
  case (10 fr sp x y xs)
  obtain n' where n: "n = Suc n'" using "10.prems"(4) by (cases n) auto
  obtain ws1 ws2 where sep: "item_sep sp = CHR '','' # ws1" "\<And>r. skip_ws (ws1 @ r) = skip_ws r"
    using ok_sep_cases[OF "10.prems"(1)] by metis
  let ?u = "dump_items fr sp (y # xs) @ CHR '']'' # r"
  have "scan_value n' (dumps fr sp x @ item_sep sp @ ?u) = Some (x, item_sep sp @ ?u)"
    using "10.IH"(1)[of "item_sep sp @ ?u" n'] "10.prems" n by (simp add: ok_rest_sep)
  moreover have "scan_items n' ?u = Some (y # xs, r)"
    using "10.IH"(2)[of r n'] "10.prems" n sep(1) length_dumps_pos[of x fr sp] by simp
  moreover have "skip_ws (ws1 @ ?u) = ?u"
    using skip_ws_dump_items[of "y # xs" fr sp] "10.prems"(2) sep(2) by simp
  ultimately show ?case using scan_items_Cons(2)[of n' fr sp x _ ws1 ?u] n sep(1) by simp
next
  case (11 fr sp)
  then show ?case by simp
next
  case (12 fr sp k v)
  obtain n' where n: "n = Suc n'" using "12.prems"(4) by (cases n) auto
  obtain ws1 ws2 where sep: "key_sep sp = CHR '':'' # ws2" "\<And>r. skip_ws (ws2 @ r) = skip_ws r"
    using ok_sep_cases[OF "12.prems"(1)] by metis
  have "scan_value n' (dumps fr sp v @ CHR ''}'' # r) = Some (v, CHR ''}'' # r)"
    using "12.IH"[of "CHR ''}'' # r" n'] "12.prems" n by (simp add: ok_rest_def)
  then show ?case using scan_members_Cons(1)[OF sep] "12.prems"(2) n by simp
next
  case (13 fr sp k v m ms)
  obtain n' where n: "n = Suc n'" using "13.prems"(4) by (cases n) auto
  obtain ws1 ws2 where sep: "item_sep sp = CHR '','' # ws1" "key_sep sp = CHR '':'' # ws2"
    "\<And>r. skip_ws (ws1 @ r) = skip_ws r" "\<And>r. skip_ws (ws2 @ r) = skip_ws r"
    using ok_sep_cases[OF "13.prems"(1)] by metis
  let ?u = "dump_members fr sp (m # ms) @ CHR ''}'' # r"
  have "scan_value n' (dumps fr sp v @ item_sep sp @ ?u) = Some (v, item_sep sp @ ?u)"
    using "13.IH"(1)[of "item_sep sp @ ?u" n'] "13.prems" n by (simp add: ok_rest_sep)
  moreover have "scan_members n' ?u = Some (m # ms, r)"
    using "13.IH"(2)[of r n'] "13.prems" n sep(1) by simp
  moreover have "skip_ws (ws1 @ ?u) = ?u"
    using skip_ws_dump_members[of "m # ms" fr sp] sep(3) by simp
  ultimately show ?case
    using scan_members_Cons(2)[OF sep(2) sep(4), of v n' fr] "13.prems"(2) n sep(1) by simp
qed

lemma loads_dumps: "ok_sep sp \<Longrightarrow> plain v \<Longrightarrow> loads (dumps fr sp v) = Some v"
  using scan_dumps(1)[of sp v "[]" fr "Suc (2 * length (dumps fr sp v))"] skip_ws_dumps[of v fr sp "[]"]
  by (simp add: loads_def ok_rest_def)

subsection \<open>The fuel is enough\<close>

text \<open>
  Reading consumes input, and more fuel than twice the input length changes nothing: the fuel of
  \<^const>\<open>loads\<close> is never what makes it fail.
\<close>

lemma skip_ws_length: "length (skip_ws s) \<le> length s"
  by (simp add: skip_ws_def length_dropWhile_le)

lemma scan_string_length: "scan_string s = Some (t, r) \<Longrightarrow> length r < length s"
  by (induction s arbitrary: t r rule: scan_string.induct)
    (fastforce split: if_splits list.splits option.splits simp: bind_eq_Some_conv)+

lemma scan_word_length: "scan_word w v s = Some (x, r) \<Longrightarrow> length r \<le> length s"
  by (auto simp: scan_word_def split: if_splits)

lemma scan_fraction_length: "length (snd (scan_fraction s)) \<le> length s"
  by (auto simp: scan_fraction_def length_dropWhile_le le_SucI split: list.splits)

lemma scan_exponent_length: "length (snd (scan_exponent s)) \<le> length s"
proof -
  have d: "length (dropWhile is_digit t) \<le> length t" for t :: string
    by (rule length_dropWhile_le)
  have d': "length (dropWhile is_digit t) \<le> Suc (Suc (length t))" for t :: string
    using d[of t] by linarith
  show ?thesis
    by (auto simp: scan_exponent_def Let_def split: list.splits if_splits prod.splits
        intro: le_SucI d d' order_trans[OF d])
qed

lemma scan_number_length:
  assumes "scan_number neg s = Some (x, r)"
  shows "length r < length s"
proof -
  let ?ds = "int_digits s"
  let ?r1 = "snd (scan_fraction (drop (length ?ds) s))"
  have ds: "?ds \<noteq> []" and r: "r = snd (scan_exponent ?r1)"
    using assms by (auto simp: scan_number_def Let_def split: prod.splits if_splits)
  have "s \<noteq> []" using ds by (auto simp: int_digits_def)
  have "length r \<le> length ?r1" using scan_exponent_length r by simp
  also have "\<dots> \<le> length (drop (length ?ds) s)" by (rule scan_fraction_length)
  also have "\<dots> < length s" using ds \<open>s \<noteq> []\<close> by simp
  finally show ?thesis .
qed

lemma scan_atom_length: "scan_atom c r = Some (x, t) \<Longrightarrow> length t < length (c # r)"
  using scan_number_length[of False "c # r" x t] scan_number_length[of True r x t]
    scan_word_length[of "''Infinity''" "JFloat NegInf" r x t]
  by (auto simp: scan_atom_def scan_word_def less_Suc_eq_le split: if_splits option.splits)

lemma skip_ws_Cons_length: "skip_ws s = c # r \<Longrightarrow> length r < length s"
  using skip_ws_length[of s] by simp

lemma scan_length:
  "scan_value n s = Some (v, r) \<Longrightarrow> length r < length s"
  "scan_items n s = Some (xs, r) \<Longrightarrow> length r < length s"
  "scan_members n s = Some (m, r) \<Longrightarrow> length r < length s"
proof (induction n s and n s and n s arbitrary: v r and xs r and m r
    rule: scan_value_scan_items_scan_members.induct)
  case (3 n c s)
  consider "c = dquote" | "c = CHR ''[''" | "c = CHR ''{''" | "c \<notin> {dquote, CHR ''['', CHR ''{''}"
    by blast
  then show ?case
  proof cases
    case 1
    with "3.prems" show ?thesis
      by (auto simp: bind_eq_Some_conv dest!: scan_string_length)
  next
    case 2
    with "3.prems" obtain d r' where d: "skip_ws s = d # r'"
      by (cases "skip_ws s") (auto simp: dquote_def)
    with 2 "3.IH"(1)[of d r'] "3.prems" skip_ws_Cons_length[OF d] show ?thesis
      by (auto simp: dquote_def bind_eq_Some_conv split: if_splits)
  next
    case 3
    with "3.prems" obtain d r' where d: "skip_ws s = d # r'"
      by (cases "skip_ws s") (auto simp: dquote_def)
    with 3 "3.IH"(2)[of d r'] "3.prems" skip_ws_Cons_length[OF d] show ?thesis
      by (auto simp: dquote_def bind_eq_Some_conv split: if_splits)
  next
    case 4
    with "3.prems" scan_atom_length show ?thesis by auto
  qed
next
  case (5 n s)
  from "5.prems" obtain x r1 where x: "scan_value n s = Some (x, r1)"
    by (auto simp: bind_eq_Some_conv)
  with "5.prems" obtain d r2 where d: "skip_ws r1 = d # r2"
    by (cases "skip_ws r1") auto
  have "length r1 < length s" using "5.IH"(1)[OF x] .
  with x d "5.IH"(2)[OF x refl d] "5.prems" skip_ws_Cons_length[OF d] skip_ws_length[of r2] show ?case
    by (fastforce split: if_splits simp: bind_eq_Some_conv)
next
  case (8 n q s)
  from "8.prems" obtain k r1 col r2 where q: "q = dquote" and k: "scan_string s = Some (k, r1)"
    and col: "skip_ws r1 = col # r2" "col = CHR '':''"
    by (cases "scan_string s") (auto split: if_split_asm list.split_asm)
  with "8.prems" obtain v r3 d r4 where v: "scan_value n (skip_ws r2) = Some (v, r3)"
    and d: "skip_ws r3 = d # r4"
    by (cases "scan_value n (skip_ws r2)") (auto split: list.split_asm)
  have "length r3 < length s"
    using "8.IH"(1)[of "(k, r1)" k r1 col r2] q k col v scan_string_length[OF k]
      skip_ws_Cons_length[OF col(1)] skip_ws_length[of r2]
    by fastforce
  with q k col v d "8.prems" "8.IH"(2)[of "(k, r1)" k r1 col r2 "(v, r3)" v r3 d r4]
    skip_ws_Cons_length[OF d] skip_ws_length[of r4]
  show ?case
    by (fastforce split: if_splits simp: bind_eq_Some_conv)
qed simp_all

lemma scan_fuel:
  "2 * length s < n \<Longrightarrow> scan_value (Suc n) s = scan_value n s"
  "2 * length s + 1 < n \<Longrightarrow> scan_items (Suc n) s = scan_items n s"
  "2 * length s + 1 < n \<Longrightarrow> scan_members (Suc n) s = scan_members n s"
proof (induction n s and n s and n s rule: scan_value_scan_items_scan_members.induct)
  case (3 n c s)
  consider "c = CHR ''[''" | "c = CHR ''{''" | "c \<notin> {CHR ''['', CHR ''{''}"
    by blast
  then show ?case
  proof cases
    case 1
    show ?thesis
    proof (cases "skip_ws s")
      case (Cons d r')
      with 1 "3.IH"(1)[of d r'] "3.prems" skip_ws_Cons_length[OF Cons] show ?thesis
        by (simp add: dquote_def)
    qed (simp add: 1 dquote_def)
  next
    case 2
    show ?thesis
    proof (cases "skip_ws s")
      case (Cons d r')
      with 2 "3.IH"(2)[of d r'] "3.prems" skip_ws_Cons_length[OF Cons] show ?thesis
        by (simp add: dquote_def)
    qed (simp add: 2 dquote_def)
  next
    case 3
    then show ?thesis by simp
  qed
next
  case (5 n s)
  show ?case
  proof (cases "scan_value n s")
    case (Some p)
    obtain x r1 where p: "p = (x, r1)" by fastforce
    have same: "scan_value (Suc n) s = scan_value n s" using "5.IH"(1) "5.prems" by simp
    show ?thesis
    proof (cases "skip_ws r1")
      case (Cons d r2)
      have len: "length (skip_ws r2) + 2 \<le> length s"
        using scan_length(1)[OF Some [unfolded p]] skip_ws_Cons_length[OF Cons] skip_ws_length[of r2]
        by linarith
      have "scan_items (Suc n) (skip_ws r2) = scan_items n (skip_ws r2)"
        if "d = CHR '',''"
      proof (rule "5.IH"(2)[OF Some p [symmetric] Cons])
        show "2 * length (skip_ws r2) + 1 < n" using len "5.prems" by simp
      qed (use that in simp_all)
      with same Some p Cons show ?thesis
        by (simp del: scan_items.simps add: scan_items.simps(2)[of n s] scan_items.simps(2)[of "Suc n" s])
    qed (use same Some p in simp)
  qed (use "5.IH"(1) "5.prems" in simp)
next
  case (8 n q s)
  show ?case
  proof (cases "q = dquote \<and> scan_string s \<noteq> None")
    case True
    then obtain k r1 where k: "scan_string s = Some (k, r1)" by auto
    show ?thesis
    proof (cases "skip_ws r1")
      case (Cons col r2)
      show ?thesis
      proof (cases "col = CHR '':''")
        case col: True
        have len: "length (skip_ws r2) + 2 \<le> length s"
          using scan_string_length[OF k] skip_ws_Cons_length[OF Cons] skip_ws_length[of r2] by linarith
        have same: "scan_value (Suc n) (skip_ws r2) = scan_value n (skip_ws r2)"
          using "8.IH"(1)[of "(k, r1)" k r1 col r2] True k Cons col len "8.prems" by simp
        show ?thesis
        proof (cases "scan_value n (skip_ws r2)")
          case (Some p)
          obtain v r3 where p: "p = (v, r3)" by fastforce
          show ?thesis
          proof (cases "skip_ws r3")
            case c3: (Cons d r4)
            have len4: "length (skip_ws r4) + 2 \<le> length s"
              using scan_length(1)[OF Some [unfolded p]] len skip_ws_Cons_length[OF c3]
                skip_ws_length[of r4] by linarith
            have "scan_members (Suc n) (skip_ws r4) = scan_members n (skip_ws r4)" if "d = CHR '',''"
            proof (rule "8.IH"(2)[OF _ k refl Cons _ Some p [symmetric] c3])
              show "2 * length (skip_ws r4) + 1 < n" using len4 "8.prems" by simp
            qed (use that True col in simp_all)
            with same Some p c3 True k Cons col show ?thesis by simp
          qed (use same Some p True k Cons col in simp)
        qed (use same True k Cons col in simp)
      qed (use True k Cons in simp)
    qed (use True k in simp)
  next
    case False
    then show ?thesis by (cases "scan_string s") auto
  qed
qed simp_all

lemma scan_value_fuel: "2 * length s < n \<Longrightarrow> scan_value n s = scan_value (Suc (2 * length s)) s"
proof (induction n)
  case (Suc n)
  then show ?case using scan_fuel(1)[of s n] by (cases "2 * length s < n") (auto simp: not_less less_Suc_eq)
qed simp

end
