(* ===== verification/Python.thy ===== *)
theory Python
  imports Json
begin

text \<open>
  What the sources use of Python's standard library on strings, numbers and values read from JSON or
  YAML: white space, prefixes and suffixes, line and word splitting, \<open>float\<close>, \<open>int\<close> and
  \<open>round\<close>, the median, subscripts, \<open>get\<close>, iteration and list comprehensions whose body may
  raise.
\<close>

text \<open>White space, as \<open>str.isspace\<close> and \<open>\s\<close> see it on the modelled code points.\<close>

definition is_space :: "char \<Rightarrow> bool" where
  "is_space c \<longleftrightarrow> (9 \<le> ord c \<and> ord c \<le> 13) \<or> (28 \<le> ord c \<and> ord c \<le> 32) \<or> ord c = 133 \<or> ord c = 160"

section \<open>Text and numbers of Python\<close>

definition strip :: "string \<Rightarrow> string" where
  "strip s = rev (dropWhile is_space (rev (dropWhile is_space s)))"

definition ends_with :: "string \<Rightarrow> string \<Rightarrow> bool" where
  "ends_with suf s \<longleftrightarrow> length suf \<le> length s \<and> drop (length s - length suf) s = suf"

definition removesuffix :: "string \<Rightarrow> string \<Rightarrow> string" where
  "removesuffix suf s = (if ends_with suf s then take (length s - length suf) s else s)"

definition starts_with :: "string \<Rightarrow> string \<Rightarrow> bool" where
  "starts_with p s \<longleftrightarrow> take (length p) s = p"

lemma starts_with_iff: "starts_with p s \<longleftrightarrow> (\<exists>t. s = p @ t)"
  by (auto simp: starts_with_def) (metis append_take_drop_id)

definition contains :: "string \<Rightarrow> string \<Rightarrow> bool" where
  "contains sub s \<longleftrightarrow> list_ex (\<lambda>i. starts_with sub (drop i s)) [0 ..< Suc (length s)]"

text \<open>\<open>str.upper\<close>; the two code points whose upper case lies outside the modelled range stay.\<close>

definition upper_char :: "char \<Rightarrow> char" where
  "upper_char c =
     (if (97 \<le> ord c \<and> ord c \<le> 122) \<or> (224 \<le> ord c \<and> ord c \<le> 254 \<and> ord c \<noteq> 247) then char_of (ord c - 32) else c)"

text \<open>\<open>float(text)\<close>: surrounding space, a sign, single underscores between digits, an exponent.\<close>

fun no_underscores :: "bool \<Rightarrow> string \<Rightarrow> string option" where
  "no_underscores after_digit [] = Some []"
| "no_underscores after_digit (c # r) =
     (if c = CHR ''_'' then
        (if after_digit \<and> (case r of [] \<Rightarrow> False | d # _ \<Rightarrow> is_digit d) then no_underscores False r else None)
      else map_option ((#) c) (no_underscores (is_digit c) r))"

definition unsigned_float :: "string \<Rightarrow> pyfloat option" where
  "unsigned_float s =
     (if lower s = ''inf'' \<or> lower s = ''infinity'' then Some PosInf
      else if lower s = ''nan'' then Some NaN
      else (let whole = takeWhile is_digit s; r = dropWhile is_digit s;
                (frac, r1) = (case r of
                   [] \<Rightarrow> ([], r)
                 | c # t \<Rightarrow> if c = CHR ''.'' then (takeWhile is_digit t, dropWhile is_digit t) else ([], r));
                (ex, r2) = scan_exponent r1
            in if whole @ frac = [] \<or> r2 \<noteq> [] then None
               else Some (Fin (of_nat (read_nat (whole @ frac)) *
                      pow10 ((case ex of None \<Rightarrow> 0 | Some e \<Rightarrow> e) - int (length frac))))))"

definition fneg :: "pyfloat \<Rightarrow> pyfloat" where
  "fneg x = (case x of Fin r \<Rightarrow> Fin (- r) | PosInf \<Rightarrow> NegInf | NegInf \<Rightarrow> PosInf | NaN \<Rightarrow> NaN)"

definition float_of_text :: "string \<Rightarrow> pyfloat res" where
  "float_of_text s = res_of (ValueError ''could not convert string to float'')
     (Option.bind (no_underscores False (strip s)) (\<lambda>t.
        case t of
          [] \<Rightarrow> None
        | c # r \<Rightarrow> if c = CHR ''-'' then map_option fneg (unsigned_float r)
                   else if c = CHR ''+'' then unsigned_float r else unsigned_float t))"

definition py_float :: "jval \<Rightarrow> pyfloat res" where
  "py_float v = (case v of
     JInt i \<Rightarrow> Inr (Fin (of_int i))
   | JFloat f \<Rightarrow> Inr f
   | JBool b \<Rightarrow> Inr (Fin (if b then 1 else 0))
   | JStr s \<Rightarrow> float_of_text s
   | _ \<Rightarrow> Inl TypeError)"

definition int_of_text :: "string \<Rightarrow> int option" where
  "int_of_text s = Option.bind (no_underscores False (strip s)) (\<lambda>t.
     let (neg, ds) = (case t of
           [] \<Rightarrow> (False, t)
         | c # r \<Rightarrow> if c = CHR ''-'' then (True, r) else if c = CHR ''+'' then (False, r) else (False, t))
     in if ds \<noteq> [] \<and> list_all is_digit ds then Some ((if neg then -1 else 1) * int (read_nat ds)) else None)"

definition py_int :: "jval \<Rightarrow> int res" where
  "py_int v = (case v of
     JInt i \<Rightarrow> Inr i
   | JBool b \<Rightarrow> Inr (if b then 1 else 0)
   | JFloat f \<Rightarrow> (case f of
       Fin r \<Rightarrow> Inr (if r < 0 then - \<lfloor>- r\<rfloor> else \<lfloor>r\<rfloor>)
     | NaN \<Rightarrow> Inl (ValueError ''cannot convert float NaN to integer'')
     | _ \<Rightarrow> Inl OverflowError)
   | JStr s \<Rightarrow> res_of (ValueError ''invalid literal for int() with base 10'') (int_of_text s)
   | _ \<Rightarrow> Inl TypeError)"

text \<open>\<open>round(x)\<close>: to the nearest integer, a tie to the even one.\<close>

definition round_half_even :: "rat \<Rightarrow> int" where
  "round_half_even x =
     (let f = \<lfloor>x\<rfloor>; d = x - of_int f
      in if d < 1 / 2 then f else if 1 / 2 < d then f + 1 else if even f then f else f + 1)"

definition py_round :: "pyfloat \<Rightarrow> int res" where
  "py_round x = (case x of
     Fin r \<Rightarrow> Inr (round_half_even r)
   | NaN \<Rightarrow> Inl (ValueError ''cannot convert float NaN to integer'')
   | _ \<Rightarrow> Inl OverflowError)"

fun fadd :: "pyfloat \<Rightarrow> pyfloat \<Rightarrow> pyfloat" where
  "fadd (Fin a) (Fin b) = Fin (a + b)"
| "fadd (Fin a) y = y"
| "fadd x (Fin b) = x"
| "fadd x y = (if x = y then x else NaN)"

definition fscale :: "rat \<Rightarrow> pyfloat \<Rightarrow> pyfloat" where
  "fscale m x = (case x of Fin r \<Rightarrow> Fin (r * m) | _ \<Rightarrow> x)"

definition fsum :: "pyfloat list \<Rightarrow> pyfloat" where
  "fsum xs = foldl fadd (Fin 0) xs"

text \<open>\<open>statistics.median\<close> of a non-empty list.\<close>

definition median :: "pyfloat list \<Rightarrow> pyfloat" where
  "median xs =
     (let s = sort xs; n = length xs
      in if odd n then s ! (n div 2) else fscale (1 / 2) (fadd (s ! (n div 2 - 1)) (s ! (n div 2))))"

text \<open>Subscripts and \<open>dict.get\<close> on a value read from JSON.\<close>

definition subscript :: "jval \<Rightarrow> string \<Rightarrow> jval res" where
  "subscript v k = (case v of
     JObj m \<Rightarrow> (case map_of m k of Some x \<Rightarrow> Inr x | None \<Rightarrow> Inl (KeyError k))
   | _ \<Rightarrow> Inl TypeError)"

definition dict_get :: "jval \<Rightarrow> string \<Rightarrow> jval \<Rightarrow> jval res" where
  "dict_get v k dflt = (case v of
     JObj m \<Rightarrow> Inr (case map_of m k of Some x \<Rightarrow> x | None \<Rightarrow> dflt)
   | _ \<Rightarrow> Inl AttributeError)"

lemma subscript_Inr [res_simps]: "subscript v k = Inr x \<longleftrightarrow> (\<exists>m. v = JObj m \<and> map_of m k = Some x)"
  by (auto simp: subscript_def split: jval.splits option.splits)

lemma dict_get_Inr [res_simps]:
  "dict_get v k d = Inr x \<longleftrightarrow> (\<exists>m. v = JObj m \<and> (map_of m k = Some x \<or> map_of m k = None \<and> x = d))"
  by (auto simp: dict_get_def split: jval.splits option.splits)

text \<open>\<open>str.splitlines\<close>.\<close>

definition is_line_break :: "char \<Rightarrow> bool" where
  "is_line_break c \<longleftrightarrow> (10 \<le> ord c \<and> ord c \<le> 13) \<or> (28 \<le> ord c \<and> ord c \<le> 30) \<or> ord c = 133"

fun split_breaks :: "string \<Rightarrow> string \<Rightarrow> string list" where
  "split_breaks acc [] = (if acc = [] then [] else [rev acc])"
| "split_breaks acc (c # r) =
     (if c = CHR 0x0D then
        (case r of
           d # t \<Rightarrow> if d = CHR 0x0A then rev acc # split_breaks [] t else rev acc # split_breaks [] r
         | [] \<Rightarrow> [rev acc])
      else if is_line_break c then rev acc # split_breaks [] r
      else split_breaks (c # acc) r)"

definition splitlines :: "string \<Rightarrow> string list" where
  "splitlines s = split_breaks [] s"

text \<open>Python indexing, negative indices included.\<close>

definition py_index :: "'a list \<Rightarrow> int \<Rightarrow> 'a res" where
  "py_index xs i =
     (let j = (if i < 0 then i + int (length xs) else i)
      in if 0 \<le> j \<and> j < int (length xs) then Inr (xs ! nat j) else Inl (ServiceError ''IndexError''))"

text \<open>Iteration over a value (a dict gives its keys, a string its characters) and \<open>set(value)\<close>.\<close>

definition iterate :: "jval \<Rightarrow> jval list res" where
  "iterate v = (case v of
     JList xs \<Rightarrow> Inr xs
   | JStr s \<Rightarrow> Inr (map (\<lambda>c. JStr [c]) s)
   | JObj m \<Rightarrow> Inr (map (JStr \<circ> fst) m)
   | _ \<Rightarrow> Inl TypeError)"

definition hashable :: "jval \<Rightarrow> bool" where
  "hashable v = (case v of JList _ \<Rightarrow> False | JObj _ \<Rightarrow> False | _ \<Rightarrow> True)"

definition set_of_value :: "jval \<Rightarrow> jval list res" where
  "set_of_value v = res_bind (iterate v) (\<lambda>xs. if list_all hashable xs then Inr xs else Inl TypeError)"

text \<open>Membership in a set display of strings.\<close>

definition in_names :: "jval \<Rightarrow> string list \<Rightarrow> bool res" where
  "in_names v names = (if hashable v then Inr (v \<in> JStr ` set names) else Inl TypeError)"

section \<open>Comprehensions, loops and joins\<close>

fun map_res :: "('a \<Rightarrow> 'b res) \<Rightarrow> 'a list \<Rightarrow> 'b list res" where
  "map_res f [] = Inr []"
| "map_res f (x # xs) = res_bind (f x) (\<lambda>y. res_bind (map_res f xs) (\<lambda>ys. Inr (y # ys)))"

lemma map_res_Inr: "map_res f xs = Inr ys \<longleftrightarrow> list_all2 (\<lambda>x y. f x = Inr y) xs ys"
  by (induction xs arbitrary: ys) (auto simp: res_bind_eq_Inr list_all2_Cons1)

definition join_with :: "string \<Rightarrow> string list \<Rightarrow> string" where
  "join_with sep xs = (case xs of [] \<Rightarrow> [] | x # r \<Rightarrow> x @ concat (map (\<lambda>y. sep @ y) r))"

text \<open>A \<open>for\<close> loop whose body only raises or goes on, and one that carries a value.\<close>

primrec each :: "('a \<Rightarrow> unit res) \<Rightarrow> 'a list \<Rightarrow> unit res" where
  "each f [] = Inr ()"
| "each f (x # xs) = res_bind (f x) (\<lambda>_. each f xs)"

primrec fold_res :: "('a \<Rightarrow> 's \<Rightarrow> 's res) \<Rightarrow> 'a list \<Rightarrow> 's \<Rightarrow> 's res" where
  "fold_res f [] s = Inr s"
| "fold_res f (x # xs) s = res_bind (f x s) (fold_res f xs)"

lemma each_Inr [res_simps]: "each f xs = Inr u \<longleftrightarrow> (\<forall>x \<in> set xs. f x = Inr ())"
  by (induction xs) (auto simp: res_bind_eq_Inr)

lemma map_res_set: "map_res f xs = Inr ys \<Longrightarrow> set ys = {y. \<exists>x \<in> set xs. f x = Inr y}"
  by (induction xs arbitrary: ys) (auto simp: res_bind_eq_Inr)

lemma map_res_Inr_set: "map_res f xs = Inr ys \<Longrightarrow> x \<in> set xs \<Longrightarrow> \<exists>y \<in> set ys. f x = Inr y"
  by (induction xs arbitrary: ys) (auto simp: res_bind_eq_Inr)

text \<open>\<open>assert\<close> and the contract tools' \<open>require(condition, message)\<close>.\<close>

definition require :: "bool \<Rightarrow> string \<Rightarrow> unit res" where
  "require condition message = (if condition then Inr () else Inl (AssertionError message))"

lemma require_Inr [res_simps]: "require c m = Inr u \<longleftrightarrow> c"
  by (simp add: require_def)

section \<open>Splitting text\<close>

text \<open>\<open>s.split(c, 1)\<close> and \<open>s.rsplit(c, 1)\<close> where \<open>c\<close> occurs; \<open>s.split()\<close>.\<close>

definition split_first :: "char \<Rightarrow> string \<Rightarrow> (string \<times> string) option" where
  "split_first c s = (case dropWhile (\<lambda>x. x \<noteq> c) s of [] \<Rightarrow> None | _ # r \<Rightarrow> Some (takeWhile (\<lambda>x. x \<noteq> c) s, r))"

definition split_last :: "char \<Rightarrow> string \<Rightarrow> (string \<times> string) option" where
  "split_last c s = map_option (\<lambda>(a, b). (rev b, rev a)) (split_first c (rev s))"

fun words_from :: "string \<Rightarrow> string \<Rightarrow> string list" where
  "words_from w [] = (if w = [] then [] else [w])"
| "words_from w (c # r) =
     (if is_space c then (if w = [] then words_from [] r else w # words_from [] r) else words_from (w @ [c]) r)"

definition split_words :: "string \<Rightarrow> string list" where
  "split_words s = words_from [] s"

definition rstrip :: "string \<Rightarrow> string" where
  "rstrip s = rev (dropWhile is_space (rev s))"

definition removeprefix :: "string \<Rightarrow> string \<Rightarrow> string" where
  "removeprefix p s = (if starts_with p s then drop (length p) s else s)"

lemma split_first_append: "split_first c s = Some (a, b) \<Longrightarrow> s = a @ c # b \<and> c \<notin> set a"
proof -
  assume a: "split_first c s = Some (a, b)"
  then obtain x where d: "dropWhile (\<lambda>x. x \<noteq> c) s = x # b" and t: "takeWhile (\<lambda>x. x \<noteq> c) s = a"
    by (auto simp: split_first_def split: list.splits)
  have "x = c" using hd_dropWhile[of "\<lambda>x. x \<noteq> c" s] d by auto
  then show ?thesis using takeWhile_dropWhile_id[of "\<lambda>x. x \<noteq> c" s] d t set_takeWhileD by fastforce
qed

lemma split_last_append: "split_last c s = Some (a, b) \<Longrightarrow> s = a @ c # b \<and> c \<notin> set b"
proof -
  assume "split_last c s = Some (a, b)"
  then have "split_first c (rev s) = Some (rev b, rev a)" by (auto simp: split_last_def)
  from split_first_append[OF this] show ?thesis by (metis append.assoc append_Cons append_Nil rev.simps(2) rev_append rev_rev_ident set_rev)
qed

lemma split_last_at: "c \<notin> set b \<Longrightarrow> split_last c (a @ c # b) = Some (a, b)"
proof -
  assume "c \<notin> set b"
  then have ne: "x \<noteq> c" if "x \<in> set (rev b)" for x using that by auto
  show ?thesis
    using dropWhile_append2[of "rev b" "\<lambda>x. x \<noteq> c" "c # rev a", OF ne]
      takeWhile_append2[of "rev b" "\<lambda>x. x \<noteq> c" "c # rev a", OF ne]
    by (simp add: split_last_def split_first_def)
qed

lemma split_first_None: "split_first c s = None \<longleftrightarrow> c \<notin> set s"
proof -
  have "split_first c s = None \<longleftrightarrow> dropWhile (\<lambda>x. x \<noteq> c) s = []"
    by (simp add: split_first_def del: dropWhile_eq_Nil_conv split: list.split)
  then show ?thesis by (auto simp: dropWhile_eq_Nil_conv)
qed

lemma split_last_None: "split_last c s = None \<longleftrightarrow> c \<notin> set s"
  by (auto simp: split_last_def split_first_None)

section \<open>Indented JSON\<close>

text \<open>\<open>json.dumps(value, indent=2, sort_keys=True)\<close>, at an indentation.\<close>

definition new_line :: "nat \<Rightarrow> string" where
  "new_line depth = CHR 0x0A # replicate depth (CHR '' '')"

primrec pretty :: "(pyfloat \<Rightarrow> string) \<Rightarrow> jval \<Rightarrow> nat \<Rightarrow> string" where
  "pretty fr JNull = (\<lambda>d. ''null'')"
| "pretty fr (JBool b) = (\<lambda>d. if b then ''true'' else ''false'')"
| "pretty fr (JInt i) = (\<lambda>d. show_int i)"
| "pretty fr (JFloat f) = (\<lambda>d. fr f)"
| "pretty fr (JStr s) = (\<lambda>d. dump_str s)"
| "pretty fr (JList xs) =
     (\<lambda>d. if xs = [] then ''[]''
          else ''['' @ new_line (d + 2) @
               join_with ('','' @ new_line (d + 2)) (map (\<lambda>p. p (d + 2)) (map (pretty fr) xs)) @ new_line d @ '']'')"
| "pretty fr (JObj m) =
     (\<lambda>d. if m = [] then ''{}''
          else ''{'' @ new_line (d + 2) @
               join_with ('','' @ new_line (d + 2))
                 (map (\<lambda>(k, p). dump_str k @ '': '' @ p (d + 2)) (sort_key fst (map (map_prod id (pretty fr)) m))) @
               new_line d @ ''}'')"

text \<open>The \<open>sort_keys=True\<close> of a one-line dump: the members of every object by key.\<close>

primrec key_sorted :: "jval \<Rightarrow> jval" where
  "key_sorted JNull = JNull"
| "key_sorted (JBool b) = JBool b"
| "key_sorted (JInt i) = JInt i"
| "key_sorted (JFloat f) = JFloat f"
| "key_sorted (JStr s) = JStr s"
| "key_sorted (JList xs) = JList (map key_sorted xs)"
| "key_sorted (JObj m) = JObj (sort_key fst (map (map_prod id key_sorted) m))"

text \<open>\<open>{**a, **b}\<close>.\<close>

definition merge_dict :: "('k \<times> 'v) list \<Rightarrow> ('k \<times> 'v) list \<Rightarrow> ('k \<times> 'v) list" where
  "merge_dict a b = foldl (\<lambda>d (k, v). AList.update k v d) a b"

lemma map_of_merge_dict: "k \<notin> fst ` set b \<Longrightarrow> map_of (merge_dict a b) k = map_of a k"
  by (induction b arbitrary: a rule: rev_induct) (auto simp: merge_dict_def update_conv')

end
