(* ===== verification/Telemetry.thy ===== *)
theory Telemetry
  imports Python
begin

text \<open>
  The versioned telemetry contract of \<open>src/fleetpulse/telemetry.py\<close>: one record per model class,
  a reader per class that applies the class's field constraints and forbids extra fields
  (\<open>model_validate\<close>), a writer (\<open>model_dump(mode="json")\<close>), and the well-formedness
  predicate that the constraints amount to.

  How pydantic reads a single scalar is not FleetPulse code: the scalar readers, the text of a
  datetime and the JSON text layer of \<open>model_dump_json\<close> / \<open>model_validate_json\<close> are the
  fields of a \<open>codec\<close>, an argument of the readers and writers. \<open>codec_ok\<close> states the
  documented behaviour the code relies on: what was written is read back.
\<close>

section \<open>Scalar codec\<close>

record codec =
  as_int :: "jval \<Rightarrow> int option"
  as_float :: "jval \<Rightarrow> pyfloat option"
  as_str :: "jval \<Rightarrow> string option"
  as_uuid :: "jval \<Rightarrow> uuid option"
  as_datetime :: "jval \<Rightarrow> datetime option"
  show_datetime :: "datetime \<Rightarrow> string"
  json_text :: "jval \<Rightarrow> string"
  json_value :: "string \<Rightarrow> jval option"

text \<open>JSON text has no infinities and no NaN.\<close>

fun finite_json :: "jval \<Rightarrow> bool"
  and finite_items :: "jval list \<Rightarrow> bool"
  and finite_members :: "(string \<times> jval) list \<Rightarrow> bool" where
  "finite_json (JFloat f) = (case f of Fin r \<Rightarrow> True | _ \<Rightarrow> False)"
| "finite_json (JList xs) = finite_items xs"
| "finite_json (JObj m) = finite_members m"
| "finite_json _ = True"
| "finite_items [] = True"
| "finite_items (x # xs) = (finite_json x \<and> finite_items xs)"
| "finite_members [] = True"
| "finite_members ((k, v) # m) = (finite_json v \<and> finite_members m)"

definition codec_ok :: "codec \<Rightarrow> bool" where
  "codec_ok c \<longleftrightarrow>
     (\<forall>i. as_int c (JInt i) = Some i) \<and>
     (\<forall>f. as_float c (JFloat f) = Some f) \<and>
     (\<forall>s. as_str c (JStr s) = Some s) \<and>
     (\<forall>u. as_uuid c (JStr (uuid_str u)) = Some u) \<and>
     (\<forall>d. is_aware d \<longrightarrow> as_datetime c (JStr (show_datetime c d)) = Some d) \<and>
     (\<forall>v. finite_json v \<longrightarrow> json_value c (json_text c v) = Some v)"

lemma codec_okD:
  assumes "codec_ok c"
  shows "as_int c (JInt i) = Some i" "as_float c (JFloat f) = Some f" "as_str c (JStr s) = Some s"
    "as_uuid c (JStr (uuid_str u)) = Some u"
    "is_aware d \<Longrightarrow> as_datetime c (JStr (show_datetime c d)) = Some d"
    "finite_json v \<Longrightarrow> json_value c (json_text c v) = Some v"
  using assms by (auto simp: codec_ok_def)

section \<open>Constrained fields\<close>

definition guard_opt :: "('a \<Rightarrow> bool) \<Rightarrow> 'a option \<Rightarrow> 'a option" where
  "guard_opt P m = (case m of None \<Rightarrow> None | Some x \<Rightarrow> if P x then Some x else None)"

lemma guard_opt_Some [simp]: "guard_opt P m = Some x \<longleftrightarrow> m = Some x \<and> P x"
  by (auto simp: guard_opt_def split: option.splits)

lemma guard_opt_apply [simp]: "P x \<Longrightarrow> guard_opt P (Some x) = Some x"
  by simp

text \<open>\<open>NonNegativeInt\<close>, \<open>NonNegativeFloat\<close> and \<open>Percentage\<close>.\<close>

definition non_negative_int :: "int \<Rightarrow> bool" where
  "non_negative_int i \<longleftrightarrow> 0 \<le> i"

definition non_negative_float :: "pyfloat \<Rightarrow> bool" where
  "non_negative_float x \<longleftrightarrow> fle (Fin 0) x"

definition percentage :: "pyfloat \<Rightarrow> bool" where
  "percentage x \<longleftrightarrow> fle (Fin 0) x \<and> fle x (Fin 100)"

definition str_len :: "nat \<Rightarrow> nat \<Rightarrow> string \<Rightarrow> bool" where
  "str_len lo hi s \<longleftrightarrow> lo \<le> length s \<and> length s \<le> hi"

text \<open>\<open>ConfigDict(extra="forbid")\<close>: an object with no keys beyond the declared ones.\<close>

definition object_of :: "string list \<Rightarrow> jval \<Rightarrow> (string \<rightharpoonup> jval) option" where
  "object_of names v =
     (case v of
        JObj m \<Rightarrow> if list_all (\<lambda>(k, _). k \<in> set names) m then Some (map_of m) else None
      | _ \<Rightarrow> None)"

definition field :: "(string \<rightharpoonup> jval) \<Rightarrow> string \<Rightarrow> (jval \<Rightarrow> 'a option) \<Rightarrow> 'a option" where
  "field m k f = (case m k of None \<Rightarrow> None | Some v \<Rightarrow> f v)"

definition list_of :: "nat \<Rightarrow> nat \<Rightarrow> (jval \<Rightarrow> 'a option) \<Rightarrow> jval \<Rightarrow> 'a list option" where
  "list_of lo hi f v =
     (case v of
        JList xs \<Rightarrow> if lo \<le> length xs \<and> length xs \<le> hi then those (map f xs) else None
      | _ \<Rightarrow> None)"

lemma field_Some: "field m k f = Some x \<longleftrightarrow> (\<exists>v. m k = Some v \<and> f v = Some x)"
  by (auto simp: field_def split: option.splits)

lemma those_map_Some:
  "those (map f xs) = Some ys \<Longrightarrow> list_all2 (\<lambda>x y. f x = Some y) xs ys"
  by (induction xs arbitrary: ys) (auto split: option.splits)

lemma those_map_inverse:
  "(\<And>x. x \<in> set xs \<Longrightarrow> f (g x) = Some x) \<Longrightarrow> those (map (f \<circ> g) xs) = Some xs"
  by (induction xs) auto

lemma list_of_Some:
  assumes "list_of lo hi f v = Some ys"
  shows "lo \<le> length ys \<and> length ys \<le> hi \<and> (\<forall>y \<in> set ys. \<exists>x. f x = Some y)"
proof -
  obtain xs where xs: "v = JList xs" "lo \<le> length xs" "length xs \<le> hi" "those (map f xs) = Some ys"
    using assms by (auto simp: list_of_def split: jval.splits if_splits)
  have l2: "list_all2 (\<lambda>x y. f x = Some y) xs ys" by (rule those_map_Some [OF xs(4)])
  then have "length xs = length ys" by (rule list_all2_lengthD)
  moreover have "\<exists>x. f x = Some y" if "y \<in> set ys" for y
    using l2 that by (induction rule: list_all2_induct) auto
  ultimately show ?thesis using xs by simp
qed

lemma list_of_inverse:
  "lo \<le> length xs \<Longrightarrow> length xs \<le> hi \<Longrightarrow> (\<And>x. x \<in> set xs \<Longrightarrow> f (g x) = Some x) \<Longrightarrow>
   list_of lo hi f (JList (map g xs)) = Some xs"
  by (simp add: list_of_def those_map_inverse)

section \<open>Processes, disks, memory and network\<close>

record ProcessTelemetry =
  proc_pid :: int
  proc_name :: string
  proc_cpu_percent :: pyfloat
  proc_memory_percent :: pyfloat

definition wf_process :: "ProcessTelemetry \<Rightarrow> bool" where
  "wf_process p \<longleftrightarrow> 1 \<le> proc_pid p \<and> str_len 1 256 (proc_name p) \<and>
     non_negative_float (proc_cpu_percent p) \<and> percentage (proc_memory_percent p)"

definition validate_process :: "codec \<Rightarrow> jval \<Rightarrow> ProcessTelemetry option" where
  "validate_process c v = do {
     m \<leftarrow> object_of [''pid'', ''name'', ''cpu_percent'', ''memory_percent''] v;
     pid \<leftarrow> field m ''pid'' (\<lambda>x. guard_opt (\<lambda>i. 1 \<le> i) (as_int c x));
     name \<leftarrow> field m ''name'' (\<lambda>x. guard_opt (str_len 1 256) (as_str c x));
     cpu \<leftarrow> field m ''cpu_percent'' (\<lambda>x. guard_opt non_negative_float (as_float c x));
     mem \<leftarrow> field m ''memory_percent'' (\<lambda>x. guard_opt percentage (as_float c x));
     Some \<lparr>proc_pid = pid, proc_name = name, proc_cpu_percent = cpu, proc_memory_percent = mem\<rparr> }"

definition dump_process :: "ProcessTelemetry \<Rightarrow> jval" where
  "dump_process p = JObj
     [(''pid'', JInt (proc_pid p)), (''name'', JStr (proc_name p)),
      (''cpu_percent'', JFloat (proc_cpu_percent p)),
      (''memory_percent'', JFloat (proc_memory_percent p))]"

record DiskTelemetry =
  disk_mount :: string
  disk_total_bytes :: int
  disk_used_bytes :: int
  disk_free_bytes :: int
  disk_used_percent :: pyfloat

definition wf_disk :: "DiskTelemetry \<Rightarrow> bool" where
  "wf_disk d \<longleftrightarrow> str_len 1 512 (disk_mount d) \<and> non_negative_int (disk_total_bytes d) \<and>
     non_negative_int (disk_used_bytes d) \<and> non_negative_int (disk_free_bytes d) \<and>
     percentage (disk_used_percent d)"

definition validate_disk :: "codec \<Rightarrow> jval \<Rightarrow> DiskTelemetry option" where
  "validate_disk c v = do {
     m \<leftarrow> object_of [''mount'', ''total_bytes'', ''used_bytes'', ''free_bytes'', ''used_percent''] v;
     mount \<leftarrow> field m ''mount'' (\<lambda>x. guard_opt (str_len 1 512) (as_str c x));
     total \<leftarrow> field m ''total_bytes'' (\<lambda>x. guard_opt non_negative_int (as_int c x));
     used \<leftarrow> field m ''used_bytes'' (\<lambda>x. guard_opt non_negative_int (as_int c x));
     free \<leftarrow> field m ''free_bytes'' (\<lambda>x. guard_opt non_negative_int (as_int c x));
     pct \<leftarrow> field m ''used_percent'' (\<lambda>x. guard_opt percentage (as_float c x));
     Some \<lparr>disk_mount = mount, disk_total_bytes = total, disk_used_bytes = used,
           disk_free_bytes = free, disk_used_percent = pct\<rparr> }"

definition dump_disk :: "DiskTelemetry \<Rightarrow> jval" where
  "dump_disk d = JObj
     [(''mount'', JStr (disk_mount d)), (''total_bytes'', JInt (disk_total_bytes d)),
      (''used_bytes'', JInt (disk_used_bytes d)), (''free_bytes'', JInt (disk_free_bytes d)),
      (''used_percent'', JFloat (disk_used_percent d))]"

record MemoryTelemetry =
  mem_total_bytes :: int
  mem_available_bytes :: int
  mem_used_bytes :: int
  mem_used_percent :: pyfloat

definition wf_memory :: "MemoryTelemetry \<Rightarrow> bool" where
  "wf_memory d \<longleftrightarrow> non_negative_int (mem_total_bytes d) \<and> non_negative_int (mem_available_bytes d) \<and>
     non_negative_int (mem_used_bytes d) \<and> percentage (mem_used_percent d)"

definition validate_memory :: "codec \<Rightarrow> jval \<Rightarrow> MemoryTelemetry option" where
  "validate_memory c v = do {
     m \<leftarrow> object_of [''total_bytes'', ''available_bytes'', ''used_bytes'', ''used_percent''] v;
     total \<leftarrow> field m ''total_bytes'' (\<lambda>x. guard_opt non_negative_int (as_int c x));
     avail \<leftarrow> field m ''available_bytes'' (\<lambda>x. guard_opt non_negative_int (as_int c x));
     used \<leftarrow> field m ''used_bytes'' (\<lambda>x. guard_opt non_negative_int (as_int c x));
     pct \<leftarrow> field m ''used_percent'' (\<lambda>x. guard_opt percentage (as_float c x));
     Some \<lparr>mem_total_bytes = total, mem_available_bytes = avail, mem_used_bytes = used,
           mem_used_percent = pct\<rparr> }"

definition dump_memory :: "MemoryTelemetry \<Rightarrow> jval" where
  "dump_memory d = JObj
     [(''total_bytes'', JInt (mem_total_bytes d)), (''available_bytes'', JInt (mem_available_bytes d)),
      (''used_bytes'', JInt (mem_used_bytes d)), (''used_percent'', JFloat (mem_used_percent d))]"

record NetworkTelemetry =
  bytes_sent :: int
  bytes_received :: int
  packets_sent :: int
  packets_received :: int
  errors_in :: int
  errors_out :: int
  drops_in :: int
  drops_out :: int
  tcp_established :: int
  tcp_listening :: int
  tcp_other :: int
  udp_sockets :: int

definition wf_network :: "NetworkTelemetry \<Rightarrow> bool" where
  "wf_network n \<longleftrightarrow> list_all non_negative_int
     [bytes_sent n, bytes_received n, packets_sent n, packets_received n, errors_in n, errors_out n,
      drops_in n, drops_out n, tcp_established n, tcp_listening n, tcp_other n, udp_sockets n]"

definition validate_network :: "codec \<Rightarrow> jval \<Rightarrow> NetworkTelemetry option" where
  "validate_network c v = do {
     m \<leftarrow> object_of [''bytes_sent'', ''bytes_received'', ''packets_sent'', ''packets_received'',
            ''errors_in'', ''errors_out'', ''drops_in'', ''drops_out'', ''tcp_established'',
            ''tcp_listening'', ''tcp_other'', ''udp_sockets''] v;
     bs \<leftarrow> field m ''bytes_sent'' (\<lambda>x. guard_opt non_negative_int (as_int c x));
     br \<leftarrow> field m ''bytes_received'' (\<lambda>x. guard_opt non_negative_int (as_int c x));
     ps \<leftarrow> field m ''packets_sent'' (\<lambda>x. guard_opt non_negative_int (as_int c x));
     pr \<leftarrow> field m ''packets_received'' (\<lambda>x. guard_opt non_negative_int (as_int c x));
     ei \<leftarrow> field m ''errors_in'' (\<lambda>x. guard_opt non_negative_int (as_int c x));
     eo \<leftarrow> field m ''errors_out'' (\<lambda>x. guard_opt non_negative_int (as_int c x));
     di \<leftarrow> field m ''drops_in'' (\<lambda>x. guard_opt non_negative_int (as_int c x));
     dt \<leftarrow> field m ''drops_out'' (\<lambda>x. guard_opt non_negative_int (as_int c x));
     te \<leftarrow> field m ''tcp_established'' (\<lambda>x. guard_opt non_negative_int (as_int c x));
     tn \<leftarrow> field m ''tcp_listening'' (\<lambda>x. guard_opt non_negative_int (as_int c x));
     tx \<leftarrow> field m ''tcp_other'' (\<lambda>x. guard_opt non_negative_int (as_int c x));
     us \<leftarrow> field m ''udp_sockets'' (\<lambda>x. guard_opt non_negative_int (as_int c x));
     Some \<lparr>bytes_sent = bs, bytes_received = br, packets_sent = ps, packets_received = pr,
           errors_in = ei, errors_out = eo, drops_in = di, drops_out = dt, tcp_established = te,
           tcp_listening = tn, tcp_other = tx, udp_sockets = us\<rparr> }"

definition dump_network :: "NetworkTelemetry \<Rightarrow> jval" where
  "dump_network n = JObj
     [(''bytes_sent'', JInt (bytes_sent n)), (''bytes_received'', JInt (bytes_received n)),
      (''packets_sent'', JInt (packets_sent n)), (''packets_received'', JInt (packets_received n)),
      (''errors_in'', JInt (errors_in n)), (''errors_out'', JInt (errors_out n)),
      (''drops_in'', JInt (drops_in n)), (''drops_out'', JInt (drops_out n)),
      (''tcp_established'', JInt (tcp_established n)), (''tcp_listening'', JInt (tcp_listening n)),
      (''tcp_other'', JInt (tcp_other n)), (''udp_sockets'', JInt (udp_sockets n))]"

section \<open>Samples and batches\<close>

record TelemetrySample =
  observed_at :: datetime
  cpu_percent :: pyfloat
  load_1m :: pyfloat
  load_5m :: pyfloat
  load_15m :: pyfloat
  memory :: MemoryTelemetry
  disks :: "DiskTelemetry list"
  network :: NetworkTelemetry
  process_count :: int
  top_processes :: "ProcessTelemetry list"

text \<open>The field validator: a datetime without an offset is refused.\<close>

definition observed_at_must_be_timezone_aware :: "datetime \<Rightarrow> datetime option" where
  "observed_at_must_be_timezone_aware d = (if utcoffset d = None then None else Some d)"

definition wf_sample :: "TelemetrySample \<Rightarrow> bool" where
  "wf_sample s \<longleftrightarrow> is_aware (observed_at s) \<and> percentage (cpu_percent s) \<and>
     non_negative_float (load_1m s) \<and> non_negative_float (load_5m s) \<and>
     non_negative_float (load_15m s) \<and> wf_memory (memory s) \<and>
     1 \<le> length (disks s) \<and> length (disks s) \<le> 32 \<and> list_all wf_disk (disks s) \<and>
     wf_network (network s) \<and> non_negative_int (process_count s) \<and>
     length (top_processes s) \<le> 20 \<and> list_all wf_process (top_processes s)"

definition validate_sample :: "codec \<Rightarrow> jval \<Rightarrow> TelemetrySample option" where
  "validate_sample c v = do {
     m \<leftarrow> object_of [''observed_at'', ''cpu_percent'', ''load_1m'', ''load_5m'', ''load_15m'',
            ''memory'', ''disks'', ''network'', ''process_count'', ''top_processes''] v;
     oa \<leftarrow> field m ''observed_at''
            (\<lambda>x. Option.bind (as_datetime c x) observed_at_must_be_timezone_aware);
     cpu \<leftarrow> field m ''cpu_percent'' (\<lambda>x. guard_opt percentage (as_float c x));
     l1 \<leftarrow> field m ''load_1m'' (\<lambda>x. guard_opt non_negative_float (as_float c x));
     l5 \<leftarrow> field m ''load_5m'' (\<lambda>x. guard_opt non_negative_float (as_float c x));
     l15 \<leftarrow> field m ''load_15m'' (\<lambda>x. guard_opt non_negative_float (as_float c x));
     mem \<leftarrow> field m ''memory'' (validate_memory c);
     ds \<leftarrow> field m ''disks'' (list_of 1 32 (validate_disk c));
     net \<leftarrow> field m ''network'' (validate_network c);
     pc \<leftarrow> field m ''process_count'' (\<lambda>x. guard_opt non_negative_int (as_int c x));
     ps \<leftarrow> field m ''top_processes'' (list_of 0 20 (validate_process c));
     Some \<lparr>observed_at = oa, cpu_percent = cpu, load_1m = l1, load_5m = l5, load_15m = l15,
           memory = mem, disks = ds, network = net, process_count = pc, top_processes = ps\<rparr> }"

definition dump_sample :: "codec \<Rightarrow> TelemetrySample \<Rightarrow> jval" where
  "dump_sample c s = JObj
     [(''observed_at'', JStr (show_datetime c (observed_at s))),
      (''cpu_percent'', JFloat (cpu_percent s)), (''load_1m'', JFloat (load_1m s)),
      (''load_5m'', JFloat (load_5m s)), (''load_15m'', JFloat (load_15m s)),
      (''memory'', dump_memory (memory s)), (''disks'', JList (map dump_disk (disks s))),
      (''network'', dump_network (network s)), (''process_count'', JInt (process_count s)),
      (''top_processes'', JList (map dump_process (top_processes s)))]"

text \<open>The pattern \<open>^[a-zA-Z0-9][a-zA-Z0-9._-]{0,127}$\<close> of \<open>agent_id\<close>.\<close>

definition agent_id_char :: "char \<Rightarrow> bool" where
  "agent_id_char c \<longleftrightarrow> is_alnum_ascii c \<or> c = CHR ''.'' \<or> c = CHR ''_'' \<or> c = CHR ''-''"

definition agent_id_ok :: "string \<Rightarrow> bool" where
  "agent_id_ok s \<longleftrightarrow>
     (case s of
        [] \<Rightarrow> False
      | c # r \<Rightarrow> is_alnum_ascii c \<and> list_all agent_id_char r \<and> length r \<le> 127)"

record TelemetryBatch =
  schema_version :: int
  batch_id :: uuid
  agent_id :: string
  hostname :: string
  samples :: "TelemetrySample list"

definition wf_batch :: "TelemetryBatch \<Rightarrow> bool" where
  "wf_batch b \<longleftrightarrow> schema_version b = 1 \<and> agent_id_ok (agent_id b) \<and> str_len 1 255 (hostname b) \<and>
     1 \<le> length (samples b) \<and> length (samples b) \<le> 100 \<and> list_all wf_sample (samples b)"

text \<open>\<open>schema_version: Literal[1] = 1\<close>.\<close>

definition schema_version_of :: "(string \<rightharpoonup> jval) \<Rightarrow> int option" where
  "schema_version_of m =
     (case m ''schema_version'' of
        None \<Rightarrow> Some 1
      | Some x \<Rightarrow> if x = JInt 1 then Some 1 else None)"

definition validate_batch :: "codec \<Rightarrow> jval \<Rightarrow> TelemetryBatch option" where
  "validate_batch c v = do {
     m \<leftarrow> object_of [''schema_version'', ''batch_id'', ''agent_id'', ''hostname'', ''samples''] v;
     sv \<leftarrow> schema_version_of m;
     bid \<leftarrow> field m ''batch_id'' (as_uuid c);
     aid \<leftarrow> field m ''agent_id'' (\<lambda>x. guard_opt agent_id_ok (as_str c x));
     host \<leftarrow> field m ''hostname'' (\<lambda>x. guard_opt (str_len 1 255) (as_str c x));
     ss \<leftarrow> field m ''samples'' (list_of 1 100 (validate_sample c));
     Some \<lparr>schema_version = sv, batch_id = bid, agent_id = aid, hostname = host, samples = ss\<rparr> }"

definition dump_batch :: "codec \<Rightarrow> TelemetryBatch \<Rightarrow> jval" where
  "dump_batch c b = JObj
     [(''schema_version'', JInt (schema_version b)), (''batch_id'', JStr (uuid_str (batch_id b))),
      (''agent_id'', JStr (agent_id b)), (''hostname'', JStr (hostname b)),
      (''samples'', JList (map (dump_sample c) (samples b)))]"

text \<open>
  The constructor call \<open>TelemetryBatch(batch_id=..., samples=samples)\<close> with samples that are
  already model instances: the batch's own constraints are checked, the samples are taken as they are.
\<close>

definition new_batch :: "uuid \<Rightarrow> string \<Rightarrow> string \<Rightarrow> TelemetrySample list \<Rightarrow> TelemetryBatch res" where
  "new_batch bid aid host ss =
     (if agent_id_ok aid \<and> str_len 1 255 host \<and> 1 \<le> length ss \<and> length ss \<le> 100
      then Inr \<lparr>schema_version = 1, batch_id = bid, agent_id = aid, hostname = host, samples = ss\<rparr>
      else Inl ValidationError)"

text \<open>\<open>model_dump_json\<close> and \<open>model_validate_json\<close>.\<close>

definition model_dump_json :: "codec \<Rightarrow> TelemetryBatch \<Rightarrow> string" where
  "model_dump_json c b = json_text c (dump_batch c b)"

definition model_validate_json :: "codec \<Rightarrow> string \<Rightarrow> TelemetryBatch res" where
  "model_validate_json c s = res_of ValidationError (Option.bind (json_value c s) (validate_batch c))"

datatype ingestion_status = Accepted | Duplicate

record IngestionResponse =
  resp_batch_id :: uuid
  resp_status :: ingestion_status
  resp_request_id :: string

section \<open>Readers only produce well-formed values\<close>

lemmas bind_Some = Option.bind_eq_Some_conv

lemma validate_process_wf: "validate_process c v = Some p \<Longrightarrow> wf_process p"
  by (auto simp: validate_process_def wf_process_def bind_Some field_Some)

lemma validate_disk_wf: "validate_disk c v = Some d \<Longrightarrow> wf_disk d"
  by (auto simp: validate_disk_def wf_disk_def bind_Some field_Some)

lemma validate_memory_wf: "validate_memory c v = Some d \<Longrightarrow> wf_memory d"
  by (auto simp: validate_memory_def wf_memory_def bind_Some field_Some)

lemma validate_network_wf: "validate_network c v = Some n \<Longrightarrow> wf_network n"
  by (auto simp: validate_network_def wf_network_def bind_Some field_Some)

lemma list_of_wf:
  assumes "list_of lo hi f v = Some ys" and "\<And>x y. f x = Some y \<Longrightarrow> P y"
  shows "lo \<le> length ys \<and> length ys \<le> hi \<and> list_all P ys"
  using list_of_Some[OF assms(1)] assms(2) by (auto simp: list_all_iff)

lemma list_of_disks:
  "list_of lo hi (validate_disk c) v = Some ds \<Longrightarrow> lo \<le> length ds \<and> length ds \<le> hi \<and> list_all wf_disk ds"
  by (erule list_of_wf) (rule validate_disk_wf)

lemma list_of_processes:
  "list_of lo hi (validate_process c) v = Some ps \<Longrightarrow> lo \<le> length ps \<and> length ps \<le> hi \<and> list_all wf_process ps"
  by (erule list_of_wf) (rule validate_process_wf)

lemma aware_validator: "observed_at_must_be_timezone_aware d = Some d' \<Longrightarrow> d' = d \<and> is_aware d"
  by (auto simp: observed_at_must_be_timezone_aware_def is_aware_def split: if_splits)

lemma validate_sample_wf: "validate_sample c v = Some s \<Longrightarrow> wf_sample s"
  unfolding validate_sample_def bind_Some field_Some
  by (clarsimp simp: wf_sample_def dest!: aware_validator
      list_of_disks list_of_processes validate_memory_wf validate_network_wf)

lemma list_of_samples:
  "list_of lo hi (validate_sample c) v = Some ss \<Longrightarrow> lo \<le> length ss \<and> length ss \<le> hi \<and> list_all wf_sample ss"
  by (erule list_of_wf) (rule validate_sample_wf)

lemma schema_version_of_1: "schema_version_of m = Some sv \<Longrightarrow> sv = 1"
  by (simp add: schema_version_of_def split: option.split_asm if_split_asm)

lemma validate_batch_wf: "validate_batch c v = Some b \<Longrightarrow> wf_batch b"
  unfolding validate_batch_def bind_Some field_Some
  by (clarsimp simp: wf_batch_def dest!: list_of_samples schema_version_of_1)

section \<open>What is written is read back\<close>

lemma object_of_JObj [simp]:
  "object_of names (JObj m) = (if list_all (\<lambda>(k, _). k \<in> set names) m then Some (map_of m) else None)"
  by (simp add: object_of_def)

lemma validate_dump_process:
  "codec_ok c \<Longrightarrow> wf_process p \<Longrightarrow> validate_process c (dump_process p) = Some p"
  by (simp add: validate_process_def dump_process_def wf_process_def field_def codec_okD)

lemma validate_dump_disk:
  "codec_ok c \<Longrightarrow> wf_disk d \<Longrightarrow> validate_disk c (dump_disk d) = Some d"
  by (simp add: validate_disk_def dump_disk_def wf_disk_def field_def codec_okD)

lemma validate_dump_memory:
  "codec_ok c \<Longrightarrow> wf_memory d \<Longrightarrow> validate_memory c (dump_memory d) = Some d"
  by (simp add: validate_memory_def dump_memory_def wf_memory_def field_def codec_okD)

lemma validate_dump_network:
  "codec_ok c \<Longrightarrow> wf_network n \<Longrightarrow> validate_network c (dump_network n) = Some n"
  by (simp add: validate_network_def dump_network_def wf_network_def field_def codec_okD)

lemma validate_dump_sample:
  assumes "codec_ok c" and "wf_sample s"
  shows "validate_sample c (dump_sample c s) = Some s"
proof -
  have "list_of 1 32 (validate_disk c) (JList (map dump_disk (disks s))) = Some (disks s)"
    using assms by (intro list_of_inverse) (auto simp: wf_sample_def list_all_iff validate_dump_disk)
  moreover have "list_of 0 20 (validate_process c) (JList (map dump_process (top_processes s))) =
      Some (top_processes s)"
    using assms by (intro list_of_inverse) (auto simp: wf_sample_def list_all_iff validate_dump_process)
  moreover have "observed_at_must_be_timezone_aware (observed_at s) = Some (observed_at s)"
    using assms(2) by (simp add: observed_at_must_be_timezone_aware_def wf_sample_def is_aware_def)
  ultimately show ?thesis
    using assms by (simp add: validate_sample_def dump_sample_def wf_sample_def field_def codec_okD
        validate_dump_memory validate_dump_network)
qed

lemma validate_dump_batch:
  assumes "codec_ok c" and "wf_batch b"
  shows "validate_batch c (dump_batch c b) = Some b"
proof -
  have "list_of 1 100 (validate_sample c) (JList (map (dump_sample c) (samples b))) = Some (samples b)"
    using assms by (intro list_of_inverse) (auto simp: wf_batch_def list_all_iff validate_dump_sample)
  then show ?thesis
    using assms by (simp add: validate_batch_def dump_batch_def wf_batch_def field_def codec_okD
        schema_version_of_def)
qed

section \<open>The JSON text layer\<close>

text \<open>
  A percentage is finite; a load average or a process's CPU share may be infinite as far as the
  field constraints go, and then has no JSON text. \<open>finite_batch\<close> says that none is.
\<close>

definition is_finite :: "pyfloat \<Rightarrow> bool" where
  "is_finite x \<longleftrightarrow> (case x of Fin r \<Rightarrow> True | _ \<Rightarrow> False)"

definition finite_sample :: "TelemetrySample \<Rightarrow> bool" where
  "finite_sample s \<longleftrightarrow> is_finite (load_1m s) \<and> is_finite (load_5m s) \<and> is_finite (load_15m s) \<and>
     list_all (\<lambda>p. is_finite (proc_cpu_percent p)) (top_processes s)"

definition finite_batch :: "TelemetryBatch \<Rightarrow> bool" where
  "finite_batch b \<longleftrightarrow> list_all finite_sample (samples b)"

lemma percentage_finite [simp]: "percentage x \<Longrightarrow> is_finite x"
  by (cases x) (auto simp: percentage_def fle_def is_finite_def)

lemma finite_json_JFloat [simp]: "finite_json (JFloat f) = is_finite f"
  by (cases f) (simp_all add: is_finite_def)

lemma finite_items_map: "finite_items (map g xs) \<longleftrightarrow> (\<forall>x \<in> set xs. finite_json (g x))"
  by (induction xs) auto

lemma finite_dump_disk: "wf_disk d \<Longrightarrow> finite_json (dump_disk d)"
  by (simp add: dump_disk_def wf_disk_def del: finite_json.simps(1))

lemma finite_dump_memory: "wf_memory d \<Longrightarrow> finite_json (dump_memory d)"
  by (simp add: dump_memory_def wf_memory_def del: finite_json.simps(1))

lemma finite_dump_process:
  "wf_process p \<Longrightarrow> is_finite (proc_cpu_percent p) \<Longrightarrow> finite_json (dump_process p)"
  by (simp add: dump_process_def wf_process_def del: finite_json.simps(1))

lemma finite_dump_sample:
  assumes "wf_sample s" and "finite_sample s"
  shows "finite_json (dump_sample c s)"
proof -
  have "finite_items (map dump_disk (disks s))"
    using assms(1) by (auto simp: finite_items_map wf_sample_def list_all_iff finite_dump_disk)
  moreover have "finite_items (map dump_process (top_processes s))"
    using assms by (auto simp: finite_items_map wf_sample_def finite_sample_def list_all_iff finite_dump_process)
  ultimately show ?thesis
    using assms by (simp add: dump_sample_def wf_sample_def finite_sample_def finite_dump_memory
        dump_network_def del: finite_json.simps(1))
qed

lemma finite_dump_batch: "wf_batch b \<Longrightarrow> finite_batch b \<Longrightarrow> finite_json (dump_batch c b)"
  by (auto simp: dump_batch_def wf_batch_def finite_batch_def finite_items_map list_all_iff finite_dump_sample)

lemma model_json_roundtrip:
  "codec_ok c \<Longrightarrow> wf_batch b \<Longrightarrow> finite_batch b \<Longrightarrow> model_validate_json c (model_dump_json c b) = Inr b"
  by (simp add: model_validate_json_def model_dump_json_def codec_okD finite_dump_batch validate_dump_batch)

lemma model_validate_json_wf: "model_validate_json c s = Inr b \<Longrightarrow> wf_batch b"
  by (auto simp: model_validate_json_def res_of_eq_Inr bind_Some dest: validate_batch_wf)

lemma new_batch_wf:
  "list_all wf_sample ss \<Longrightarrow> new_batch bid aid host ss = Inr b \<Longrightarrow> wf_batch b"
  by (auto simp: new_batch_def wf_batch_def split: if_splits)

end
