(* ===== verification/Examples.thy ===== *)
theory Examples
  imports Telemetry
begin

text \<open>
  A concrete codec and concrete telemetry, used by the witnesses of the component theories. The
  codec writes a value as the standard JSON text of an encoding without floats, and reads it back;
  \<open>example_codec_ok\<close> shows that the hypotheses on a codec can be met.
\<close>

section \<open>A concrete codec\<close>

definition enc_float :: "pyfloat \<Rightarrow> jval" where
  "enc_float f = (case f of
     Fin r \<Rightarrow> JList [JInt (fst (quotient_of r)), JInt (snd (quotient_of r))]
   | PosInf \<Rightarrow> JBool True | NegInf \<Rightarrow> JBool False | NaN \<Rightarrow> JNull)"

definition dec_float :: "jval \<Rightarrow> pyfloat" where
  "dec_float v = (case v of
     JList [JInt a, JInt b] \<Rightarrow> Fin (of_int a / of_int b)
   | JBool b \<Rightarrow> if b then PosInf else NegInf
   | _ \<Rightarrow> NaN)"

definition pair_value :: "string \<times> jval \<Rightarrow> jval" where
  "pair_value p = JList [JStr (fst p), snd p]"

definition value_pair :: "jval \<Rightarrow> string \<times> jval" where
  "value_pair v = (case v of JList [JStr k, x] \<Rightarrow> (k, x) | _ \<Rightarrow> ([], JNull))"

primrec enc :: "jval \<Rightarrow> jval" where
  "enc JNull = JNull"
| "enc (JBool b) = JBool b"
| "enc (JInt i) = JInt i"
| "enc (JStr s) = JStr s"
| "enc (JFloat f) = JObj [(''f'', enc_float f)]"
| "enc (JList xs) = JList (map enc xs)"
| "enc (JObj m) = JObj [(''o'', JList (map pair_value (map (map_prod id enc) m)))]"

definition dec_obj :: "(string \<times> jval) list \<Rightarrow> jval" where
  "dec_obj m = (case m of
     [(t, v)] \<Rightarrow> if t = ''f'' then JFloat (dec_float v)
                 else (case v of JList ps \<Rightarrow> JObj (map value_pair ps) | _ \<Rightarrow> JNull)
   | _ \<Rightarrow> JNull)"

primrec dec :: "jval \<Rightarrow> jval" where
  "dec JNull = JNull"
| "dec (JBool b) = JBool b"
| "dec (JInt i) = JInt i"
| "dec (JStr s) = JStr s"
| "dec (JFloat f) = JFloat f"
| "dec (JList xs) = JList (map dec xs)"
| "dec (JObj m) = dec_obj (map (map_prod id dec) m)"

lemma dec_enc_float: "dec_float (dec (enc_float f)) = f"
proof (cases f)
  case (Fin r)
  have "of_int (fst (quotient_of r)) / of_int (snd (quotient_of r)) = r"
    by (metis prod.collapse quotient_of_div)
  with Fin show ?thesis by (simp add: enc_float_def dec_float_def)
qed (simp_all add: enc_float_def dec_float_def)

lemma dec_enc: "dec (enc v) = v"
proof (induction v)
  case (JFloat f)
  then show ?case by (simp add: dec_obj_def dec_enc_float)
next
  case (JList xs)
  then show ?case by (simp add: map_idI)
next
  case (JObj m)
  have "map value_pair (map dec (map pair_value (map (map_prod id enc) m))) = m"
    unfolding map_map using JObj by (intro map_idI) (auto simp: pair_value_def value_pair_def)
  then show ?case by (simp add: dec_obj_def)
qed simp_all

lemma plain_items_all: "plain_items xs \<longleftrightarrow> (\<forall>x \<in> set xs. plain x)"
  by (induction xs) auto

lemma plain_enc: "plain (enc v)"
proof (induction v)
  case (JFloat f)
  then show ?case by (cases f) (simp_all add: enc_float_def)
next
  case (JObj m)
  then show ?case by (auto simp: plain_items_all pair_value_def)
qed (simp_all add: plain_items_all)

definition show_dt :: "datetime \<Rightarrow> string" where
  "show_dt d = dumps (\<lambda>_. []) compact
     (JList [JInt (wall_us d), (case utcoffset d of None \<Rightarrow> JNull | Some m \<Rightarrow> JInt m)])"

definition read_dt :: "string \<Rightarrow> datetime option" where
  "read_dt s = (case loads s of
     Some (JList [JInt w, JNull]) \<Rightarrow> Some \<lparr>wall_us = w, utcoffset = None\<rparr>
   | Some (JList [JInt w, JInt m]) \<Rightarrow> Some \<lparr>wall_us = w, utcoffset = Some m\<rparr>
   | _ \<Rightarrow> None)"

lemma compact_ok [simp]: "ok_sep compact"
  by (simp add: ok_sep_def)

lemma read_show_dt: "read_dt (show_dt d) = Some d"
  by (cases "utcoffset d") (simp_all add: read_dt_def show_dt_def loads_dumps del: dumps.simps)

definition example_codec :: codec where
  "example_codec =
     \<lparr>as_int = (\<lambda>v. case v of JInt i \<Rightarrow> Some i | _ \<Rightarrow> None),
      as_float = (\<lambda>v. case v of JFloat f \<Rightarrow> Some f | JInt i \<Rightarrow> Some (Fin (of_int i)) | _ \<Rightarrow> None),
      as_str = (\<lambda>v. case v of JStr s \<Rightarrow> Some s | _ \<Rightarrow> None),
      as_uuid = (\<lambda>v. case v of JStr s \<Rightarrow> uuid_of_str s | _ \<Rightarrow> None),
      as_datetime = (\<lambda>v. case v of JStr s \<Rightarrow> read_dt s | _ \<Rightarrow> None),
      show_datetime = show_dt,
      json_text = (\<lambda>v. dumps (\<lambda>_. []) compact (enc v)),
      json_value = (\<lambda>s. map_option dec (loads s))\<rparr>"

lemma example_codec_ok: "codec_ok example_codec"
  by (simp add: codec_ok_def example_codec_def read_show_dt loads_dumps plain_enc dec_enc)

section \<open>Concrete telemetry\<close>

definition example_sample :: "int \<Rightarrow> rat \<Rightarrow> rat \<Rightarrow> TelemetrySample" where
  "example_sample t cpu mem =
     \<lparr>observed_at = utc_at t, cpu_percent = Fin cpu, load_1m = Fin 1, load_5m = Fin 1,
      load_15m = Fin 1,
      memory = \<lparr>mem_total_bytes = 100, mem_available_bytes = 40, mem_used_bytes = 60,
                mem_used_percent = Fin mem\<rparr>,
      disks = [\<lparr>disk_mount = ''/'', disk_total_bytes = 100, disk_used_bytes = 50,
                disk_free_bytes = 50, disk_used_percent = Fin 50\<rparr>],
      network = \<lparr>bytes_sent = 1, bytes_received = 2, packets_sent = 3, packets_received = 4,
                 errors_in = 0, errors_out = 0, drops_in = 0, drops_out = 0, tcp_established = 1,
                 tcp_listening = 1, tcp_other = 0, udp_sockets = 1\<rparr>,
      process_count = 1, top_processes = []\<rparr>"

definition example_batch :: "uuid \<Rightarrow> int \<Rightarrow> rat \<Rightarrow> TelemetryBatch" where
  "example_batch u t cpu =
     \<lparr>schema_version = 1, batch_id = u, agent_id = ''test-agent'', hostname = ''test-host'',
      samples = [example_sample t cpu 60]\<rparr>"

lemmas wf_defs = wf_batch_def wf_sample_def wf_memory_def wf_disk_def wf_network_def wf_process_def
  percentage_def non_negative_float_def non_negative_int_def str_len_def

lemma wf_example_sample: "0 \<le> cpu \<Longrightarrow> cpu \<le> 100 \<Longrightarrow> 0 \<le> mem \<Longrightarrow> mem \<le> 100 \<Longrightarrow> wf_sample (example_sample t cpu mem)"
  by (simp add: example_sample_def wf_defs)

lemma wf_example_batch: "0 \<le> cpu \<Longrightarrow> cpu \<le> 100 \<Longrightarrow> wf_batch (example_batch u t cpu)"
  by (simp add: example_batch_def wf_batch_def wf_example_sample str_len_def agent_id_ok_def
      agent_id_char_def is_alnum_ascii_def)

lemma finite_example_batch: "finite_batch (example_batch u t cpu)"
  by (simp add: example_batch_def example_sample_def finite_batch_def finite_sample_def is_finite_def)

end
