(* ===== verification/Contract.thy ===== *)
theory Contract
  imports Examples
begin

text \<open>
  The properties of the telemetry contract: what is written is read back, and only well-formed
  batches are read. The lemmas they rest on are in \<open>Telemetry\<close>.
\<close>

text \<open>
  C23: A well-formed batch with finite readings survives the trip through its JSON text unchanged, so
  two such batches with the same text are the same batch.
\<close>

theorem batch_json_roundtrip:
  assumes "codec_ok c" and "wf_batch b" and "finite_batch b" and "wf_batch b'" and "finite_batch b'"
  shows "model_validate_json c (model_dump_json c b) = Inr b \<and>
    (model_dump_json c b = model_dump_json c b' \<longleftrightarrow> b = b')"
  using model_json_roundtrip[OF assms(1-3)] model_json_roundtrip[OF assms(1,4,5)]
  by (metis sum.inject(2))

theorem batch_json_roundtrip_witness:
  "model_validate_json example_codec (model_dump_json example_codec (example_batch 1 0 10)) =
     Inr (example_batch 1 0 10) \<and>
   model_dump_json example_codec (example_batch 1 0 10) \<noteq> model_dump_json example_codec (example_batch 2 0 10)"
  using batch_json_roundtrip[OF example_codec_ok wf_example_batch finite_example_batch
      wf_example_batch finite_example_batch, of 10 10 1 0 2 0]
  by (simp add: example_batch_def)



end
