(* ===== verification/Store.thy ===== *)
theory Store
  imports Examples
begin

text \<open>
  The PostgreSQL tables of \<open>src/fleetpulse/api/models.py\<close> as one record per table row, their
  keys, column widths and foreign keys, and the transaction block \<open>async with session.begin()\<close>:
  an exception in its body rolls every change back.

  What the database server itself decides enters as arguments: the transaction time
  (\<open>func.now()\<close>), whether a statement raises, and how the commit ends. The order of the keys inside
  a JSONB object is not modelled; the readers only look keys up.
\<close>

section \<open>Tables\<close>

record AgentRecord =
  ag_agent_id :: string
  ag_hostname :: string
  ag_first_seen_at :: datetime
  ag_last_seen_at :: datetime

record TelemetryBatchRecord =
  tb_batch_id :: uuid
  tb_agent_id :: string
  tb_schema_version :: int
  tb_received_at :: datetime
  tb_observed_start :: datetime
  tb_observed_end :: datetime
  tb_sample_count :: int
  tb_payload :: jval

record OutboxEventRecord =
  ob_event_id :: uuid
  ob_aggregate_type :: string
  ob_aggregate_id :: string
  ob_event_type :: string
  ob_payload :: "(string \<times> jval) list"
  ob_created_at :: datetime
  ob_published_at :: "datetime option"
  ob_publication_attempts :: int

record FleetStateRecord =
  fs_agent_id :: string
  fs_last_batch_id :: uuid
  fs_observed_at :: datetime
  fs_cpu_percent :: pyfloat
  fs_memory_percent :: pyfloat
  fs_disk_percent :: pyfloat
  fs_updated_at :: datetime

record IncidentRecord =
  in_incident_id :: uuid
  in_agent_id :: string
  in_incident_type :: string
  in_deduplication_key :: string
  in_status :: string
  in_severity :: string
  in_summary :: string
  in_evidence :: jval
  in_opened_at :: datetime
  in_updated_at :: datetime

record DeploymentRecord =
  dp_deployment_id :: uuid
  dp_service :: string
  dp_version :: string
  dp_status :: string
  dp_requested_by :: string
  dp_created_at :: datetime
  dp_updated_at :: datetime

record ProcessedEventRecord =
  pe_event_id :: uuid
  pe_stream_message_id :: string
  pe_consumer_name :: string
  pe_processed_at :: datetime

record DeadLetterRecord =
  dl_stream_message_id :: string
  dl_event_id :: string
  dl_error_type :: string
  dl_attempts :: int
  dl_payload :: jval
  dl_created_at :: datetime

record database =
  agents :: "AgentRecord list"
  telemetry_batches :: "TelemetryBatchRecord list"
  outbox_events :: "OutboxEventRecord list"
  fleet_state :: "FleetStateRecord list"
  incidents :: "IncidentRecord list"
  deployments :: "DeploymentRecord list"
  processed_events :: "ProcessedEventRecord list"
  dead_letters :: "DeadLetterRecord list"

definition empty_database :: database where
  "empty_database = \<lparr>agents = [], telemetry_batches = [], outbox_events = [], fleet_state = [],
     incidents = [], deployments = [], processed_events = [], dead_letters = []\<rparr>"

text \<open>The unique key of an incident, \<open>uq_incident_open_deduplication\<close>.\<close>

definition incident_key :: "IncidentRecord \<Rightarrow> string \<times> string" where
  "incident_key r = (in_deduplication_key r, in_status r)"

section \<open>Column checks\<close>

text \<open>\<open>String(n)\<close> refuses a longer value, \<open>Integer\<close> a value outside 32 bits, \<open>JSONB\<close> a
  number that JSON does not have.\<close>

definition varchar :: "nat \<Rightarrow> string \<Rightarrow> bool" where
  "varchar n s \<longleftrightarrow> length s \<le> n"

definition integer_column :: "int \<Rightarrow> bool" where
  "integer_column i \<longleftrightarrow> - (2 ^ 31) \<le> i \<and> i < 2 ^ 31"

definition fits_agent :: "AgentRecord \<Rightarrow> bool" where
  "fits_agent r \<longleftrightarrow> varchar 128 (ag_agent_id r) \<and> varchar 255 (ag_hostname r)"

definition fits_batch :: "TelemetryBatchRecord \<Rightarrow> bool" where
  "fits_batch r \<longleftrightarrow> varchar 128 (tb_agent_id r) \<and> integer_column (tb_schema_version r) \<and>
     integer_column (tb_sample_count r) \<and> finite_json (tb_payload r)"

definition fits_outbox :: "OutboxEventRecord \<Rightarrow> bool" where
  "fits_outbox r \<longleftrightarrow> varchar 64 (ob_aggregate_type r) \<and> varchar 128 (ob_aggregate_id r) \<and>
     varchar 128 (ob_event_type r) \<and> finite_json (JObj (ob_payload r)) \<and>
     integer_column (ob_publication_attempts r)"

definition fits_fleet_state :: "FleetStateRecord \<Rightarrow> bool" where
  "fits_fleet_state r \<longleftrightarrow> varchar 128 (fs_agent_id r)"

definition fits_incident :: "IncidentRecord \<Rightarrow> bool" where
  "fits_incident r \<longleftrightarrow> varchar 128 (in_agent_id r) \<and> varchar 64 (in_incident_type r) \<and>
     varchar 256 (in_deduplication_key r) \<and> varchar 32 (in_status r) \<and> varchar 16 (in_severity r) \<and>
     finite_json (in_evidence r)"

definition fits_deployment :: "DeploymentRecord \<Rightarrow> bool" where
  "fits_deployment r \<longleftrightarrow> varchar 128 (dp_service r) \<and> varchar 128 (dp_version r) \<and>
     varchar 32 (dp_status r) \<and> varchar 128 (dp_requested_by r)"

definition fits_processed :: "ProcessedEventRecord \<Rightarrow> bool" where
  "fits_processed r \<longleftrightarrow> varchar 64 (pe_stream_message_id r) \<and> varchar 128 (pe_consumer_name r)"

definition fits_dead_letter :: "DeadLetterRecord \<Rightarrow> bool" where
  "fits_dead_letter r \<longleftrightarrow> varchar 64 (dl_stream_message_id r) \<and> varchar 128 (dl_event_id r) \<and>
     varchar 128 (dl_error_type r) \<and> integer_column (dl_attempts r) \<and> finite_json (dl_payload r)"

section \<open>Transactions\<close>

text \<open>
  A commit that raises may have been refused (\<open>CommitRefused\<close>) or applied with its
  acknowledgement lost (\<open>CommitUnknown\<close>).
\<close>

datatype commit_outcome = Committed | CommitRefused py_error | CommitUnknown py_error

record db_env =
  stmt_fault :: "nat \<Rightarrow> py_error option"
  commit_end :: commit_outcome
  txn_now :: datetime

type_synonym 'a stmt = "database \<Rightarrow> ('a \<times> database) res"

definition execute :: "db_env \<Rightarrow> nat \<Rightarrow> 'a stmt \<Rightarrow> 'a stmt" where
  "execute env k act db = (case stmt_fault env k of Some e \<Rightarrow> Inl e | None \<Rightarrow> act db)"

definition session_begin :: "db_env \<Rightarrow> 'a stmt \<Rightarrow> database \<Rightarrow> 'a res \<times> database" where
  "session_begin env body db =
     (case body db of
        Inl e \<Rightarrow> (Inl e, db)
      | Inr (x, db') \<Rightarrow>
          (case commit_end env of
             Committed \<Rightarrow> (Inr x, db')
           | CommitRefused e \<Rightarrow> (Inl e, db)
           | CommitUnknown e \<Rightarrow> (Inl e, db')))"

definition no_faults :: "datetime \<Rightarrow> db_env" where
  "no_faults t = \<lparr>stmt_fault = (\<lambda>k. None), commit_end = Committed, txn_now = t\<rparr>"

section \<open>Statements\<close>

text \<open>
  Each statement checks the columns of the row it writes, its foreign key, and its unique keys;
  \<open>ON CONFLICT\<close> covers the key it names and no other.
\<close>

definition upsert_agent :: "AgentRecord \<Rightarrow> (AgentRecord \<Rightarrow> AgentRecord) \<Rightarrow> unit stmt" where
  "upsert_agent r f db =
     (if fits_agent r then Inr ((), db\<lparr>agents := row_upsert ag_agent_id r f (agents db)\<rparr>)
      else Inl DataError)"

definition insert_batch :: "TelemetryBatchRecord \<Rightarrow> bool stmt" where
  "insert_batch r db =
     (if \<not> fits_batch r then Inl DataError
      else let (rows, new) = row_insert_ignore tb_batch_id r (telemetry_batches db)
           in if new \<and> tb_agent_id r \<notin> ag_agent_id ` set (agents db) then Inl IntegrityError
              else Inr (new, db\<lparr>telemetry_batches := rows\<rparr>))"

definition insert_outbox :: "OutboxEventRecord \<Rightarrow> unit stmt" where
  "insert_outbox r db =
     (if \<not> fits_outbox r then Inl DataError
      else if ob_event_id r \<in> ob_event_id ` set (outbox_events db) then Inl IntegrityError
      else Inr ((), db\<lparr>outbox_events := outbox_events db @ [r]\<rparr>))"

definition upsert_fleet_state :: "FleetStateRecord \<Rightarrow> (FleetStateRecord \<Rightarrow> FleetStateRecord) \<Rightarrow> unit stmt" where
  "upsert_fleet_state r f db =
     (if \<not> fits_fleet_state r then Inl DataError
      else if fs_agent_id r \<notin> ag_agent_id ` set (agents db) then Inl IntegrityError
      else Inr ((), db\<lparr>fleet_state := row_upsert fs_agent_id r f (fleet_state db)\<rparr>))"

definition insert_incident :: "IncidentRecord \<Rightarrow> bool stmt" where
  "insert_incident r db =
     (if \<not> fits_incident r then Inl DataError
      else let (rows, new) = row_insert_ignore incident_key r (incidents db)
           in if new \<and> (in_incident_id r \<in> in_incident_id ` set (incidents db) \<or>
                        in_agent_id r \<notin> ag_agent_id ` set (agents db)) then Inl IntegrityError
              else Inr (new, db\<lparr>incidents := rows\<rparr>))"

definition insert_deployment :: "DeploymentRecord \<Rightarrow> unit stmt" where
  "insert_deployment r db =
     (if \<not> fits_deployment r then Inl DataError
      else if dp_deployment_id r \<in> dp_deployment_id ` set (deployments db) then Inl IntegrityError
      else Inr ((), db\<lparr>deployments := deployments db @ [r]\<rparr>))"

definition insert_processed :: "ProcessedEventRecord \<Rightarrow> bool stmt" where
  "insert_processed r db =
     (if \<not> fits_processed r then Inl DataError
      else let (rows, new) = row_insert_ignore pe_event_id r (processed_events db)
           in Inr (new, db\<lparr>processed_events := rows\<rparr>))"

definition insert_dead_letter :: "DeadLetterRecord \<Rightarrow> unit stmt" where
  "insert_dead_letter r db =
     (if \<not> fits_dead_letter r then Inl DataError
      else Inr ((), db\<lparr>dead_letters := fst (row_insert_ignore dl_stream_message_id r (dead_letters db))\<rparr>))"

section \<open>The schema invariant\<close>

definition schema_ok :: "database \<Rightarrow> bool" where
  "schema_ok db \<longleftrightarrow>
     keyed ag_agent_id (agents db) \<and> keyed tb_batch_id (telemetry_batches db) \<and>
     keyed ob_event_id (outbox_events db) \<and> keyed fs_agent_id (fleet_state db) \<and>
     keyed in_incident_id (incidents db) \<and> keyed incident_key (incidents db) \<and>
     keyed dp_deployment_id (deployments db) \<and> keyed pe_event_id (processed_events db) \<and>
     keyed dl_stream_message_id (dead_letters db) \<and>
     tb_agent_id ` set (telemetry_batches db) \<subseteq> ag_agent_id ` set (agents db) \<and>
     fs_agent_id ` set (fleet_state db) \<subseteq> ag_agent_id ` set (agents db) \<and>
     in_agent_id ` set (incidents db) \<subseteq> ag_agent_id ` set (agents db)"

definition stmt_keeps :: "(database \<Rightarrow> bool) \<Rightarrow> 'a stmt \<Rightarrow> bool" where
  "stmt_keeps P act \<longleftrightarrow> (\<forall>db x db'. P db \<longrightarrow> act db = Inr (x, db') \<longrightarrow> P db')"

lemma schema_ok_empty [simp]: "schema_ok empty_database"
  by (simp add: schema_ok_def empty_database_def)

lemma upsert_agent_schema:
  assumes "\<And>x. ag_agent_id (f x) = ag_agent_id x"
  shows "stmt_keeps schema_ok (upsert_agent r f)"
proof -
  have "ag_agent_id ` set (row_upsert ag_agent_id r f rs) = insert (ag_agent_id r) (ag_agent_id ` set rs)"
    and "keyed ag_agent_id rs \<Longrightarrow> keyed ag_agent_id (row_upsert ag_agent_id r f rs)" for rs
    using assms by (simp_all add: row_upsert_keys keyed_row_upsert)
  then show ?thesis
    by (auto simp: stmt_keeps_def schema_ok_def upsert_agent_def split: if_splits)
qed

lemma insert_batch_schema: "stmt_keeps schema_ok (insert_batch r)"
  by (auto simp: stmt_keeps_def schema_ok_def insert_batch_def row_insert_ignore_def split: if_splits)

lemma insert_outbox_schema: "stmt_keeps schema_ok (insert_outbox r)"
  by (auto simp: stmt_keeps_def schema_ok_def insert_outbox_def split: if_splits)

lemma upsert_fleet_state_schema:
  assumes "\<And>x. fs_agent_id (f x) = fs_agent_id x"
  shows "stmt_keeps schema_ok (upsert_fleet_state r f)"
proof -
  have "fs_agent_id ` set (row_upsert fs_agent_id r f rs) = insert (fs_agent_id r) (fs_agent_id ` set rs)"
    and "keyed fs_agent_id rs \<Longrightarrow> keyed fs_agent_id (row_upsert fs_agent_id r f rs)" for rs
    using assms by (simp_all add: row_upsert_keys keyed_row_upsert)
  then show ?thesis
    by (auto simp: stmt_keeps_def schema_ok_def upsert_fleet_state_def split: if_splits)
qed

lemma insert_incident_schema: "stmt_keeps schema_ok (insert_incident r)"
  by (auto simp: stmt_keeps_def schema_ok_def insert_incident_def row_insert_ignore_def split: if_splits)

lemma insert_deployment_schema: "stmt_keeps schema_ok (insert_deployment r)"
  by (auto simp: stmt_keeps_def schema_ok_def insert_deployment_def split: if_splits)

lemma insert_processed_schema: "stmt_keeps schema_ok (insert_processed r)"
  by (auto simp: stmt_keeps_def schema_ok_def insert_processed_def row_insert_ignore_def split: if_splits)

lemma insert_dead_letter_schema: "stmt_keeps schema_ok (insert_dead_letter r)"
  by (auto simp: stmt_keeps_def schema_ok_def insert_dead_letter_def row_insert_ignore_def split: if_splits)

lemma execute_keeps: "stmt_keeps P act \<Longrightarrow> stmt_keeps P (execute env k act)"
  by (auto simp: stmt_keeps_def execute_def split: option.splits)

lemma stmt_keeps_bind:
  assumes "stmt_keeps P act" and "\<And>x. stmt_keeps P (f x)"
  shows "stmt_keeps P (\<lambda>db. res_bind (act db) (\<lambda>(x, db'). f x db'))"
proof -
  have "P db2" if p: "P db" and r: "res_bind (act db) (\<lambda>(x, db'). f x db') = Inr (y, db2)" for db y db2
  proof -
    obtain x db1 where "act db = Inr (x, db1)" and "f x db1 = Inr (y, db2)"
      using r by (auto simp: res_bind_eq_Inr)
    with assms p show ?thesis unfolding stmt_keeps_def by blast
  qed
  then show ?thesis unfolding stmt_keeps_def by blast
qed

lemma stmt_keeps_return: "stmt_keeps P (\<lambda>db. Inr (x, db))" "stmt_keeps P (\<lambda>db. Inl e)"
  by (simp_all add: stmt_keeps_def)

lemma session_begin_keeps:
  "stmt_keeps P body \<Longrightarrow> P db \<Longrightarrow> P (snd (session_begin env body db))"
  by (auto simp: stmt_keeps_def session_begin_def split: sum.splits commit_outcome.splits)

text \<open>A transaction either applies its whole body or nothing.\<close>

lemma session_begin_atomic:
  "snd (session_begin env body db) = db \<or> (\<exists>x. body db = Inr (x, snd (session_begin env body db)))"
  by (auto simp: session_begin_def split: sum.splits commit_outcome.splits)

lemma session_begin_Inr:
  "session_begin env body db = (Inr x, db') \<longleftrightarrow> body db = Inr (x, db') \<and> commit_end env = Committed"
  by (auto simp: session_begin_def split: sum.splits commit_outcome.splits)

section \<open>At-least-once delivery, at-most-once effect\<close>

text \<open>
  The interface of a handler that may receive the same unit again: what it has taken in
  (\<open>seen\<close>), and the part of the state it answers for (\<open>obs\<close>). A unit already taken in changes
  nothing of that part, and what a new one does depends on that part only. The client lemma: repeated
  deliveries can be struck out of any run.
\<close>

locale idempotent_receiver =
  fixes receive :: "'e \<Rightarrow> 's \<Rightarrow> 's"
    and ident :: "'e \<Rightarrow> 'k"
    and seen :: "'o \<Rightarrow> 'k set"
    and obs :: "'s \<Rightarrow> 'o"
    and valid :: "'e \<Rightarrow> bool"
    and invar :: "'s \<Rightarrow> bool"
  assumes receive_invar: "invar s \<Longrightarrow> valid e \<Longrightarrow> invar (receive e s)"
    and repeated: "invar s \<Longrightarrow> valid e \<Longrightarrow> ident e \<in> seen (obs s) \<Longrightarrow> obs (receive e s) = obs s"
    and taken_in: "invar s \<Longrightarrow> valid e \<Longrightarrow>
      seen (obs (receive e s)) \<in> {seen (obs s), insert (ident e) (seen (obs s))}"
    and congruent: "invar s \<Longrightarrow> invar s' \<Longrightarrow> valid e \<Longrightarrow> obs s = obs s' \<Longrightarrow>
      obs (receive e s) = obs (receive e s')"
begin

primrec deliver_all :: "'e list \<Rightarrow> 's \<Rightarrow> 's" where
  "deliver_all [] s = s"
| "deliver_all (e # es) s = deliver_all es (receive e s)"

text \<open>The deliveries that were not repetitions when they arrived.\<close>

primrec first_deliveries :: "'e list \<Rightarrow> 's \<Rightarrow> 'e list" where
  "first_deliveries [] s = []"
| "first_deliveries (e # es) s =
     (if ident e \<in> seen (obs s) then first_deliveries es (receive e s)
      else e # first_deliveries es (receive e s))"

lemma deliver_all_invar: "invar s \<Longrightarrow> list_all valid es \<Longrightarrow> invar (deliver_all es s)"
  by (induction es arbitrary: s) (simp_all add: receive_invar)

lemma deliver_all_cong:
  "invar s \<Longrightarrow> invar s' \<Longrightarrow> list_all valid es \<Longrightarrow> obs s = obs s' \<Longrightarrow>
   obs (deliver_all es s) = obs (deliver_all es s')"
proof (induction es arbitrary: s s')
  case (Cons e es)
  then show ?case
    using congruent[of s s' e] Cons.IH[of "receive e s" "receive e s'"] by (simp add: receive_invar)
qed simp

lemma first_deliveries_valid: "list_all valid es \<Longrightarrow> list_all valid (first_deliveries es s)"
  by (induction es arbitrary: s) simp_all

theorem repetitions_do_nothing:
  "invar s \<Longrightarrow> list_all valid es \<Longrightarrow>
   obs (deliver_all es s) = obs (deliver_all (first_deliveries es s) s)"
proof (induction es arbitrary: s)
  case (Cons e es)
  let ?fs = "first_deliveries es (receive e s)"
  have inv: "invar (receive e s)" and v: "list_all valid ?fs"
    using Cons.prems receive_invar by (simp_all add: first_deliveries_valid)
  have IH: "obs (deliver_all es (receive e s)) = obs (deliver_all ?fs (receive e s))"
    using Cons.IH[OF inv] Cons.prems by simp
  show ?case
  proof (cases "ident e \<in> seen (obs s)")
    case True
    then have "obs (receive e s) = obs s" using repeated Cons.prems by simp
    then have "obs (deliver_all ?fs (receive e s)) = obs (deliver_all ?fs s)"
      using deliver_all_cong[OF inv _ v] Cons.prems by simp
    with True IH show ?thesis by simp
  next
    case False
    with IH show ?thesis by simp
  qed
qed simp

lemma seen_grows:
  "invar s \<Longrightarrow> list_all valid es \<Longrightarrow> seen (obs s) \<subseteq> seen (obs (deliver_all es s)) \<and>
   seen (obs (deliver_all es s)) \<subseteq> seen (obs s) \<union> ident ` set es"
proof (induction es arbitrary: s)
  case (Cons e es)
  then show ?case using taken_in[of s e] receive_invar[of s e] by fastforce
qed simp

end

end
