(* ===== verification/Api.thy ===== *)
theory Api
  imports Store
begin

text \<open>
  The ingestion and fleet-read API: authentication (\<open>api/security.py\<close>), request correlation
  (\<open>api/middleware.py\<close>), settings (\<open>api/config.py\<close>) and the route handlers
  (\<open>api/routes.py\<close>). A handler takes the database and, where it uses it, the Redis cache, and
  returns them with its result; Prometheus counters are the list of increments it makes.
\<close>

section \<open>Settings and authentication\<close>

record ApiSettings =
  api_agent_token :: string
  cache_enabled :: bool
  cache_ttl_seconds :: int

text \<open>\<open>secrets.compare_digest\<close> on two strings raises unless both are ASCII.\<close>

definition compare_digest :: "string \<Rightarrow> string \<Rightarrow> bool res" where
  "compare_digest a b = (if is_ascii a \<and> is_ascii b then Inr (a = b) else Inl TypeError)"

definition unauthorized :: py_error where
  "unauthorized = HTTPException 401 ''invalid agent credential''"

definition require_agent_token :: "ApiSettings \<Rightarrow> string option \<Rightarrow> unit res" where
  "require_agent_token cfg header =
     (let expected = api_agent_token cfg;
          authorization = (case header of None \<Rightarrow> [] | Some h \<Rightarrow> h);
          (scheme, _, supplied) = partition_at (CHR '' '') authorization
      in if lower scheme \<noteq> ''bearer'' then Inl unauthorized
         else res_bind (compare_digest supplied expected)
           (\<lambda>same. if same then Inr () else Inl unauthorized))"

section \<open>Correlation (api/middleware.py)\<close>

definition request_id_of :: "string option \<Rightarrow> uuid \<Rightarrow> string" where
  "request_id_of header fresh =
     (let given = take 128 (case header of None \<Rightarrow> [] | Some h \<Rightarrow> h)
      in if given = [] then uuid_str fresh else given)"

record 'a http_reply =
  reply_status :: int
  reply_headers :: "(string \<times> string) list"
  reply_body :: 'a

text \<open>
  The context variable \<open>correlation_id\<close> is set for the inner handler and reset in
  \<open>finally\<close>; the handler gets it as an argument and the value after the request is returned.
\<close>

definition correlation_middleware ::
  "string option \<Rightarrow> uuid \<Rightarrow> string \<Rightarrow> (string \<Rightarrow> 's \<Rightarrow> 'a http_reply res \<times> 's) \<Rightarrow> string \<Rightarrow> 's \<Rightarrow>
   ('a http_reply res \<times> 's) \<times> string" where
  "correlation_middleware header fresh gethostname call_next outer s =
     (let request_id = request_id_of header fresh;
          (r, s') = call_next request_id s
      in ((res_bind r (\<lambda>reply. Inr (reply\<lparr>reply_headers :=
             AList.update ''X-FleetPulse-Instance'' gethostname
               (AList.update ''X-Request-ID'' request_id (reply_headers reply))\<rparr>)), s'), outer))"

text \<open>How an exception of a handler reaches the client.\<close>

definition status_of_error :: "py_error \<Rightarrow> int" where
  "status_of_error e = (case e of HTTPException s d \<Rightarrow> s | ValidationError \<Rightarrow> 422 | _ \<Rightarrow> 500)"

section \<open>Ingestion (api/routes.py)\<close>

definition earlier :: "datetime \<Rightarrow> datetime \<Rightarrow> bool" where
  "earlier a b \<longleftrightarrow> instant a < instant b"

definition batch_row :: "codec \<Rightarrow> datetime \<Rightarrow> TelemetryBatch \<Rightarrow> datetime \<Rightarrow> datetime \<Rightarrow> TelemetryBatchRecord" where
  "batch_row c received b lo hi =
     \<lparr>tb_batch_id = batch_id b, tb_agent_id = agent_id b, tb_schema_version = schema_version b,
      tb_received_at = received, tb_observed_start = lo, tb_observed_end = hi,
      tb_sample_count = int (length (samples b)), tb_payload = dump_batch c b\<rparr>"

definition accepted_event :: "uuid \<Rightarrow> datetime \<Rightarrow> string \<Rightarrow> TelemetryBatch \<Rightarrow> OutboxEventRecord" where
  "accepted_event eid created cid b =
     \<lparr>ob_event_id = eid, ob_aggregate_type = ''telemetry_batch'',
      ob_aggregate_id = uuid_str (batch_id b), ob_event_type = ''telemetry.batch.accepted.v1'',
      ob_payload = [(''batch_id'', JStr (uuid_str (batch_id b))), (''agent_id'', JStr (agent_id b)),
                    (''correlation_id'', JStr cid)],
      ob_created_at = created, ob_published_at = None, ob_publication_attempts = 0\<rparr>"

text \<open>What one ingestion reads from outside: clock, event id, database behaviour, correlation id.\<close>

record ingest_env =
  ing_db :: db_env
  ing_now :: datetime
  ing_event_id :: uuid
  ing_correlation_id :: string

text \<open>The body of the transaction; its result says whether the batch was inserted.\<close>

definition ingest_body :: "codec \<Rightarrow> ingest_env \<Rightarrow> TelemetryBatch \<Rightarrow> bool stmt" where
  "ingest_body c env b db =
     (let observed_times = map observed_at (samples b); dbe = ing_db env
      in res_bind (execute dbe 0 (upsert_agent
           \<lparr>ag_agent_id = agent_id b, ag_hostname = hostname b, ag_first_seen_at = ing_now env,
            ag_last_seen_at = ing_now env\<rparr>
           (\<lambda>r. r\<lparr>ag_hostname := hostname b, ag_last_seen_at := ing_now env\<rparr>)) db) (\<lambda>(_, db1).
         case (first_min earlier observed_times, first_max earlier observed_times) of
           (Some lo, Some hi) \<Rightarrow>
             res_bind (execute dbe 1 (insert_batch (batch_row c (txn_now dbe) b lo hi)) db1) (\<lambda>(inserted, db2).
               if inserted
               then res_bind (execute dbe 2 (insert_outbox
                      (accepted_event (ing_event_id env) (txn_now dbe) (ing_correlation_id env) b)) db2)
                      (\<lambda>(_, db3). Inr (True, db3))
               else Inr (False, db2))
         | _ \<Rightarrow> Inl (ValueError ''min() arg is an empty sequence'')))"

type_synonym counters = "(string \<times> string) list"

definition ingest_batch ::
  "codec \<Rightarrow> ingest_env \<Rightarrow> TelemetryBatch \<Rightarrow> database \<Rightarrow> IngestionResponse res \<times> database \<times> counters" where
  "ingest_batch c env b db =
     (case session_begin (ing_db env) (ingest_body c env b) db of
        (Inl e, db') \<Rightarrow> (Inl e, db', [])
      | (Inr inserted, db') \<Rightarrow>
          (let outcome = (if inserted then Accepted else Duplicate)
           in (Inr \<lparr>resp_batch_id = batch_id b, resp_status = outcome,
                   resp_request_id = ing_correlation_id env\<rparr>,
               db', [(''ingestion'', if inserted then ''accepted'' else ''duplicate'')])))"

text \<open>The route: the credential is checked first, then the body, then the handler runs.\<close>

definition ingest_route ::
  "codec \<Rightarrow> ApiSettings \<Rightarrow> string option \<Rightarrow> jval \<Rightarrow> ingest_env \<Rightarrow> database \<Rightarrow>
   IngestionResponse res \<times> database \<times> counters" where
  "ingest_route c cfg header body env db =
     (case res_bind (require_agent_token cfg header)
             (\<lambda>_. res_of ValidationError (validate_batch c body)) of
        Inl e \<Rightarrow> (Inl e, db, [])
      | Inr b \<Rightarrow> ingest_batch c env b db)"

section \<open>Fleet reads\<close>

record AgentSummary =
  sum_agent_id :: string
  sum_hostname :: string
  sum_first_seen_at :: datetime
  sum_last_seen_at :: datetime
  sum_batch_count :: int

text \<open>The outer join with its count per agent; \<open>collate\<close> is the database's string order.\<close>

definition list_agents :: "(string \<Rightarrow> string) \<Rightarrow> database \<Rightarrow> AgentSummary list" where
  "list_agents collate db =
     map (\<lambda>a. \<lparr>sum_agent_id = ag_agent_id a, sum_hostname = ag_hostname a,
               sum_first_seen_at = ag_first_seen_at a, sum_last_seen_at = ag_last_seen_at a,
               sum_batch_count =
                 int (length (filter (\<lambda>t. tb_agent_id t = ag_agent_id a) (telemetry_batches db)))\<rparr>)
       (sort_key (\<lambda>a. collate (ag_agent_id a)) (agents db))"

record FleetStateView =
  fv_agent_id :: string
  fv_last_batch_id :: uuid
  fv_observed_at :: datetime
  fv_cpu_percent :: pyfloat
  fv_memory_percent :: pyfloat
  fv_disk_percent :: pyfloat

definition view_of_row :: "FleetStateRecord \<Rightarrow> FleetStateView" where
  "view_of_row r =
     \<lparr>fv_agent_id = fs_agent_id r, fv_last_batch_id = fs_last_batch_id r,
      fv_observed_at = fs_observed_at r, fv_cpu_percent = fs_cpu_percent r,
      fv_memory_percent = fs_memory_percent r, fv_disk_percent = fs_disk_percent r\<rparr>"

definition dump_view :: "codec \<Rightarrow> FleetStateView \<Rightarrow> jval" where
  "dump_view c v = JObj
     [(''agent_id'', JStr (fv_agent_id v)), (''last_batch_id'', JStr (uuid_str (fv_last_batch_id v))),
      (''observed_at'', JStr (show_datetime c (fv_observed_at v))),
      (''cpu_percent'', JFloat (fv_cpu_percent v)), (''memory_percent'', JFloat (fv_memory_percent v)),
      (''disk_percent'', JFloat (fv_disk_percent v))]"

definition validate_view :: "codec \<Rightarrow> jval \<Rightarrow> FleetStateView option" where
  "validate_view c v =
     (case v of
        JObj m \<Rightarrow> do {
          aid \<leftarrow> field (map_of m) ''agent_id'' (as_str c);
          bid \<leftarrow> field (map_of m) ''last_batch_id'' (as_uuid c);
          oa \<leftarrow> field (map_of m) ''observed_at'' (as_datetime c);
          cpu \<leftarrow> field (map_of m) ''cpu_percent'' (as_float c);
          mem \<leftarrow> field (map_of m) ''memory_percent'' (as_float c);
          dsk \<leftarrow> field (map_of m) ''disk_percent'' (as_float c);
          Some \<lparr>fv_agent_id = aid, fv_last_batch_id = bid, fv_observed_at = oa,
                fv_cpu_percent = cpu, fv_memory_percent = mem, fv_disk_percent = dsk\<rparr> }
      | _ \<Rightarrow> None)"

text \<open>The Redis keys the API uses, and a fault for each of its calls in order.\<close>

record redis_cache =
  cache_entry :: "string option"
  stat_hits :: int
  stat_misses :: int

type_synonym redis_faults = "nat \<Rightarrow> py_error option"

definition views_of_text :: "codec \<Rightarrow> string \<Rightarrow> FleetStateView list res" where
  "views_of_text c s =
     res_bind (res_of JSONDecodeError (loads s)) (\<lambda>v.
     res_bind (iterate v) (\<lambda>xs. res_of ValidationError (those (map (validate_view c) xs))))"

definition text_of_views :: "codec \<Rightarrow> (pyfloat \<Rightarrow> string) \<Rightarrow> FleetStateView list \<Rightarrow> string" where
  "text_of_views c fr vs = dumps fr spaced (JList (map (dump_view c) vs))"

definition read_views :: "(string \<Rightarrow> string) \<Rightarrow> database \<Rightarrow> FleetStateView list" where
  "read_views collate db = map view_of_row (sort_key (\<lambda>r. collate (fs_agent_id r)) (fleet_state db))"

record fleet_reply =
  fleet_views :: "FleetStateView list"
  x_cache :: "string option"
  fleet_counters :: counters

definition cache_label :: "string \<Rightarrow> string \<times> string" where
  "cache_label s = (''cache'', s)"

text \<open>
  The first \<open>try\<close> block: the views of a hit, or \<^const>\<open>None\<close> to go on to the database, with
  the header, the counter increments and the Redis state it leaves.
\<close>

definition cache_lookup :: "codec \<Rightarrow> redis_faults \<Rightarrow> redis_cache \<Rightarrow>
    FleetStateView list option \<times> string option \<times> counters \<times> redis_cache" where
  "cache_lookup c fault rc =
     (case fault 0 of
        Some e \<Rightarrow> (None, Some ''BYPASS'', [cache_label ''bypass''], rc)
      | None \<Rightarrow>
          (case cache_entry rc of
             Some (ch # s) \<Rightarrow>
               (case fault 1 of
                  Some e \<Rightarrow> (None, Some ''BYPASS'', [cache_label ''bypass''], rc)
                | None \<Rightarrow>
                    (let rc' = rc\<lparr>stat_hits := stat_hits rc + 1\<rparr>
                     in case views_of_text c (ch # s) of
                          Inl e \<Rightarrow> (None, Some ''BYPASS'', [cache_label ''hit'', cache_label ''bypass''], rc')
                        | Inr vs \<Rightarrow> (Some vs, Some ''HIT'', [cache_label ''hit''], rc')))
           | _ \<Rightarrow>
               (case fault 1 of
                  Some e \<Rightarrow> (None, Some ''BYPASS'', [cache_label ''bypass''], rc)
                | None \<Rightarrow> (None, None, [cache_label ''miss''], rc\<lparr>stat_misses := stat_misses rc + 1\<rparr>))))"

definition list_fleet_state ::
  "codec \<Rightarrow> (pyfloat \<Rightarrow> string) \<Rightarrow> (string \<Rightarrow> string) \<Rightarrow> ApiSettings \<Rightarrow> redis_faults \<Rightarrow> database \<Rightarrow> redis_cache \<Rightarrow>
   fleet_reply \<times> redis_cache" where
  "list_fleet_state c fr collate cfg fault db rc =
     (let result = read_views collate db
      in if cache_enabled cfg
         then (case cache_lookup c fault rc of
                 (Some vs, hdr, cs, rc1) \<Rightarrow> (\<lparr>fleet_views = vs, x_cache = hdr, fleet_counters = cs\<rparr>, rc1)
               | (None, hdr, cs, rc1) \<Rightarrow>
                   (case fault 2 of
                      Some e \<Rightarrow> (\<lparr>fleet_views = result, x_cache = Some ''BYPASS'',
                                  fleet_counters = cs @ [cache_label ''bypass'']\<rparr>, rc1)
                    | None \<Rightarrow> (\<lparr>fleet_views = result,
                                x_cache = Some (case hdr of None \<Rightarrow> ''MISS'' | Some h \<Rightarrow> h), fleet_counters = cs\<rparr>,
                               rc1\<lparr>cache_entry := Some (text_of_views c fr result)\<rparr>)))
         else (\<lparr>fleet_views = result, x_cache = Some ''DISABLED'', fleet_counters = [cache_label ''disabled'']\<rparr>, rc))"

text \<open>\<open>hgetall\<close> may raise; \<open>int(...)\<close> of the stored counters does not.\<close>

definition cache_stats :: "ApiSettings \<Rightarrow> py_error option \<Rightarrow> redis_cache \<Rightarrow> bool \<times> int \<times> int" where
  "cache_stats cfg fault rc =
     (if \<not> cache_enabled cfg then (False, 0, 0)
      else case fault of None \<Rightarrow> (True, stat_hits rc, stat_misses rc) | Some e \<Rightarrow> (True, 0, 0))"

section \<open>Incidents and deployments\<close>

record IncidentView =
  iv_incident_id :: uuid
  iv_agent_id :: string
  iv_incident_type :: string
  iv_status :: string
  iv_severity :: string
  iv_summary :: string
  iv_evidence :: jval
  iv_opened_at :: datetime

definition incident_view :: "IncidentRecord \<Rightarrow> IncidentView" where
  "incident_view r =
     \<lparr>iv_incident_id = in_incident_id r, iv_agent_id = in_agent_id r, iv_incident_type = in_incident_type r,
      iv_status = in_status r, iv_severity = in_severity r, iv_summary = in_summary r,
      iv_evidence = in_evidence r, iv_opened_at = in_opened_at r\<rparr>"

definition list_incidents :: "database \<Rightarrow> IncidentView list" where
  "list_incidents db = map incident_view (sort_key (\<lambda>r. instant (in_opened_at r)) (incidents db))"

record DeploymentCreate =
  dc_service :: string
  dc_version :: string
  dc_status :: string
  dc_requested_by :: string

record DeploymentView =
  dv_service :: string
  dv_version :: string
  dv_status :: string
  dv_requested_by :: string
  dv_deployment_id :: uuid
  dv_created_at :: datetime

definition validate_deployment :: "codec \<Rightarrow> jval \<Rightarrow> DeploymentCreate option" where
  "validate_deployment c v =
     (case v of
        JObj m \<Rightarrow> do {
          sv \<leftarrow> field (map_of m) ''service'' (as_str c);
          ver \<leftarrow> field (map_of m) ''version'' (as_str c);
          st \<leftarrow> (case map_of m ''status'' of None \<Rightarrow> Some ''recorded'' | Some x \<Rightarrow> as_str c x);
          who \<leftarrow> field (map_of m) ''requested_by'' (as_str c);
          Some \<lparr>dc_service = sv, dc_version = ver, dc_status = st, dc_requested_by = who\<rparr> }
      | _ \<Rightarrow> None)"

definition deployment_view :: "DeploymentRecord \<Rightarrow> DeploymentView" where
  "deployment_view r =
     \<lparr>dv_service = dp_service r, dv_version = dp_version r, dv_status = dp_status r,
      dv_requested_by = dp_requested_by r, dv_deployment_id = dp_deployment_id r,
      dv_created_at = dp_created_at r\<rparr>"

definition create_deployment :: "db_env \<Rightarrow> uuid \<Rightarrow> DeploymentCreate \<Rightarrow> database \<Rightarrow> DeploymentView res \<times> database" where
  "create_deployment env fresh p db =
     (let r = \<lparr>dp_deployment_id = fresh, dp_service = dc_service p, dp_version = dc_version p,
               dp_status = dc_status p, dp_requested_by = dc_requested_by p,
               dp_created_at = txn_now env, dp_updated_at = txn_now env\<rparr>
      in case session_begin env (execute env 0 (insert_deployment r)) db of
           (Inl e, db') \<Rightarrow> (Inl e, db')
         | (Inr _, db') \<Rightarrow>
             (case stmt_fault env 1 of
                Some e \<Rightarrow> (Inl e, db')
              | None \<Rightarrow> (Inr (deployment_view r), db')))"

definition list_deployments :: "database \<Rightarrow> DeploymentView list" where
  "list_deployments db = map deployment_view (sort_key (\<lambda>r. instant (dp_created_at r)) (deployments db))"

section \<open>Ingestion: what a run of the transaction does\<close>

lemma wf_batch_nonempty: "wf_batch b \<Longrightarrow> samples b \<noteq> []"
  by (auto simp: wf_batch_def)

lemma agent_id_ok_length: "agent_id_ok s \<Longrightarrow> length s \<le> 128"
  by (auto simp: agent_id_ok_def split: list.splits)

lemma fits_accepted_event: "fits_outbox (accepted_event eid t cid b)"
  by (simp add: fits_outbox_def accepted_event_def varchar_def integer_column_def)

lemma fits_batch_row:
  assumes "wf_batch b" and "finite_batch b"
  shows "fits_batch (batch_row c t b lo hi)"
proof -
  have "length (samples b) \<le> 100" "schema_version b = 1" "length (agent_id b) \<le> 128"
    using assms(1) agent_id_ok_length by (auto simp: wf_batch_def)
  then show ?thesis
    using finite_dump_batch[OF assms] by (simp add: fits_batch_def batch_row_def varchar_def integer_column_def)
qed

definition agents_after :: "ingest_env \<Rightarrow> TelemetryBatch \<Rightarrow> AgentRecord list \<Rightarrow> AgentRecord list" where
  "agents_after env b rs = row_upsert ag_agent_id
     \<lparr>ag_agent_id = agent_id b, ag_hostname = hostname b, ag_first_seen_at = ing_now env,
      ag_last_seen_at = ing_now env\<rparr>
     (\<lambda>r. r\<lparr>ag_hostname := hostname b, ag_last_seen_at := ing_now env\<rparr>) rs"

lemma agents_after_keys: "ag_agent_id ` set (agents_after env b rs) = insert (agent_id b) (ag_agent_id ` set rs)"
  using row_upsert_keys[of rs ag_agent_id] by (simp add: agents_after_def)

definition observed_bounds :: "TelemetryBatch \<Rightarrow> datetime \<times> datetime" where
  "observed_bounds b =
     (the (first_min earlier (map observed_at (samples b))), the (first_max earlier (map observed_at (samples b))))"

definition stored_batch :: "codec \<Rightarrow> ingest_env \<Rightarrow> TelemetryBatch \<Rightarrow> TelemetryBatchRecord" where
  "stored_batch c env b =
     batch_row c (txn_now (ing_db env)) b (fst (observed_bounds b)) (snd (observed_bounds b))"

definition stored_event :: "ingest_env \<Rightarrow> TelemetryBatch \<Rightarrow> OutboxEventRecord" where
  "stored_event env b = accepted_event (ing_event_id env) (txn_now (ing_db env)) (ing_correlation_id env) b"

text \<open>The transaction's body, statement by statement, for a well-formed batch.\<close>

lemma ingest_body_unfold:
  assumes "wf_batch b" and "finite_batch b"
  shows "ingest_body c env b db =
    (case stmt_fault (ing_db env) 0 of Some e \<Rightarrow> Inl e | None \<Rightarrow>
     (case stmt_fault (ing_db env) 1 of Some e \<Rightarrow> Inl e | None \<Rightarrow>
       if batch_id b \<in> tb_batch_id ` set (telemetry_batches db)
       then Inr (False, db\<lparr>agents := agents_after env b (agents db)\<rparr>)
       else (case stmt_fault (ing_db env) 2 of Some e \<Rightarrow> Inl e | None \<Rightarrow>
         if ing_event_id env \<in> ob_event_id ` set (outbox_events db) then Inl IntegrityError
         else Inr (True, db\<lparr>agents := agents_after env b (agents db),
           telemetry_batches := telemetry_batches db @ [stored_batch c env b],
           outbox_events := outbox_events db @ [stored_event env b]\<rparr>))))"
proof -
  let ?ts = "map observed_at (samples b)"
  obtain lo hi where m: "first_min earlier ?ts = Some lo" "first_max earlier ?ts = Some hi"
    using wf_batch_nonempty[OF assms(1)] by (metis first_max_None first_min_def map_is_Nil_conv option.exhaust)
  have row: "stored_batch c env b = batch_row c (txn_now (ing_db env)) b lo hi"
    by (simp add: stored_batch_def observed_bounds_def m)
  have agent: "fits_agent \<lparr>ag_agent_id = agent_id b, ag_hostname = hostname b,
      ag_first_seen_at = ing_now env, ag_last_seen_at = ing_now env\<rparr>"
    using assms(1) agent_id_ok_length by (simp add: fits_agent_def varchar_def wf_batch_def str_len_def)
  have keys: "tb_batch_id (batch_row c t b lo hi) = batch_id b" "tb_agent_id (batch_row c t b lo hi) = agent_id b"
    "ob_event_id (accepted_event eid t cid b) = eid" for t eid cid
    by (simp_all add: batch_row_def accepted_event_def)
  show ?thesis
    using agents_after_keys[of env b "agents db"]
    by (simp add: ingest_body_def Let_def m row stored_event_def execute_def upsert_agent_def agent
        insert_batch_def fits_batch_row[OF assms] insert_outbox_def fits_accepted_event keys
        row_insert_ignore_def agents_after_def[symmetric] split: option.split)
qed

lemma ingest_body_Inr:
  assumes "wf_batch b" and "finite_batch b" and "ingest_body c env b db = Inr (ins, db')"
  shows "(batch_id b \<in> tb_batch_id ` set (telemetry_batches db) \<and> \<not> ins \<and>
      db' = db\<lparr>agents := agents_after env b (agents db)\<rparr>) \<or>
    (batch_id b \<notin> tb_batch_id ` set (telemetry_batches db) \<and> ins \<and>
      ing_event_id env \<notin> ob_event_id ` set (outbox_events db) \<and>
      db' = db\<lparr>agents := agents_after env b (agents db),
        telemetry_batches := telemetry_batches db @ [stored_batch c env b],
        outbox_events := outbox_events db @ [stored_event env b]\<rparr>)"
  using assms(3) unfolding ingest_body_unfold[OF assms(1,2)]
  by (simp split: option.split_asm if_split_asm)

text \<open>Whatever faults occur, the database after an ingestion is one of these three.\<close>

lemma ingest_batch_outcomes:
  assumes "wf_batch b" and "finite_batch b"
  shows "fst (snd (ingest_batch c env b db)) \<in>
    {db, db\<lparr>agents := agents_after env b (agents db)\<rparr>} \<or>
    (batch_id b \<notin> tb_batch_id ` set (telemetry_batches db) \<and>
     ing_event_id env \<notin> ob_event_id ` set (outbox_events db) \<and>
     fst (snd (ingest_batch c env b db)) = db\<lparr>agents := agents_after env b (agents db),
        telemetry_batches := telemetry_batches db @ [stored_batch c env b],
        outbox_events := outbox_events db @ [stored_event env b]\<rparr>)"
proof -
  let ?db = "snd (session_begin (ing_db env) (ingest_body c env b) db)"
  have eq: "fst (snd (ingest_batch c env b db)) = ?db"
    by (auto simp: ingest_batch_def Let_def split: prod.splits sum.splits)
  show ?thesis
    unfolding eq using session_begin_atomic[of "ing_db env" "ingest_body c env b" db]
      ingest_body_Inr[OF assms, of c env db] by blast
qed

abbreviation db_after :: "codec \<Rightarrow> ingest_env \<times> TelemetryBatch \<Rightarrow> database \<Rightarrow> database" where
  "db_after c x db \<equiv> fst (snd (ingest_batch c (fst x) (snd x) db))"

section \<open>Invariants of ingestion\<close>

lemma stored_ids [simp]:
  "tb_batch_id (stored_batch c env b) = batch_id b" "tb_agent_id (stored_batch c env b) = agent_id b"
  "tb_payload (stored_batch c env b) = dump_batch c b"
  "ob_event_id (stored_event env b) = ing_event_id env" "ob_aggregate_id (stored_event env b) = uuid_str (batch_id b)"
  "ob_published_at (stored_event env b) = None"
  by (simp_all add: stored_batch_def batch_row_def stored_event_def accepted_event_def)

lemma ingest_body_schema: "stmt_keeps schema_ok (ingest_body c env b)"
proof -
  have 1: "stmt_keeps schema_ok (execute e k (upsert_agent r (\<lambda>x. x\<lparr>ag_hostname := h, ag_last_seen_at := t\<rparr>)))"
    for e k r h t by (intro execute_keeps upsert_agent_schema) simp
  have 2: "stmt_keeps schema_ok (execute e k (insert_batch r))" for e k r
    by (intro execute_keeps insert_batch_schema)
  have 3: "stmt_keeps schema_ok (execute e k (insert_outbox r))" for e k r
    by (intro execute_keeps insert_outbox_schema)
  have 4: "stmt_keeps schema_ok (\<lambda>db. if ins then res_bind (execute e k (insert_outbox r) db)
      (\<lambda>(_, db'). Inr (True, db')) else Inr (False, db))" for ins e k r
    by (cases ins) (simp_all add: stmt_keeps_bind[OF 3] stmt_keeps_return)
  have 5: "stmt_keeps schema_ok (\<lambda>db. case (lo, hi) of (Some x, Some y) \<Rightarrow> f x y db | _ \<Rightarrow> Inl e)"
    if "\<And>x y. stmt_keeps schema_ok (f x y)" for lo hi e and f :: "datetime \<Rightarrow> datetime \<Rightarrow> bool stmt"
    using that by (cases lo; cases hi) (simp_all add: stmt_keeps_return)
  show ?thesis
    unfolding ingest_body_def Let_def by (intro stmt_keeps_bind 1 5 2 4)
qed

lemma ingest_batch_schema: "schema_ok db \<Longrightarrow> schema_ok (fst (snd (ingest_batch c env b db)))"
  using session_begin_keeps[OF ingest_body_schema, of db "ing_db env" c env b]
  by (auto simp: ingest_batch_def Let_def split: prod.splits sum.splits)

text \<open>
  The transactional outbox: batches and events were inserted together, so the two tables list the
  same batch ids in the same order; and each stored batch can be read back.
\<close>

definition outbox_paired :: "database \<Rightarrow> bool" where
  "outbox_paired db \<longleftrightarrow>
     map (\<lambda>r. uuid_str (tb_batch_id r)) (telemetry_batches db) = map ob_aggregate_id (outbox_events db)"

definition batch_stored_ok :: "codec \<Rightarrow> TelemetryBatchRecord \<Rightarrow> bool" where
  "batch_stored_ok c r \<longleftrightarrow> (\<exists>b. wf_batch b \<and> tb_batch_id r = batch_id b \<and> tb_agent_id r = agent_id b \<and>
     tb_payload r = dump_batch c b)"

lemma outbox_paired_agents [simp]: "outbox_paired (db\<lparr>agents := x\<rparr>) = outbox_paired db"
  by (simp add: outbox_paired_def)

lemma ingest_batch_paired:
  assumes "wf_batch b" and "finite_batch b" and "outbox_paired db"
  shows "outbox_paired (fst (snd (ingest_batch c env b db)))"
  using ingest_batch_outcomes[OF assms(1,2), of c env db] assms(3) by (auto simp: outbox_paired_def)

section \<open>Ingestion is an idempotent receiver\<close>

definition ingested :: "database \<Rightarrow> TelemetryBatchRecord list \<times> OutboxEventRecord list" where
  "ingested db = (telemetry_batches db, outbox_events db)"

definition valid_delivery :: "ingest_env \<times> TelemetryBatch \<Rightarrow> bool" where
  "valid_delivery x \<longleftrightarrow> wf_batch (snd x) \<and> finite_batch (snd x)"

lemma ingested_cong:
  assumes "ingested db = ingested db'" and "valid_delivery x"
  shows "ingested (db_after c x db) = ingested (db_after c x db')"
proof -
  have eqs: "telemetry_batches db = telemetry_batches db'" "outbox_events db = outbox_events db'"
    using assms(1) by (simp_all add: ingested_def)
  have wf: "wf_batch (snd x)" "finite_batch (snd x)" using assms(2) by (simp_all add: valid_delivery_def)
  show ?thesis
    by (cases "stmt_fault (ing_db (fst x)) 0"; cases "stmt_fault (ing_db (fst x)) 1";
        cases "stmt_fault (ing_db (fst x)) 2"; cases "commit_end (ing_db (fst x))")
      (simp_all add: ingest_batch_def session_begin_def ingest_body_unfold[OF wf] eqs ingested_def Let_def)
qed

interpretation ingestion: idempotent_receiver "db_after c" "\<lambda>x. batch_id (snd x)" "\<lambda>s. tb_batch_id ` set (fst s)"
  ingested valid_delivery "\<lambda>db. True" for c
proof unfold_locales
  fix s x
  assume v: "valid_delivery x"
  then have wf: "wf_batch (snd x)" "finite_batch (snd x)" by (simp_all add: valid_delivery_def)
  note cases = ingest_batch_outcomes[OF wf, of c "fst x" s]
  show "batch_id (snd x) \<in> tb_batch_id ` set (fst (ingested s)) \<Longrightarrow> ingested (db_after c x s) = ingested s"
    using cases by (auto simp: ingested_def)
  show "tb_batch_id ` set (fst (ingested (db_after c x s))) \<in> {tb_batch_id ` set (fst (ingested s)),
      insert (batch_id (snd x)) (tb_batch_id ` set (fst (ingested s)))}"
    using cases by (auto simp: ingested_def)
next
  fix s s' x
  show "valid_delivery x \<Longrightarrow> ingested s = ingested s' \<Longrightarrow> ingested (db_after c x s) = ingested (db_after c x s')"
    using ingested_cong by blast
qed simp

section \<open>Properties\<close>

definition example_env :: "uuid \<Rightarrow> int \<Rightarrow> ingest_env" where
  "example_env eid t = \<lparr>ing_db = no_faults (utc_at t), ing_now = utc_at t, ing_event_id = eid,
     ing_correlation_id = ''request-1''\<rparr>"



text \<open>
  C7: Under every combination of statement faults, refused commits and lost commit acknowledgements,
  an ingestion leaves the batch table and the outbox in step: either both are unchanged or each has
  one new row, for the same batch. So the two tables always list the same batches in the same
  order, all keys stay unique and every foreign key resolves.
\<close>

theorem ingest_batch_atomic:
  assumes "wf_batch b" and "finite_batch b" and "schema_ok db" and "outbox_paired db"
    and "ingest_batch c env b db = (r, db', cs)"
  shows "schema_ok db' \<and> outbox_paired db' \<and>
    (telemetry_batches db' = telemetry_batches db \<and> outbox_events db' = outbox_events db \<or>
     (\<exists>row ev. telemetry_batches db' = telemetry_batches db @ [row] \<and>
        outbox_events db' = outbox_events db @ [ev] \<and> tb_batch_id row = batch_id b \<and>
        ob_aggregate_id ev = uuid_str (batch_id b)))"
  using ingest_batch_outcomes[OF assms(1,2), of c env db] ingest_batch_schema[OF assms(3), of c env b]
    ingest_batch_paired[OF assms(1,2,4), of c env] assms(5) by auto

theorem ingest_batch_atomic_witness:
  "\<exists>r db' cs. ingest_batch example_codec ((example_env 5 0)\<lparr>ing_db := (no_faults (utc_at 0))\<lparr>commit_end :=
       CommitUnknown (ServiceError ''ConnectionDoesNotExistError'')\<rparr>\<rparr>) (example_batch 1 0 10) empty_database = (r, db', cs) \<and>
     outbox_paired db' \<and> schema_ok db'"
proof -
  let ?env = "(example_env 5 0)\<lparr>ing_db := (no_faults (utc_at 0))\<lparr>commit_end :=
       CommitUnknown (ServiceError ''ConnectionDoesNotExistError'')\<rparr>\<rparr>"
  obtain r db' cs where i: "ingest_batch example_codec ?env (example_batch 1 0 10) empty_database = (r, db', cs)"
    by (metis prod_cases3)
  have "outbox_paired empty_database" by (simp add: outbox_paired_def empty_database_def)
  from ingest_batch_atomic[OF wf_example_batch finite_example_batch schema_ok_empty this i] i
  show ?thesis by auto
qed

text \<open>
  C15: At-least-once delivery from the agents gives at-most-once storage. In any sequence of deliveries of
  well-formed batches, under any faults, the deliveries of a batch that is already stored can be
  struck out without changing the batch table or the outbox, and no delivered batch id is ever lost from
  the batch table once it is there.
\<close>

theorem repeated_deliveries_change_nothing:
  assumes "list_all valid_delivery ds"
  shows "ingested (ingestion.deliver_all c ds db) =
      ingested (ingestion.deliver_all c (ingestion.first_deliveries c ds db) db) \<and>
    tb_batch_id ` set (telemetry_batches db) \<subseteq> tb_batch_id ` set (telemetry_batches (ingestion.deliver_all c ds db)) \<and>
    ingestion.deliver_all c ds db = fold (\<lambda>x s. fst (snd (ingest_batch c (fst x) (snd x) s))) ds db"
proof -
  have "ingestion.deliver_all c ds db = fold (\<lambda>x s. fst (snd (ingest_batch c (fst x) (snd x) s))) ds db"
    by (induction ds arbitrary: db) simp_all
  then show ?thesis
    using ingestion.repetitions_do_nothing[OF _ assms, where s = db and c = c]
      ingestion.seen_grows[OF _ assms, where s = db and c = c]
    by (simp add: ingested_def)
qed

theorem repeated_deliveries_change_nothing_witness:
  "ingested (ingestion.deliver_all example_codec
       [(example_env 5 0, example_batch 1 0 10), (example_env 6 1, example_batch 1 0 10)] empty_database) =
   ingested (ingestion.deliver_all example_codec (ingestion.first_deliveries example_codec
       [(example_env 5 0, example_batch 1 0 10), (example_env 6 1, example_batch 1 0 10)] empty_database) empty_database)"
proof -
  have "list_all valid_delivery [(example_env 5 0, example_batch 1 0 10), (example_env 6 1, example_batch 1 0 10)]"
    using wf_example_batch finite_example_batch by (simp add: valid_delivery_def)
  from repeated_deliveries_change_nothing[OF this] show ?thesis by blast
qed

lemma partition_at_cases:
  "partition_at ch s = (a, m, z) \<longleftrightarrow>
     ch \<notin> set a \<and> (ch \<notin> set s \<and> a = s \<and> m = [] \<and> z = [] \<or> s = a @ ch # z \<and> m = [ch])"
proof (cases "dropWhile (\<lambda>x. x \<noteq> ch) s")
  case Nil
  then have "ch \<notin> set s" by (auto simp: dropWhile_eq_Nil_conv)
  then show ?thesis unfolding partition_at_def Nil list.case by auto
next
  case (Cons x rest)
  then have x: "x = ch" by (metis (full_types) dropWhile_eq_Cons_conv)
  have s: "s = takeWhile (\<lambda>x. x \<noteq> ch) s @ ch # rest" using Cons x by (metis takeWhile_dropWhile_id)
  have t: "ch \<notin> set (takeWhile (\<lambda>x. x \<noteq> ch) s)" using set_takeWhileD by fastforce
  have "takeWhile (\<lambda>x. x \<noteq> ch) (a @ ch # z) = a \<and> dropWhile (\<lambda>x. x \<noteq> ch) (a @ ch # z) = ch # z"
    if "ch \<notin> set a" for a z using that by (induction a) auto
  moreover have "ch \<in> set s" using s by (metis in_set_conv_decomp)
  ultimately show ?thesis unfolding partition_at_def Cons list.case using x s t by (metis Pair_inject Cons list.inject)
qed

text \<open>
  C24: With a non-empty ASCII token configured, the credential check passes exactly for a header that consists of the
  word \<open>bearer\<close> in any case, one space and the token; every other header is refused with 401, except
  one with a non-ASCII credential, which makes the check itself raise.
\<close>

theorem require_agent_token_exact:
  assumes "is_ascii (api_agent_token cfg)" and "api_agent_token cfg \<noteq> []"
  shows "(require_agent_token cfg header = Inr () \<longleftrightarrow>
      (\<exists>scheme. header = Some (scheme @ CHR '' '' # api_agent_token cfg) \<and> lower scheme = ''bearer'')) \<and>
    require_agent_token cfg header \<in> {Inr (), Inl unauthorized, Inl TypeError} \<and>
    (require_agent_token cfg header = Inl TypeError \<longleftrightarrow>
      (\<exists>scheme supplied. header = Some (scheme @ CHR '' '' # supplied) \<and> lower scheme = ''bearer'' \<and> \<not> is_ascii supplied))"
proof -
  let ?h = "case header of None \<Rightarrow> [] | Some h \<Rightarrow> h"
  obtain a m z where p: "partition_at (CHR '' '') ?h = (a, m, z)" by (metis prod_cases3)
  note c = p[unfolded partition_at_cases]
  have bearer: "CHR '' '' \<notin> set s" if "lower s = ''bearer''" for s
  proof
    assume "CHR '' '' \<in> set s"
    then have "lower_char (CHR '' '') \<in> set (lower s)" by (simp add: lower_def)
    with that show False by (simp add: lower_char_def)
  qed
  have eq: "require_agent_token cfg header =
      (if lower a \<noteq> ''bearer'' then Inl unauthorized
       else if \<not> is_ascii z then Inl TypeError
       else if z = api_agent_token cfg then Inr () else Inl unauthorized)"
    using assms by (simp add: require_agent_token_def p compare_digest_def)
  have uniq: "s = a \<and> t = z" if "header = Some (s @ CHR '' '' # t)" "lower s = ''bearer''" for s t
  proof -
    have "partition_at (CHR '' '') ?h = (s, [CHR '' ''], t)"
      unfolding partition_at_cases using that bearer by simp
    with p show ?thesis by simp
  qed
  show ?thesis
  proof (cases "m = []")
    case True
    then have "a = ?h" "z = []" "CHR '' '' \<notin> set ?h" using c by auto
    then have none: "\<And>s t. header \<noteq> Some (s @ CHR '' '' # t)" by auto
    have "is_ascii []" by (simp add: is_ascii_def)
    then show ?thesis unfolding eq using none assms(2) \<open>z = []\<close> by (simp add: unauthorized_def)
  next
    case False
    then have "?h = a @ CHR '' '' # z" using c by auto
    then have h: "header = Some (a @ CHR '' '' # z)" by (cases header) auto
    show ?thesis unfolding eq using h uniq assms by (auto simp: unauthorized_def)
  qed
qed

theorem require_agent_token_exact_witness:
  "require_agent_token \<lparr>api_agent_token = ''s3cret'', cache_enabled = True, cache_ttl_seconds = 15\<rparr>
     (Some ''BEARER s3cret'') = Inr ()"
proof -
  let ?cfg = "\<lparr>api_agent_token = ''s3cret'', cache_enabled = True, cache_ttl_seconds = 15\<rparr>"
  have "is_ascii (api_agent_token ?cfg)" "api_agent_token ?cfg \<noteq> []" by (simp_all add: is_ascii_def)
  note f = require_agent_token_exact[OF this, of "Some ''BEARER s3cret''"]
  have "lower ''BEARER'' = ''bearer''" by code_simp
  then have "\<exists>scheme. Some ''BEARER s3cret'' = Some (scheme @ CHR '' '' # api_agent_token ?cfg) \<and> lower scheme = ''bearer''"
    by (intro exI[of _ "''BEARER''"]) simp
  with f show ?thesis by blast
qed

text \<open>
  A request without a valid credential or with a body that is not a well-formed batch changes
  nothing and counts nothing, and is answered with 401, 422 or, for a non-ASCII credential, 500; every
  batch that reaches the handler is well formed.
\<close>

theorem ingest_route_guarded:
  "(case ingest_route c cfg header body env db of (r, db', cs) \<Rightarrow>
     (case require_agent_token cfg header of
        Inl e \<Rightarrow> r = Inl e \<and> db' = db \<and> cs = [] \<and> status_of_error e \<in> {401, 500}
      | Inr _ \<Rightarrow>
          (case validate_batch c body of
             None \<Rightarrow> r = Inl ValidationError \<and> status_of_error ValidationError = 422 \<and> db' = db \<and> cs = []
           | Some b \<Rightarrow> wf_batch b \<and> (r, db', cs) = ingest_batch c env b db)))"
proof (cases "require_agent_token cfg header")
  case (Inl e)
  then have "e = unauthorized \<or> e = TypeError"
    by (auto simp: require_agent_token_def compare_digest_def Let_def split: prod.splits if_splits)
  with Inl show ?thesis by (auto simp: ingest_route_def status_of_error_def unauthorized_def)
next
  case (Inr u)
  then show ?thesis
    using validate_batch_wf[of c body]
    by (cases "validate_batch c body") (auto simp: ingest_route_def status_of_error_def split: prod.splits)
qed

text \<open>
  Every request gets a correlation id of 1 to 128 characters, the client's own when it sent
  one: the handler runs under it, a reply carries it in \<open>X-Request-ID\<close>, and afterwards the
  context has its former id again, whether the handler returned or raised.
\<close>

theorem correlation_middleware_bounded:
  "(case correlation_middleware header fresh host call_next outer s of ((r, s'), after) \<Rightarrow>
     after = outer \<and> s' = snd (call_next (request_id_of header fresh) s) \<and>
     str_len 1 128 (request_id_of header fresh) \<and>
     (\<forall>h. header = Some h \<longrightarrow> h \<noteq> [] \<longrightarrow> request_id_of header fresh = take 128 h) \<and>
     (case fst (call_next (request_id_of header fresh) s) of
        Inl e \<Rightarrow> r = Inl e
      | Inr reply \<Rightarrow> \<exists>reply'. r = Inr reply' \<and> reply_status reply' = reply_status reply \<and>
          reply_body reply' = reply_body reply \<and>
          map_of (reply_headers reply') ''X-Request-ID'' = Some (request_id_of header fresh)))"
proof -
  have "str_len 1 128 (request_id_of header fresh)"
    using length_uuid_str[of fresh]
    by (auto simp: request_id_of_def str_len_def Let_def Suc_le_eq simp flip: length_greater_0_conv split: option.splits)
  moreover have "header = Some h \<Longrightarrow> h \<noteq> [] \<Longrightarrow> request_id_of header fresh = take 128 h" for h
    by (simp add: request_id_of_def)
  moreover obtain r0 s0 where "call_next (request_id_of header fresh) s = (r0, s0)" by fastforce
  ultimately show ?thesis
    by (cases r0) (auto simp: correlation_middleware_def Let_def update_conv)
qed

lemma validate_dump_view:
  "codec_ok c \<Longrightarrow> is_aware (fv_observed_at v) \<Longrightarrow> validate_view c (dump_view c v) = Some v"
  by (simp add: validate_view_def dump_view_def field_def codec_okD)

lemma views_of_text_of_views:
  assumes "codec_ok c" and "\<forall>v \<in> set vs. is_aware (fv_observed_at v)"
    and "loads (text_of_views c fr vs) = Some (JList (map (dump_view c) vs))"
  shows "views_of_text c (text_of_views c fr vs) = Inr vs"
  using those_map_inverse[of vs "validate_view c" "dump_view c"] validate_dump_view[OF assms(1)] assms(2,3)
  by (simp add: views_of_text_def iterate_def)

lemma text_of_views_Cons: "\<exists>s. text_of_views c fr vs = CHR ''['' # s"
  by (simp add: text_of_views_def)


definition example_fleet_row :: FleetStateRecord where
  "example_fleet_row = \<lparr>fs_agent_id = ''a'', fs_last_batch_id = 1, fs_observed_at = utc_at 0,
     fs_cpu_percent = Fin (25 / 2), fs_memory_percent = Fin (25 / 2), fs_disk_percent = Fin (25 / 2),
     fs_updated_at = utc_at 0\<rparr>"

lemma example_text_reads_back:
  "loads (text_of_views example_codec (\<lambda>f. ''12.5'')
     (read_views id (empty_database\<lparr>fleet_state := [example_fleet_row]\<rparr>))) =
   Some (JList (map (dump_view example_codec) (read_views id (empty_database\<lparr>fleet_state := [example_fleet_row]\<rparr>))))"
  by code_simp


text \<open>
  The fleet-state read never fails because of Redis: whatever calls raise and whatever the cache
  holds, it answers, and unless the answer is a \<open>HIT\<close> it is the content of the table. When every
  Redis call raises, the single request is counted as two bypasses.
\<close>

theorem fleet_state_survives_redis:
  "(case list_fleet_state c fr collate cfg fault db rc of (r, rc') \<Rightarrow>
     (x_cache r \<noteq> Some ''HIT'' \<longrightarrow> fleet_views r = read_views collate db) \<and>
     (x_cache r = Some ''HIT'' \<longrightarrow> cache_enabled cfg \<and>
        (\<exists>s. cache_entry rc = Some s \<and> s \<noteq> [] \<and> views_of_text c s = Inr (fleet_views r))) \<and>
     (cache_enabled cfg \<longrightarrow> (\<forall>k. fault k \<noteq> None) \<longrightarrow> fleet_views r = read_views collate db \<and> rc' = rc \<and>
        fleet_counters r = [cache_label ''bypass'', cache_label ''bypass'']))"
proof -
  obtain res hdr cs rc1 where l: "cache_lookup c fault rc = (res, hdr, cs, rc1)" by (metis prod_cases4)
  have hit: "hdr = Some ''HIT'' \<longleftrightarrow> res \<noteq> None" "res = Some vs \<Longrightarrow> \<exists>s. cache_entry rc = Some s \<and> s \<noteq> [] \<and> views_of_text c s = Inr vs"
    and bypass: "fault 0 \<noteq> None \<Longrightarrow> res = None \<and> cs = [cache_label ''bypass''] \<and> rc1 = rc" for vs
    using l by (auto simp: cache_lookup_def Let_def split: option.split_asm list.split_asm sum.split_asm)
  show ?thesis
  proof (cases "cache_enabled cfg")
    case False
    then show ?thesis by (simp add: list_fleet_state_def)
  next
    case on: True
    show ?thesis
    proof (cases res)
      case (Some vs)
      then have "hdr = Some ''HIT''" and "fault 0 = None" using hit(1) bypass by (simp, metis option.distinct(1))
      moreover from this have "\<not> (\<forall>k. fault k \<noteq> None)" by blast
      ultimately show ?thesis using Some on hit(2)[OF Some]
        by (simp add: list_fleet_state_def l) (metis option.distinct(1))
    next
      case None
      with hit(1) have "hdr \<noteq> Some ''HIT''" by simp
      show ?thesis
      proof (cases "fault 2")
        case f2: None
        with None \<open>hdr \<noteq> Some ''HIT''\<close> show ?thesis
          using on by (cases hdr) (simp_all add: list_fleet_state_def l Let_def, (metis option.distinct(1))+)
      next
        case f2: (Some e)
        with None show ?thesis using on bypass by (auto simp: list_fleet_state_def l Let_def)
      qed
    qed
  qed
qed

theorem fleet_state_survives_redis_witness:
  "\<exists>r. list_fleet_state example_codec (\<lambda>f. ''12.5'') id
       \<lparr>api_agent_token = ''t'', cache_enabled = True, cache_ttl_seconds = 15\<rparr> (\<lambda>k. Some (ServiceError ''ConnectionError''))
       (empty_database\<lparr>fleet_state := [example_fleet_row]\<rparr>) \<lparr>cache_entry = None, stat_hits = 0, stat_misses = 0\<rparr> =
       (r, \<lparr>cache_entry = None, stat_hits = 0, stat_misses = 0\<rparr>) \<and>
     fleet_views r = [view_of_row example_fleet_row] \<and>
     fleet_counters r = [cache_label ''bypass'', cache_label ''bypass'']"
  using fleet_state_survives_redis[where fault = "\<lambda>k. Some (ServiceError ''ConnectionError'')"
      and c = example_codec and fr = "\<lambda>f. ''12.5''" and collate = "id :: string \<Rightarrow> string"
      and cfg = "\<lparr>api_agent_token = ''t'', cache_enabled = True, cache_ttl_seconds = 15\<rparr>"
      and db = "empty_database\<lparr>fleet_state := [example_fleet_row]\<rparr>"
      and rc = "\<lparr>cache_entry = None, stat_hits = 0, stat_misses = 0\<rparr>"]
  by (auto simp: read_views_def split: prod.splits)

lemma sum_length_filter:
  assumes "finite A" and "f ` set ts \<subseteq> A"
  shows "(\<Sum>a \<in> A. int (length (filter (\<lambda>t. f t = a) ts))) = int (length ts)"
  using assms
proof (induction ts)
  case (Cons t ts)
  have "(\<Sum>a \<in> A. int (length (filter (\<lambda>u. f u = a) (t # ts)))) =
      (\<Sum>a \<in> A. (if a = f t then 1 else 0) + int (length (filter (\<lambda>u. f u = a) ts)))"
    by (rule sum.cong) auto
  with Cons show ?case by (simp add: sum.distrib)
qed simp

text \<open>
  The agent listing has one summary per registered agent, in the database's order of the ids, and the
  batch counts add up to the number of stored batches.
\<close>

theorem list_agents_counts_every_batch:
  assumes "schema_ok db"
  shows "mset (map sum_agent_id (list_agents collate db)) = mset (map ag_agent_id (agents db)) \<and>
    sorted (map (\<lambda>a. collate (sum_agent_id a)) (list_agents collate db)) \<and>
    sum_list (map sum_batch_count (list_agents collate db)) = int (length (telemetry_batches db))"
proof -
  let ?ids = "map ag_agent_id (agents db)"
  let ?n = "\<lambda>a. int (length (filter (\<lambda>t. tb_agent_id t = a) (telemetry_batches db)))"
  have ids: "map sum_agent_id (list_agents collate db) = map ag_agent_id (sort_key (\<lambda>a. collate (ag_agent_id a)) (agents db))"
    by (simp add: list_agents_def o_def)
  have m: "mset (map sum_agent_id (list_agents collate db)) = mset ?ids" unfolding ids by (simp add: mset_map)
  have "sum_list (map sum_batch_count (list_agents collate db)) = sum_list (map ?n (map sum_agent_id (list_agents collate db)))"
    by (simp add: list_agents_def o_def)
  also have "\<dots> = sum_list (map ?n ?ids)"
    using arg_cong[OF m, of "\<lambda>x. sum_mset (image_mset ?n x)"] by (simp add: sum_mset_sum_list flip: mset_map)
  also have "\<dots> = (\<Sum>a \<in> set ?ids. ?n a)"
    using assms by (intro sum_list_distinct_conv_sum_set) (simp add: schema_ok_def)
  also have "\<dots> = int (length (telemetry_batches db))"
  proof -
    have "tb_agent_id ` set (telemetry_batches db) \<subseteq> set ?ids" using assms by (simp add: schema_ok_def)
    then show ?thesis by (intro sum_length_filter) simp_all
  qed
  finally have "sum_list (map sum_batch_count (list_agents collate db)) = int (length (telemetry_batches db))" .
  moreover have "sorted (map (\<lambda>a. collate (sum_agent_id a)) (list_agents collate db))"
    by (simp add: list_agents_def o_def)
  ultimately show ?thesis using m by simp
qed

theorem list_agents_counts_every_batch_witness:
  "sum_list (map sum_batch_count (list_agents id empty_database)) = 0"
  using list_agents_counts_every_batch[OF schema_ok_empty, of id] by (simp add: empty_database_def)

text \<open>
  Recording a deployment is all or nothing: it is answered with a view of a row that the listing
  then contains, or it raises; a field wider than its column is refused and nothing is stored.
\<close>

theorem create_deployment_all_or_nothing:
  assumes "create_deployment env fresh p db = (r, db')"
  shows "(case r of
      Inr v \<Rightarrow> v \<in> set (list_deployments db') \<and> dv_deployment_id v = fresh \<and>
        length (deployments db') = Suc (length (deployments db)) \<and>
        dv_service v = dc_service p \<and> dv_version v = dc_version p \<and> dv_status v = dc_status p
    | Inl e \<Rightarrow> True) \<and>
    deployments db' \<in> {deployments db} \<union> {deployments db @ [x] | x. dp_deployment_id x = fresh} \<and>
    (128 < length (dc_service p) \<or> 128 < length (dc_version p) \<or> 32 < length (dc_status p) \<or>
     128 < length (dc_requested_by p) \<longrightarrow> db' = db \<and> (\<exists>e. r = Inl e))"
  using assms
  by (auto simp: create_deployment_def Let_def session_begin_def execute_def insert_deployment_def
      list_deployments_def deployment_view_def fits_deployment_def varchar_def
      split: option.split_asm if_split_asm commit_outcome.split_asm)

theorem create_deployment_all_or_nothing_witness:
  "\<exists>v db'. create_deployment (no_faults (utc_at 0)) 7
      \<lparr>dc_service = ''api'', dc_version = ''1'', dc_status = ''recorded'', dc_requested_by = ''ops''\<rparr> empty_database = (Inr v, db') \<and>
    v \<in> set (list_deployments db')"
proof -
  let ?p = "\<lparr>dc_service = ''api'', dc_version = ''1'', dc_status = ''recorded'', dc_requested_by = ''ops''\<rparr>"
  obtain v db' where c: "create_deployment (no_faults (utc_at 0)) 7 ?p empty_database = (Inr v, db')"
    by (simp add: create_deployment_def session_begin_def execute_def insert_deployment_def no_faults_def
        fits_deployment_def varchar_def empty_database_def Let_def)
  with create_deployment_all_or_nothing[OF c] show ?thesis by auto
qed

end
