(* ===== verification/Relay.thy ===== *)
theory Relay
  imports Api
begin

text \<open>
  The Redis Stream contract (\<open>queueing.py\<close>), the settings shared by relay and workers
  (\<open>worker/config.py\<close>) and the outbox relay (\<open>worker/relay.py\<close>). Redis is a stream with
  one consumer group: its entries in order, how many of them the group has been given, and the
  pending entries with their delivery counts.
\<close>

section \<open>Streams\<close>

type_synonym fields = "(string \<times> string) list"

record redis_state =
  entries :: "(string \<times> fields) list"
  group_read :: nat
  pending :: "(string \<times> nat) list"
  dead_letter_entries :: "fields list"
  fleet_cache :: "string option"

definition empty_redis :: redis_state where
  "empty_redis = \<lparr>entries = [], group_read = 0, pending = [], dead_letter_entries = [], fleet_cache = None\<rparr>"

definition xadd :: "string \<Rightarrow> fields \<Rightarrow> redis_state \<Rightarrow> redis_state" where
  "xadd mid f rs = rs\<lparr>entries := entries rs @ [(mid, f)]\<rparr>"

definition xack :: "string \<Rightarrow> redis_state \<Rightarrow> redis_state" where
  "xack mid rs = rs\<lparr>pending := filter (\<lambda>p. fst p \<noteq> mid) (pending rs)\<rparr>"

text \<open>\<open>xreadgroup\<close> hands out up to \<open>n\<close> entries the group has not been given yet.\<close>

definition xreadgroup :: "nat \<Rightarrow> redis_state \<Rightarrow> (string \<times> fields) list \<times> redis_state" where
  "xreadgroup n rs =
     (let new = take n (drop (group_read rs) (entries rs))
      in (new, rs\<lparr>group_read := group_read rs + length new, pending := pending rs @ map (\<lambda>e. (fst e, 1)) new\<rparr>))"

text \<open>\<open>xautoclaim\<close>: of the pending entries, those idle long enough (Redis decides) are delivered again.\<close>

definition xautoclaim :: "nat \<Rightarrow> (string \<Rightarrow> bool) \<Rightarrow> redis_state \<Rightarrow> (string \<times> fields) list \<times> redis_state" where
  "xautoclaim n idle rs =
     (let ids = take n (filter idle (map fst (pending rs)))
      in (List.map_filter (\<lambda>i. map_option (Pair i) (map_of (entries rs) i)) ids,
          rs\<lparr>pending := map (\<lambda>(i, k). if i \<in> set ids then (i, Suc k) else (i, k)) (pending rs)\<rparr>))"

section \<open>Queue events (queueing.py)\<close>

record QueueEvent =
  qe_event_id :: uuid
  qe_event_type :: string
  qe_aggregate_id :: string
  qe_payload :: "(string \<times> string) list"

definition string_dict :: "codec \<Rightarrow> jval \<Rightarrow> (string \<times> string) list option" where
  "string_dict c v =
     (case v of
        JObj m \<Rightarrow> those (map (\<lambda>(k, x). map_option (Pair k) (as_str c x)) m)
      | _ \<Rightarrow> None)"

definition validate_queue_event :: "codec \<Rightarrow> jval \<Rightarrow> QueueEvent option" where
  "validate_queue_event c v = do {
     m \<leftarrow> object_of [''event_id'', ''event_type'', ''aggregate_id'', ''payload''] v;
     eid \<leftarrow> field m ''event_id'' (as_uuid c);
     ty \<leftarrow> field m ''event_type'' (as_str c);
     agg \<leftarrow> field m ''aggregate_id'' (as_str c);
     p \<leftarrow> field m ''payload'' (string_dict c);
     Some \<lparr>qe_event_id = eid, qe_event_type = ty, qe_aggregate_id = agg, qe_payload = p\<rparr> }"

section \<open>Settings (worker/config.py)\<close>

record WorkerSettings =
  consumer_name :: string
  reclaim_idle_ms :: int
  max_delivery_attempts :: int
  cpu_incident_threshold :: rat
  memory_incident_threshold :: rat
  relay_poll_seconds :: rat

definition wf_worker_settings :: "WorkerSettings \<Rightarrow> bool" where
  "wf_worker_settings s \<longleftrightarrow> 0 < relay_poll_seconds s \<and> 100 \<le> reclaim_idle_ms s \<and>
     1 \<le> max_delivery_attempts s \<and> 0 \<le> cpu_incident_threshold s \<and> cpu_incident_threshold s \<le> 100 \<and>
     0 \<le> memory_incident_threshold s \<and> memory_incident_threshold s \<le> 100"

definition default_worker_settings :: "string \<Rightarrow> uuid \<Rightarrow> WorkerSettings" where
  "default_worker_settings gethostname fresh =
     \<lparr>consumer_name = gethostname @ ''-'' @ take 8 (uuid_str fresh), reclaim_idle_ms = 2000,
      max_delivery_attempts = 3, cpu_incident_threshold = 90, memory_incident_threshold = 90,
      relay_poll_seconds = 1 / 2\<rparr>"

section \<open>The outbox relay (worker/relay.py)\<close>

definition event_fields :: "(pyfloat \<Rightarrow> string) \<Rightarrow> OutboxEventRecord \<Rightarrow> fields" where
  "event_fields fr e =
     [(''event_id'', uuid_str (ob_event_id e)), (''event_type'', ob_event_type e),
      (''aggregate_id'', ob_aggregate_id e), (''payload'', dumps fr compact (JObj (ob_payload e)))]"

text \<open>
  What one poll reads from outside: database behaviour, the rows other relays hold locked, the ids
  Redis assigns, the fault of each \<open>xadd\<close>, the clock at each row.
\<close>

record relay_env =
  rel_db :: db_env
  rel_locked :: "uuid \<Rightarrow> bool"
  rel_message_id :: "nat \<Rightarrow> string"
  rel_fault :: "nat \<Rightarrow> py_error option"
  rel_now :: "nat \<Rightarrow> datetime"

definition unpublished :: "(uuid \<Rightarrow> bool) \<Rightarrow> database \<Rightarrow> OutboxEventRecord list" where
  "unpublished locked db =
     take 100 (sort_key (\<lambda>e. instant (ob_created_at e))
       (filter (\<lambda>e. ob_published_at e = None \<and> \<not> locked (ob_event_id e)) (outbox_events db)))"

text \<open>
  The loop over the selected rows, with \<open>k\<close> counting them: the stream grows at once, the
  updated rows are only written at the end of the transaction.
\<close>

fun publish_rows :: "(pyfloat \<Rightarrow> string) \<Rightarrow> relay_env \<Rightarrow> nat \<Rightarrow> OutboxEventRecord list \<Rightarrow> redis_state \<Rightarrow>
    OutboxEventRecord list res \<times> redis_state" where
  "publish_rows fr env k [] rs = (Inr [], rs)"
| "publish_rows fr env k (e # es) rs =
     (case rel_fault env k of
        Some err \<Rightarrow> (Inl err, rs)
      | None \<Rightarrow>
          (case publish_rows fr env (Suc k) es (xadd (rel_message_id env k) (event_fields fr e) rs) of
             (Inl err, rs') \<Rightarrow> (Inl err, rs')
           | (Inr done, rs') \<Rightarrow>
               (Inr (e\<lparr>ob_published_at := Some (rel_now env k),
                      ob_publication_attempts := ob_publication_attempts e + 1\<rparr> # done), rs')))"

definition write_rows :: "OutboxEventRecord list \<Rightarrow> OutboxEventRecord list \<Rightarrow> OutboxEventRecord list" where
  "write_rows done rows =
     map (\<lambda>r. case row_lookup ob_event_id done (ob_event_id r) of None \<Rightarrow> r | Some r' \<Rightarrow> r') rows"

definition publish_once :: "(pyfloat \<Rightarrow> string) \<Rightarrow> relay_env \<Rightarrow> database \<Rightarrow> redis_state \<Rightarrow>
    nat res \<times> database \<times> redis_state" where
  "publish_once fr env db rs =
     (case stmt_fault (rel_db env) 0 of
        Some e \<Rightarrow> (Inl e, db, rs)
      | None \<Rightarrow>
          (case publish_rows fr env 0 (unpublished (rel_locked env) db) rs of
             (Inl e, rs') \<Rightarrow> (Inl e, db, rs')
           | (Inr done, rs') \<Rightarrow>
               (let (r, db') = session_begin (rel_db env) (execute (rel_db env) 1
                      (\<lambda>d. Inr (length done, d\<lparr>outbox_events := write_rows done (outbox_events d)\<rparr>))) db
                in (r, db', rs'))))"

text \<open>One pass of the polling loop: a failed poll is counted and the loop goes on.\<close>

definition relay_pass :: "(pyfloat \<Rightarrow> string) \<Rightarrow> relay_env \<Rightarrow> database \<Rightarrow> redis_state \<Rightarrow>
    database \<times> redis_state \<times> (string \<times> nat) list" where
  "relay_pass fr env db rs =
     (case publish_once fr env db rs of
        (Inl e, db', rs') \<Rightarrow> (db', rs', [(''outbox_failures'', 1)])
      | (Inr n, db', rs') \<Rightarrow> (db', rs', if n = 0 then [] else [(''outbox_published'', n)]))"

text \<open>The loop, one pass for every time the stop event is found unset; other processes act in between.\<close>

fun relay_run :: "(pyfloat \<Rightarrow> string) \<Rightarrow> (relay_env \<times> (database \<times> redis_state \<Rightarrow> database \<times> redis_state)) list \<Rightarrow>
    database \<times> redis_state \<Rightarrow> database \<times> redis_state" where
  "relay_run fr [] s = s"
| "relay_run fr ((env, others) # passes) s =
     (case others s of (db, rs) \<Rightarrow> case relay_pass fr env db rs of (db', rs', _) \<Rightarrow> relay_run fr passes (db', rs'))"

end
