(* ===== verification/Worker.thy ===== *)
theory Worker
  imports Relay Python
begin

text \<open>
  The stream consumer, \<open>worker/main.py\<close>: decoding, the processing transaction, bounded
  retry and dead-lettering, acknowledgement, and one pass of its loop. Redis calls and database
  statements may raise; an exception that the handler does not catch ends the worker.
\<close>

section \<open>Decoding\<close>

text \<open>\<open>fields[key]\<close>.\<close>

definition get_item :: "fields \<Rightarrow> string \<Rightarrow> string res" where
  "get_item f k = res_of (KeyError k) (map_of f k)"

definition decode_event :: "codec \<Rightarrow> fields \<Rightarrow> QueueEvent res" where
  "decode_event c f =
     res_bind (get_item f ''event_id'') (\<lambda>eid.
     res_bind (get_item f ''event_type'') (\<lambda>ty.
     res_bind (get_item f ''aggregate_id'') (\<lambda>agg.
     res_bind (get_item f ''payload'') (\<lambda>p.
     res_bind (res_of JSONDecodeError (loads p)) (\<lambda>v.
     res_of ValidationError (validate_queue_event c
       (JObj [(''event_id'', JStr eid), (''event_type'', JStr ty), (''aggregate_id'', JStr agg),
              (''payload'', v)])))))))"

section \<open>Processing\<close>

text \<open>
  What the processing of one message reads from outside. \<open>pg_uuid\<close> is how PostgreSQL reads the
  text it compares the batch id with.
\<close>

record worker_env =
  wk_db :: db_env
  wk_incident_ids :: "string \<Rightarrow> uuid"
  wk_redis_fault :: "nat \<Rightarrow> py_error option"
  wk_dead_letter_db :: db_env
  pg_uuid :: "string \<Rightarrow> uuid option"

definition latest_sample :: "TelemetryBatch \<Rightarrow> TelemetrySample res" where
  "latest_sample b =
     res_of (ValueError ''max() arg is an empty sequence'')
       (first_max (\<lambda>x y. earlier (observed_at x) (observed_at y)) (samples b))"

definition max_disk_percent :: "TelemetrySample \<Rightarrow> pyfloat res" where
  "max_disk_percent s =
     res_of (ValueError ''max() arg is an empty sequence'') (first_max flt (map disk_used_percent (disks s)))"

definition find_batch :: "worker_env \<Rightarrow> string \<Rightarrow> TelemetryBatchRecord stmt" where
  "find_batch env agg db =
     (case pg_uuid env agg of
        None \<Rightarrow> Inl DataError
      | Some u \<Rightarrow> res_of NoResultFound (map_option (\<lambda>r. (r, db)) (row_lookup tb_batch_id (telemetry_batches db) u)))"

definition fleet_row :: "datetime \<Rightarrow> TelemetryBatch \<Rightarrow> TelemetrySample \<Rightarrow> pyfloat \<Rightarrow> FleetStateRecord" where
  "fleet_row now b s disk =
     \<lparr>fs_agent_id = agent_id b, fs_last_batch_id = batch_id b, fs_observed_at = observed_at s,
      fs_cpu_percent = cpu_percent s, fs_memory_percent = mem_used_percent (memory s),
      fs_disk_percent = disk, fs_updated_at = now\<rparr>"

text \<open>The \<open>DO UPDATE SET\<close> list does not mention \<open>updated_at\<close>.\<close>

definition fleet_update :: "FleetStateRecord \<Rightarrow> FleetStateRecord \<Rightarrow> FleetStateRecord" where
  "fleet_update new old =
     old\<lparr>fs_last_batch_id := fs_last_batch_id new, fs_observed_at := fs_observed_at new,
         fs_cpu_percent := fs_cpu_percent new, fs_memory_percent := fs_memory_percent new,
         fs_disk_percent := fs_disk_percent new\<rparr>"

definition conditions :: "WorkerSettings \<Rightarrow> TelemetrySample \<Rightarrow> (string \<times> pyfloat \<times> pyfloat) list" where
  "conditions cfg s =
     [(''high_cpu'', cpu_percent s, Fin (cpu_incident_threshold cfg)),
      (''high_memory'', mem_used_percent (memory s), Fin (memory_incident_threshold cfg))]"

definition incident_row :: "datetime \<Rightarrow> uuid \<Rightarrow> TelemetryBatch \<Rightarrow> string \<Rightarrow> pyfloat \<Rightarrow> pyfloat \<Rightarrow> IncidentRecord" where
  "incident_row now iid b ty value threshold =
     \<lparr>in_incident_id = iid, in_agent_id = agent_id b, in_incident_type = ty,
      in_deduplication_key = agent_id b @ '':'' @ ty, in_status = ''open'', in_severity = ''warning'',
      in_summary = ty @ '' threshold crossed'',
      in_evidence = JObj [(''batch_id'', JStr (uuid_str (batch_id b))), (''value'', JFloat value),
                          (''threshold'', JFloat threshold)],
      in_opened_at = now, in_updated_at = now\<rparr>"

text \<open>The loop over the conditions; \<open>k\<close> numbers its statements. The result lists the incidents created.\<close>

fun open_incidents :: "worker_env \<Rightarrow> TelemetryBatch \<Rightarrow> nat \<Rightarrow> (string \<times> pyfloat \<times> pyfloat) list \<Rightarrow> string list stmt" where
  "open_incidents env b k [] db = Inr ([], db)"
| "open_incidents env b k ((ty, value, threshold) # cs) db =
     (if fle threshold value
      then res_bind (execute (wk_db env) k (insert_incident
             (incident_row (txn_now (wk_db env)) (wk_incident_ids env ty) b ty value threshold)) db)
             (\<lambda>(new, db1). res_bind (open_incidents env b (Suc k) cs db1)
                (\<lambda>(created, db2). Inr (if new then ty # created else created, db2)))
      else open_incidents env b (Suc k) cs db)"

definition record_telemetry :: "codec \<Rightarrow> WorkerSettings \<Rightarrow> worker_env \<Rightarrow> TelemetryBatchRecord \<Rightarrow> string list stmt" where
  "record_telemetry c cfg env row db =
     res_bind (res_of ValidationError (validate_batch c (tb_payload row))) (\<lambda>b.
     res_bind (latest_sample b) (\<lambda>s.
     res_bind (max_disk_percent s) (\<lambda>disk.
     let r = fleet_row (txn_now (wk_db env)) b s disk
     in res_bind (execute (wk_db env) 2 (upsert_fleet_state r (fleet_update r)) db) (\<lambda>(_, db1).
        open_incidents env b 3 (conditions cfg s) db1))))"

definition process_body :: "codec \<Rightarrow> WorkerSettings \<Rightarrow> worker_env \<Rightarrow> string \<Rightarrow> QueueEvent \<Rightarrow> string list stmt" where
  "process_body c cfg env mid ev db =
     res_bind (execute (wk_db env) 0 (insert_processed
        \<lparr>pe_event_id = qe_event_id ev, pe_stream_message_id = mid, pe_consumer_name = consumer_name cfg,
         pe_processed_at = txn_now (wk_db env)\<rparr>) db) (\<lambda>(inserted, db1).
     if \<not> inserted then Inr ([], db1)
     else if qe_event_type ev \<noteq> ''telemetry.batch.accepted.v1''
     then Inl (ValueError (''unsupported event type: '' @ qe_event_type ev))
     else res_bind (execute (wk_db env) 1 (find_batch env (qe_aggregate_id ev)) db1) (\<lambda>(row, db2).
          record_telemetry c cfg env row db2))"

text \<open>Incidents are counted after the transaction.\<close>

definition process_event :: "codec \<Rightarrow> WorkerSettings \<Rightarrow> worker_env \<Rightarrow> string \<Rightarrow> QueueEvent \<Rightarrow> database \<Rightarrow>
    unit res \<times> database \<times> counters" where
  "process_event c cfg env mid ev db =
     (case session_begin (wk_db env) (process_body c cfg env mid ev) db of
        (Inl e, db') \<Rightarrow> (Inl e, db', [])
      | (Inr created, db') \<Rightarrow> (Inr (), db', map (\<lambda>ty. (''incidents'', ty)) created))"

section \<open>Handling one message\<close>

definition delivery_attempts :: "string \<Rightarrow> redis_state \<Rightarrow> int" where
  "delivery_attempts mid rs = (case map_of (pending rs) mid of None \<Rightarrow> 1 | Some k \<Rightarrow> int k)"

record worker_state =
  wdb :: database
  wredis :: redis_state

text \<open>\<open>redis_call k f\<close> is the \<open>k\<close>-th Redis call of the handler: it raises or has its effect.\<close>

definition redis_call :: "worker_env \<Rightarrow> nat \<Rightarrow> (redis_state \<Rightarrow> redis_state) \<Rightarrow> worker_state \<Rightarrow> unit res \<times> worker_state" where
  "redis_call env k f st =
     (case wk_redis_fault env k of
        Some e \<Rightarrow> (Inl e, st)
      | None \<Rightarrow> (Inr (), st\<lparr>wredis := f (wredis st)\<rparr>))"

definition then_do :: "unit res \<times> 's \<Rightarrow> ('s \<Rightarrow> unit res \<times> 's) \<Rightarrow> unit res \<times> 's" where
  "then_do r f = (case r of (Inl e, st) \<Rightarrow> (Inl e, st) | (Inr _, st) \<Rightarrow> f st)"

definition dlq_fields :: "string \<Rightarrow> fields \<Rightarrow> py_error \<Rightarrow> fields" where
  "dlq_fields mid f e =
     [(''source_id'', mid), (''error'', error_name e),
      (''payload'', dumps (\<lambda>_. []) spaced (JObj (map (\<lambda>(k, v). (k, JStr v)) f)))]"

definition dead_letter :: "worker_env \<Rightarrow> string \<Rightarrow> fields \<Rightarrow> py_error \<Rightarrow> int \<Rightarrow> worker_state \<Rightarrow> unit res \<times> worker_state" where
  "dead_letter env mid f err attempts st =
     then_do (redis_call env 3 (\<lambda>rs. rs\<lparr>dead_letter_entries := dead_letter_entries rs @ [dlq_fields mid f err]\<rparr>) st)
       (\<lambda>st1. then_do
          (case session_begin (wk_dead_letter_db env) (execute (wk_dead_letter_db env) 0 (insert_dead_letter
             \<lparr>dl_stream_message_id = mid, dl_event_id = (case map_of f ''event_id'' of None \<Rightarrow> ''unknown'' | Some x \<Rightarrow> x),
              dl_error_type = error_name err, dl_attempts = attempts,
              dl_payload = JObj (map (\<lambda>(k, v). (k, JStr v)) f), dl_created_at = txn_now (wk_dead_letter_db env)\<rparr>))
             (wdb st1) of
             (r, db') \<Rightarrow> (r, st1\<lparr>wdb := db'\<rparr>))
          (redis_call env 4 (xack mid)))"

text \<open>The exceptions of the \<open>except\<close> clause; \<open>ValidationError\<close> and \<open>JSONDecodeError\<close> are
  \<open>ValueError\<close>s.\<close>

definition retryable :: "py_error \<Rightarrow> bool" where
  "retryable e \<longleftrightarrow>
     (case e of ValidationError \<Rightarrow> True | KeyError _ \<Rightarrow> True | ValueError _ \<Rightarrow> True | JSONDecodeError \<Rightarrow> True
      | _ \<Rightarrow> False)"

text \<open>The correlation id the message is processed under.\<close>

definition message_correlation_id :: "string \<Rightarrow> fields \<Rightarrow> QueueEvent res \<Rightarrow> string" where
  "message_correlation_id mid f ev =
     (let outer = (case map_of f ''event_id'' of None \<Rightarrow> mid | Some x \<Rightarrow> x)
      in case ev of
           Inl e \<Rightarrow> outer
         | Inr q \<Rightarrow>
             (case map_of (qe_payload q) ''correlation_id'' of
                None \<Rightarrow> outer
              | Some x \<Rightarrow> if x = [] then outer else take 128 x))"

text \<open>The \<open>try\<close> block: decode, process, drop the cached fleet state, acknowledge.\<close>

definition try_message :: "codec \<Rightarrow> WorkerSettings \<Rightarrow> worker_env \<Rightarrow> string \<Rightarrow> fields \<Rightarrow> worker_state \<Rightarrow>
    unit res \<times> worker_state" where
  "try_message c cfg env mid f st =
     (case decode_event c f of
        Inl e \<Rightarrow> (Inl e, st)
      | Inr ev \<Rightarrow>
          then_do (case process_event c cfg env mid ev (wdb st) of (r, db', cs) \<Rightarrow> (r, st\<lparr>wdb := db'\<rparr>))
            (\<lambda>st1. then_do (redis_call env 0 (\<lambda>rs. rs\<lparr>fleet_cache := None\<rparr>) st1)
               (redis_call env 1 (xack mid))))"

text \<open>The whole handler: the exception that leaves it, if any, and the state it leaves.\<close>

definition handle_message :: "codec \<Rightarrow> WorkerSettings \<Rightarrow> worker_env \<Rightarrow> string \<Rightarrow> fields \<Rightarrow> worker_state \<Rightarrow>
    unit res \<times> worker_state \<times> (string \<times> string) list" where
  "handle_message c cfg env mid f st =
     (let cid = message_correlation_id mid f (decode_event c f)
      in case try_message c cfg env mid f st of
           (Inr _, st1) \<Rightarrow> (Inr (), st1, [(''event_processed'', cid)])
         | (Inl e, st1) \<Rightarrow>
             if \<not> retryable e then (Inl e, st1, [])
             else (case wk_redis_fault env 2 of
                     Some e' \<Rightarrow> (Inl e', st1, [])
                   | None \<Rightarrow>
                       (let attempts = delivery_attempts mid (wredis st1)
                        in if max_delivery_attempts cfg \<le> attempts
                           then (case dead_letter env mid f e attempts st1 of
                                   (Inl e', st2) \<Rightarrow> (Inl e', st2, [])
                                 | (Inr _, st2) \<Rightarrow> (Inr (), st2, [(''event_dead_lettered'', cid)]))
                           else (Inr (), st1, [(''event_retry'', cid)]))))"

section \<open>The worker's loop\<close>

text \<open>
  While the worker runs, other processes (API, relay, other workers) act too: \<open>others\<close> is what they do
  between two actions of this worker. Handling a list of messages stops at the first exception that
  escapes.
\<close>

record delivery_env =
  de_others :: "worker_state \<Rightarrow> worker_state"
  de_worker :: worker_env

fun handle_all :: "codec \<Rightarrow> WorkerSettings \<Rightarrow> (string \<Rightarrow> delivery_env) \<Rightarrow> (string \<times> fields) list \<Rightarrow> worker_state \<Rightarrow>
    unit res \<times> worker_state" where
  "handle_all c cfg envs [] st = (Inr (), st)"
| "handle_all c cfg envs ((mid, f) # ms) st =
     (case handle_message c cfg (de_worker (envs mid)) mid f (de_others (envs mid) st) of
        (Inl e, st', _) \<Rightarrow> (Inl e, st')
      | (Inr _, st', _) \<Rightarrow> handle_all c cfg envs ms st')"

text \<open>
  What one pass reads from outside: which pending entries are idle, for each of its three stream
  commands the exception it raises, with whether Redis carried it out (a lost reply), and what the other
  processes do before it, and the environment of each message.
\<close>

record pass_env =
  ps_idle :: "string \<Rightarrow> bool"
  ps_fault :: "nat \<Rightarrow> (bool \<times> py_error) option"
  ps_others :: "nat \<Rightarrow> worker_state \<Rightarrow> worker_state"
  ps_reclaimed :: "string \<Rightarrow> delivery_env"
  ps_fresh :: "string \<Rightarrow> delivery_env"

definition stream_call :: "pass_env \<Rightarrow> nat \<Rightarrow> (redis_state \<Rightarrow> (string \<times> fields) list \<times> redis_state) \<Rightarrow>
    ((string \<times> fields) list \<Rightarrow> worker_state \<Rightarrow> unit res \<times> worker_state) \<Rightarrow> worker_state \<Rightarrow> unit res \<times> worker_state" where
  "stream_call p k command continue st =
     (let st1 = ps_others p k st in
      case ps_fault p k of
        Some (carried_out, e) \<Rightarrow> (Inl e, if carried_out then st1\<lparr>wredis := snd (command (wredis st1))\<rparr> else st1)
      | None \<Rightarrow> (case command (wredis st1) of (messages, rs) \<Rightarrow> continue messages (st1\<lparr>wredis := rs\<rparr>)))"

text \<open>One pass: reclaim idle deliveries, handle them, read new entries, handle them, read the group's figures.\<close>

definition worker_pass :: "codec \<Rightarrow> WorkerSettings \<Rightarrow> pass_env \<Rightarrow> worker_state \<Rightarrow> unit res \<times> worker_state" where
  "worker_pass c cfg p =
     stream_call p 0 (xautoclaim 10 (ps_idle p)) (\<lambda>claimed st.
     then_do (handle_all c cfg (ps_reclaimed p) claimed st) (
     stream_call p 1 (xreadgroup 10) (\<lambda>new st'.
     then_do (handle_all c cfg (ps_fresh p) new st') (
     stream_call p 2 (Pair []) (\<lambda>_ st''. (Inr (), st''))))))"

text \<open>
  \<open>XGROUP CREATE\<close> from entry \<open>0\<close>: a new group has been given nothing; an error is either a
  \<open>ResponseError\<close> with its text or another exception, and that the group exists is no error. Then
  the passes, one for every time the stop event is found unset.
\<close>

definition start_group :: "(string + py_error) option \<Rightarrow> worker_state \<Rightarrow> unit res \<times> worker_state" where
  "start_group reply st =
     (case reply of
        None \<Rightarrow> (Inr (), st\<lparr>wredis := (wredis st)\<lparr>group_read := 0, pending := []\<rparr>\<rparr>)
      | Some (Inl message) \<Rightarrow> (if contains ''BUSYGROUP'' message then Inr () else Inl (ServiceError ''ResponseError''), st)
      | Some (Inr e) \<Rightarrow> (Inl e, st))"

fun worker_loop :: "codec \<Rightarrow> WorkerSettings \<Rightarrow> pass_env list \<Rightarrow> worker_state \<Rightarrow> unit res \<times> worker_state" where
  "worker_loop c cfg [] st = (Inr (), st)"
| "worker_loop c cfg (p # ps) st = then_do (worker_pass c cfg p st) (worker_loop c cfg ps)"

definition worker_run :: "codec \<Rightarrow> WorkerSettings \<Rightarrow> (string + py_error) option \<Rightarrow> pass_env list \<Rightarrow> worker_state \<Rightarrow>
    unit res \<times> worker_state" where
  "worker_run c cfg reply ps st = then_do (start_group reply st) (worker_loop c cfg ps)"

text \<open>The gauge after a pass: pending plus lag, both as \<open>XINFO GROUPS\<close> reports them.\<close>

definition queue_pending :: "redis_state \<Rightarrow> int" where
  "queue_pending rs = int (length (pending rs)) + int (length (entries rs) - group_read rs)"

end
