(* ===== verification/Processing.thy ===== *)
theory Processing
  imports Worker
begin

text \<open>
  The correctness of the worker: what a processed event does to the fleet state and the incidents,
  that a repeated event does nothing, that a message is acknowledged only after it was processed or
  dead-lettered, and which failures are retried.
\<close>

section \<open>What the processing transaction leaves alone\<close>

lemma stmt_keeps_pure:
  assumes "\<And>x. stmt_keeps P (f x)"
  shows "stmt_keeps P (\<lambda>db. res_bind m (\<lambda>x. f x db))"
  using assms by (cases m) (simp_all add: stmt_keeps_return)

lemma stmt_keeps_if: "stmt_keeps P f \<Longrightarrow> stmt_keeps P g \<Longrightarrow> stmt_keeps P (\<lambda>db. if b then f db else g db)"
  by (cases b) simp_all

lemma find_batch_keeps: "stmt_keeps P (find_batch env agg)"
  by (auto simp: stmt_keeps_def find_batch_def res_of_eq_Inr split: option.splits)

lemma open_incidents_keeps:
  assumes "\<And>r. stmt_keeps P (insert_incident r)"
  shows "stmt_keeps P (open_incidents env b k cs)"
proof (induction cs arbitrary: k)
  case Nil
  then show ?case using stmt_keeps_return(1)[of P "[]"] by (simp add: stmt_keeps_def)
next
  case (Cons x cs)
  obtain ty v th where x: "x = (ty, v, th)" by (metis prod_cases3)
  have "stmt_keeps P (\<lambda>db. open_incidents env b k (x # cs) db)"
    unfolding x open_incidents.simps
    by (intro stmt_keeps_if stmt_keeps_bind execute_keeps assms Cons.IH stmt_keeps_return)
  then show ?case .
qed

lemma process_body_keeps:
  assumes "\<And>r. stmt_keeps P (insert_processed r)" and "\<And>r. stmt_keeps P (insert_incident r)"
    and "\<And>r. stmt_keeps P (upsert_fleet_state r (fleet_update r))"
  shows "stmt_keeps P (process_body c cfg env mid ev)"
proof -
  have "stmt_keeps P (\<lambda>db. res_bind (execute (wk_db env) 2 (upsert_fleet_state r (fleet_update r)) db)
      (\<lambda>(_, db1). open_incidents env b 3 (conditions cfg s) db1))" for r b s
    by (intro stmt_keeps_bind execute_keeps assms open_incidents_keeps)
  then have "stmt_keeps P (record_telemetry c cfg env row)" for row
    unfolding record_telemetry_def Let_def by (intro stmt_keeps_pure)
  then show ?thesis
    unfolding process_body_def
    by (intro stmt_keeps_bind stmt_keeps_if stmt_keeps_return execute_keeps assms find_batch_keeps)
qed

lemma fleet_update_key [simp]: "fs_agent_id (fleet_update new old) = fs_agent_id old"
  by (simp add: fleet_update_def)

lemma process_body_schema: "stmt_keeps schema_ok (process_body c cfg env mid ev)"
  by (intro process_body_keeps insert_processed_schema insert_incident_schema upsert_fleet_state_schema) simp

definition same_ingested :: "database \<Rightarrow> database \<Rightarrow> bool" where
  "same_ingested db0 db \<longleftrightarrow> agents db = agents db0 \<and> telemetry_batches db = telemetry_batches db0 \<and>
     outbox_events db = outbox_events db0 \<and> deployments db = deployments db0 \<and> dead_letters db = dead_letters db0"

lemma process_body_same: "stmt_keeps (same_ingested db0) (process_body c cfg env mid ev)"
  by (intro process_body_keeps)
     (auto simp: stmt_keeps_def same_ingested_def insert_processed_def insert_incident_def
      upsert_fleet_state_def row_insert_ignore_def split: if_splits)

lemma process_event_db:
  "fst (snd (process_event c cfg env mid ev db)) = snd (session_begin (wk_db env) (process_body c cfg env mid ev) db)"
  by (auto simp: process_event_def split: prod.splits sum.splits)

lemma process_event_schema: "schema_ok db \<Longrightarrow> schema_ok (fst (snd (process_event c cfg env mid ev db)))"
  unfolding process_event_db by (rule session_begin_keeps [OF process_body_schema])

lemma process_event_same: "same_ingested db (fst (snd (process_event c cfg env mid ev db)))"
  unfolding process_event_db
  by (rule session_begin_keeps [OF process_body_same]) (simp add: same_ingested_def)

section \<open>Deduplication\<close>

definition processed_ids :: "database \<Rightarrow> uuid set" where
  "processed_ids db = pe_event_id ` set (processed_events db)"

lemma process_body_repeated:
  "qe_event_id ev \<in> processed_ids db \<Longrightarrow> process_body c cfg env mid ev db = Inr (x, db') \<Longrightarrow> db' = db"
  by (auto simp: process_body_def processed_ids_def execute_def insert_processed_def row_insert_ignore_def
      res_bind_eq_Inr split: option.splits if_splits)

lemma processed_after_rest:
  assumes "stmt_keeps (\<lambda>d. processed_ids d = A) act" and "processed_ids db = A" and "act db = Inr (x, db')"
  shows "processed_ids db' = A"
  using assms unfolding stmt_keeps_def by blast

lemma record_telemetry_processed:
  "stmt_keeps (\<lambda>d. processed_ids d = A) (record_telemetry c cfg env row)"
proof -
  have "stmt_keeps (\<lambda>d. processed_ids d = A) (upsert_fleet_state r f)" "stmt_keeps (\<lambda>d. processed_ids d = A) (insert_incident i)"
    for r f i
    by (auto simp: stmt_keeps_def processed_ids_def insert_incident_def upsert_fleet_state_def
        row_insert_ignore_def split: if_splits)
  then show ?thesis
    unfolding record_telemetry_def Let_def
    by (intro stmt_keeps_pure stmt_keeps_bind execute_keeps open_incidents_keeps)
qed

lemma process_body_processed:
  assumes "process_body c cfg env mid ev db = Inr (x, db')"
  shows "processed_ids db' = insert (qe_event_id ev) (processed_ids db)"
proof -
  let ?r = "\<lparr>pe_event_id = qe_event_id ev, pe_stream_message_id = mid, pe_consumer_name = consumer_name cfg,
         pe_processed_at = txn_now (wk_db env)\<rparr>"
  obtain new db1 where 1: "execute (wk_db env) 0 (insert_processed ?r) db = Inr (new, db1)"
    and rest: "(if \<not> new then Inr ([], db1)
     else if qe_event_type ev \<noteq> ''telemetry.batch.accepted.v1''
     then Inl (ValueError (''unsupported event type: '' @ qe_event_type ev))
     else res_bind (execute (wk_db env) 1 (find_batch env (qe_aggregate_id ev)) db1) (\<lambda>(row, db2).
          record_telemetry c cfg env row db2)) = Inr (x, db')"
    using assms by (auto simp: process_body_def res_bind_eq_Inr)
  have p1: "processed_ids db1 = insert (qe_event_id ev) (processed_ids db)"
    using 1 row_insert_ignore_keys[of pe_event_id ?r "processed_events db"]
    by (auto simp: execute_def insert_processed_def processed_ids_def split_beta split: option.splits if_splits)
  have k: "stmt_keeps (\<lambda>d. processed_ids d = processed_ids db1) (\<lambda>db. res_bind (execute (wk_db env) 1 (find_batch env (qe_aggregate_id ev)) db)
      (\<lambda>(row, db2). record_telemetry c cfg env row db2))"
    by (intro stmt_keeps_bind execute_keeps find_batch_keeps record_telemetry_processed)
  show ?thesis
  proof (cases new)
    case False
    with rest p1 show ?thesis by simp
  next
    case True
    with rest have "res_bind (execute (wk_db env) 1 (find_batch env (qe_aggregate_id ev)) db1) (\<lambda>(row, db2).
          record_telemetry c cfg env row db2) = Inr (x, db')"
      by (simp split: if_splits)
    from processed_after_rest[OF k _ this] p1 show ?thesis by simp
  qed
qed

lemma process_event_repeated:
  "qe_event_id ev \<in> processed_ids db \<Longrightarrow> fst (snd (process_event c cfg env mid ev db)) = db"
  unfolding process_event_db
  using session_begin_atomic[of "wk_db env" "process_body c cfg env mid ev" db] process_body_repeated by metis

lemma process_event_processed:
  "processed_ids (fst (snd (process_event c cfg env mid ev db))) \<in>
     {processed_ids db, insert (qe_event_id ev) (processed_ids db)}"
  unfolding process_event_db
  using session_begin_atomic[of "wk_db env" "process_body c cfg env mid ev" db]
  by (elim disjE exE) (simp, drule process_body_processed, simp)

lemma process_event_Inr_processed:
  assumes "process_event c cfg env mid ev db = (Inr (), db', cs)"
  shows "qe_event_id ev \<in> processed_ids db'"
proof -
  obtain created where "session_begin (wk_db env) (process_body c cfg env mid ev) db = (Inr created, db')"
    using assms by (auto simp: process_event_def split: prod.splits sum.splits)
  then have "process_body c cfg env mid ev db = Inr (created, db')" by (simp add: session_begin_Inr)
  from process_body_processed[OF this] show ?thesis by simp
qed

text \<open>A delivery to a worker: the settings and environment it meets, the message id and the event.\<close>

type_synonym delivery = "WorkerSettings \<times> worker_env \<times> string \<times> QueueEvent"

definition process_delivery :: "codec \<Rightarrow> delivery \<Rightarrow> database \<Rightarrow> database" where
  "process_delivery c = (\<lambda>(cfg, env, mid, ev) db. fst (snd (process_event c cfg env mid ev db)))"

interpretation processing: idempotent_receiver "process_delivery c" "\<lambda>(cfg, env, mid, ev). qe_event_id ev"
  processed_ids "\<lambda>db. db" "\<lambda>d. True" schema_ok for c
proof unfold_locales
  fix s and d :: delivery
  obtain cfg env mid ev where d: "d = (cfg, env, mid, ev)" by (metis prod_cases4)
  show "schema_ok s \<Longrightarrow> schema_ok (process_delivery c d s)"
    by (simp add: d process_delivery_def process_event_schema)
  show "(case d of (cfg, env, mid, ev) \<Rightarrow> qe_event_id ev) \<in> processed_ids s \<Longrightarrow> process_delivery c d s = s"
    by (simp add: d process_delivery_def process_event_repeated)
  show "processed_ids (process_delivery c d s) \<in>
      {processed_ids s, insert (case d of (cfg, env, mid, ev) \<Rightarrow> qe_event_id ev) (processed_ids s)}"
    using process_event_processed[of c cfg env mid ev s] by (simp add: d process_delivery_def)
qed simp

section \<open>Opening incidents\<close>

abbreviation dedup :: "TelemetryBatch \<Rightarrow> string \<Rightarrow> string \<times> string" where
  "dedup b ty \<equiv> (agent_id b @ '':'' @ ty, ''open'')"

abbreviation open_keys :: "database \<Rightarrow> (string \<times> string) set" where
  "open_keys db \<equiv> incident_key ` set (incidents db)"

definition crossed :: "(string \<times> pyfloat \<times> pyfloat) list \<Rightarrow> string list" where
  "crossed cs = map fst (filter (\<lambda>(ty, v, th). fle th v) cs)"

definition incident_fits :: "TelemetryBatch \<Rightarrow> string \<times> pyfloat \<times> pyfloat \<Rightarrow> bool" where
  "incident_fits b = (\<lambda>(ty, v, th). length ty \<le> 64 \<and> length (agent_id b) \<le> 128 \<and> is_finite v \<and> is_finite th)"

lemma fits_incident_row: "incident_fits b (ty, v, th) \<Longrightarrow> fits_incident (incident_row now iid b ty v th)"
  by (simp add: incident_fits_def fits_incident_def incident_row_def varchar_def del: finite_json.simps(1))

lemma incident_row_key [simp]: "incident_key (incident_row now iid b ty v th) = dedup b ty"
  "in_incident_id (incident_row now iid b ty v th) = iid" "in_agent_id (incident_row now iid b ty v th) = agent_id b"
  by (simp_all add: incident_row_def incident_key_def)

text \<open>
  What the loop over the conditions does: one open incident for every crossed threshold that had
  none, the others untouched, and the list of the types opened.
\<close>

definition incidents_opened :: "TelemetryBatch \<Rightarrow> string list \<Rightarrow> string list \<Rightarrow> database \<Rightarrow> database \<Rightarrow> bool" where
  "incidents_opened b tys created db db' \<longleftrightarrow>
     db' = db\<lparr>incidents := incidents db'\<rparr> \<and>
     created = filter (\<lambda>ty. dedup b ty \<notin> open_keys db) tys \<and>
     (\<exists>new. incidents db' = incidents db @ new \<and> map incident_key new = map (dedup b) created)"

lemma open_incidents_ok:
  assumes "\<forall>k. stmt_fault (wk_db env) k = None" and "agent_id b \<in> ag_agent_id ` set (agents db)"
    and "\<forall>x \<in> set cs. incident_fits b x" and "distinct (map fst cs)"
    and "distinct (map (\<lambda>x. wk_incident_ids env (fst x)) cs)"
    and "\<forall>x \<in> set cs. wk_incident_ids env (fst x) \<notin> in_incident_id ` set (incidents db)"
  shows "\<exists>created db'. open_incidents env b k cs db = Inr (created, db') \<and> incidents_opened b (crossed cs) created db db'"
  using assms(2-)
proof (induction cs arbitrary: k db)
  case Nil
  then show ?case by (simp add: incidents_opened_def crossed_def)
next
  case (Cons x cs)
  obtain ty v th where x: "x = (ty, v, th)" by (metis prod_cases3)
  let ?r = "incident_row (txn_now (wk_db env)) (wk_incident_ids env ty) b ty v th"
  show ?case
  proof (cases "fle th v")
    case False
    have "crossed (x # cs) = crossed cs" using False by (simp add: crossed_def x)
    with False Cons.IH[of db "Suc k"] Cons.prems show ?thesis by (simp add: x)
  next
    case True
    have cr: "crossed (x # cs) = ty # crossed cs" using True by (simp add: crossed_def x)
    have not_in: "ty \<notin> set (crossed cs)" using Cons.prems(3) by (auto simp: x crossed_def)
    let ?new = "dedup b ty \<notin> open_keys db"
    let ?db1 = "if ?new then db\<lparr>incidents := incidents db @ [?r]\<rparr> else db"
    have "fits_incident ?r" using Cons.prems(2) by (intro fits_incident_row) (simp add: x)
    then have 1: "insert_incident ?r db = Inr (?new, ?db1)"
      using Cons.prems(1,5) by (auto simp: insert_incident_def row_insert_ignore_def x)
    have "\<exists>created db'. open_incidents env b (Suc k) cs ?db1 = Inr (created, db') \<and>
        incidents_opened b (crossed cs) created ?db1 db'"
    proof (intro Cons.IH)
      have "wk_incident_ids env (fst y) \<noteq> wk_incident_ids env ty" if "y \<in> set cs" for y
        using Cons.prems(4) that unfolding x by (metis (mono_tags, lifting) distinct.simps(2) fst_conv image_eqI list.map(2) set_map)
      then show "\<forall>y \<in> set cs. wk_incident_ids env (fst y) \<notin> in_incident_id ` set (incidents ?db1)"
        using Cons.prems(5) by simp
    qed (use Cons.prems in \<open>simp_all add: x\<close>)
    then obtain created db' where 2: "open_incidents env b (Suc k) cs ?db1 = Inr (created, db')"
      "incidents_opened b (crossed cs) created ?db1 db'" by blast
    have same: "filter (\<lambda>t. dedup b t \<notin> open_keys ?db1) (crossed cs) = filter (\<lambda>t. dedup b t \<notin> open_keys db) (crossed cs)"
      using not_in by (intro filter_cong) auto
    have "open_incidents env b k (x # cs) db = Inr (if ?new then ty # created else created, db')"
      using True 1 2(1) assms(1) by (simp add: x execute_def)
    moreover have "incidents_opened b (crossed (x # cs)) (if ?new then ty # created else created) db db'"
      using 2(2) same unfolding incidents_opened_def cr by (cases ?new) auto
    ultimately show ?thesis by blast
  qed
qed

section \<open>What a processed event does\<close>

lemma latest_sample_ok:
  assumes "wf_batch b"
  obtains s where "latest_sample b = Inr s" and "s \<in> set (samples b)" and "wf_sample s"
    and "\<forall>x \<in> set (samples b). instant (observed_at x) \<le> instant (observed_at s)"
proof -
  obtain s where s: "first_max (\<lambda>x y. earlier (observed_at x) (observed_at y)) (samples b) = Some s"
    using wf_batch_nonempty[OF assms] by (metis first_max_None option.exhaust)
  have "s \<in> set (samples b)" by (rule first_max_in [OF s])
  moreover have "\<forall>x \<in> set (samples b). instant (observed_at x) \<le> instant (observed_at s)"
    using first_max_ge[of "\<lambda>x. instant (observed_at x)" "samples b" s] s by (simp add: earlier_def)
  moreover have "wf_sample s" using assms \<open>s \<in> set (samples b)\<close> by (simp add: wf_batch_def list_all_iff)
  ultimately show thesis using that s by (simp add: latest_sample_def)
qed

lemma max_disk_percent_ok:
  assumes "wf_sample s"
  obtains d where "max_disk_percent s = Inr d" and "d \<in> disk_used_percent ` set (disks s)"
    and "\<forall>x \<in> set (disks s). fle (disk_used_percent x) d"
proof -
  let ?ds = "map disk_used_percent (disks s)"
  have ne: "?ds \<noteq> []" using assms by (auto simp: wf_sample_def)
  have nn: "d \<noteq> NaN" if "d \<in> set ?ds" for d
    using that assms by (auto simp: wf_sample_def list_all_iff wf_disk_def percentage_def)
  obtain d where d: "first_max flt ?ds = Some d" using ne by (metis first_max_None option.exhaust)
  have "first_max (<) ?ds = first_max flt ?ds" using nn by (intro first_max_cong) (simp add: less_pyfloat_flt)
  then have lt: "first_max (\<lambda>a b. (\<lambda>x. x) a < (\<lambda>x. x) b) ?ds = Some d" using d by simp
  have "d \<in> set ?ds" by (rule first_max_in [OF d])
  moreover have "fle x d" if "x \<in> set ?ds" for x
    using first_max_ge[OF lt that] nn[OF that] nn[OF \<open>d \<in> set ?ds\<close>] by (simp add: less_eq_pyfloat_fle)
  ultimately show thesis using that[of d] d by (auto simp: max_disk_percent_def)
qed

lemma row_upsert_lookup:
  assumes "keyed key rows" and "\<And>x. key (f x) = key x"
  shows "row_lookup key (row_upsert key r f rows) k =
    (if k = key r then Some (case row_lookup key rows k of None \<Rightarrow> r | Some x \<Rightarrow> f x) else row_lookup key rows k)"
  using assms(1)
proof (induction rows)
  case Nil
  then show ?case by (auto simp: row_upsert_def row_lookup_def)
next
  case (Cons x xs)
  have upd: "map (\<lambda>y. if key y = key r then f y else y) xs = xs" if "key x = key r"
    using Cons.prems that by (intro map_idI) (auto simp: image_iff)
  show ?case
    using Cons upd assms(2) by (auto simp: row_upsert_def row_update_def row_lookup_def)
qed

text \<open>An environment in which no call raises, and PostgreSQL reads a UUID's text as that UUID.\<close>

definition calm :: "worker_env \<Rightarrow> bool" where
  "calm env \<longleftrightarrow> (\<forall>k. stmt_fault (wk_db env) k = None) \<and> commit_end (wk_db env) = Committed \<and>
     (\<forall>k. wk_redis_fault env k = None) \<and> (\<forall>u. pg_uuid env (uuid_str u) = Some u)"

definition fresh_incident_ids :: "worker_env \<Rightarrow> database \<Rightarrow> bool" where
  "fresh_incident_ids env db \<longleftrightarrow>
     wk_incident_ids env ''high_cpu'' \<noteq> wk_incident_ids env ''high_memory'' \<and>
     wk_incident_ids env ''high_cpu'' \<notin> in_incident_id ` set (incidents db) \<and>
     wk_incident_ids env ''high_memory'' \<notin> in_incident_id ` set (incidents db)"

definition fits_names :: "WorkerSettings \<Rightarrow> string \<Rightarrow> bool" where
  "fits_names cfg mid \<longleftrightarrow> length mid \<le> 64 \<and> length (consumer_name cfg) \<le> 128"

definition accepted_type :: string where
  "accepted_type = ''telemetry.batch.accepted.v1''"

text \<open>The effect of one event, for the batch \<open>b\<close> it refers to.\<close>

definition event_effect :: "WorkerSettings \<Rightarrow> TelemetryBatch \<Rightarrow> database \<Rightarrow> database \<Rightarrow> string list \<Rightarrow> bool" where
  "event_effect cfg b db db' created \<longleftrightarrow> same_ingested db db' \<and>
     (\<exists>s d st. s \<in> set (samples b) \<and> (\<forall>x \<in> set (samples b). instant (observed_at x) \<le> instant (observed_at s)) \<and>
        d \<in> disk_used_percent ` set (disks s) \<and> (\<forall>x \<in> set (disks s). fle (disk_used_percent x) d) \<and>
        (\<forall>a. a \<noteq> agent_id b \<longrightarrow> row_lookup fs_agent_id (fleet_state db') a = row_lookup fs_agent_id (fleet_state db) a) \<and>
        row_lookup fs_agent_id (fleet_state db') (agent_id b) = Some st \<and> fs_last_batch_id st = batch_id b \<and>
        fs_observed_at st = observed_at s \<and> fs_cpu_percent st = cpu_percent s \<and>
        fs_memory_percent st = mem_used_percent (memory s) \<and> fs_disk_percent st = d \<and>
        created = filter (\<lambda>ty. dedup b ty \<notin> open_keys db) (crossed (conditions cfg s)) \<and>
        open_keys db' = open_keys db \<union> dedup b ` set (crossed (conditions cfg s)) \<and>
        length (incidents db') = length (incidents db) + length created)"

lemma conditions_fit:
  assumes "wf_batch b" and "wf_sample s"
  shows "\<forall>x \<in> set (conditions cfg s). incident_fits b x"
  using assms agent_id_ok_length[of "agent_id b"]
  by (simp add: conditions_def incident_fits_def wf_batch_def wf_sample_def wf_memory_def) (simp add: is_finite_def)

lemma record_telemetry_ok:
  assumes "codec_ok c" and "calm env" and "fresh_incident_ids env db" and "schema_ok db"
    and "wf_batch b" and "tb_payload row = dump_batch c b" and "agent_id b \<in> ag_agent_id ` set (agents db)"
  shows "\<exists>created db'. record_telemetry c cfg env row db = Inr (created, db') \<and> event_effect cfg b db db' created \<and>
    processed_events db' = processed_events db"
proof -
  obtain s where s: "latest_sample b = Inr s" "s \<in> set (samples b)" "wf_sample s"
    "\<forall>x \<in> set (samples b). instant (observed_at x) \<le> instant (observed_at s)"
    using latest_sample_ok[OF assms(5)] by metis
  obtain d where d: "max_disk_percent s = Inr d" "d \<in> disk_used_percent ` set (disks s)"
    "\<forall>x \<in> set (disks s). fle (disk_used_percent x) d"
    using max_disk_percent_ok[OF s(3)] by metis
  let ?r = "fleet_row (txn_now (wk_db env)) b s d"
  let ?fs = "row_upsert fs_agent_id ?r (fleet_update ?r) (fleet_state db)"
  let ?db1 = "db\<lparr>fleet_state := ?fs\<rparr>"
  have key: "fs_agent_id ?r = agent_id b" by (simp add: fleet_row_def)
  have "length (agent_id b) \<le> 128" using assms(5) agent_id_ok_length by (simp add: wf_batch_def)
  then have 1: "upsert_fleet_state ?r (fleet_update ?r) db = Inr ((), ?db1)"
    using assms(7) by (simp add: upsert_fleet_state_def fits_fleet_state_def varchar_def key)
  have "distinct (map fst (conditions cfg s))" "distinct (map (\<lambda>x. wk_incident_ids env (fst x)) (conditions cfg s))"
    "\<forall>x \<in> set (conditions cfg s). wk_incident_ids env (fst x) \<notin> in_incident_id ` set (incidents ?db1)"
    using assms(3) by (simp_all add: conditions_def fresh_incident_ids_def)
  then obtain created db' where 2: "open_incidents env b 3 (conditions cfg s) ?db1 = Inr (created, db')"
    "incidents_opened b (crossed (conditions cfg s)) created ?db1 db'"
    using open_incidents_ok[of env b ?db1 "conditions cfg s" 3] assms(2,7) conditions_fit[OF assms(5) s(3)]
    by (auto simp: calm_def)
  obtain new where new: "db' = ?db1\<lparr>incidents := incidents db'\<rparr>" "incidents db' = incidents db @ new"
    "created = filter (\<lambda>ty. dedup b ty \<notin> open_keys db) (crossed (conditions cfg s))"
    "map incident_key new = map (dedup b) created"
    using 2(2) by (auto simp: incidents_opened_def)
  have look: "row_lookup fs_agent_id ?fs a = (if a = agent_id b
      then Some (case row_lookup fs_agent_id (fleet_state db) a of None \<Rightarrow> ?r | Some x \<Rightarrow> fleet_update ?r x)
      else row_lookup fs_agent_id (fleet_state db) a)" for a
    using row_upsert_lookup[of fs_agent_id "fleet_state db" "fleet_update ?r" ?r a] assms(4) key
    by (simp add: schema_ok_def)
  have keys: "open_keys db' = open_keys db \<union> dedup b ` set (crossed (conditions cfg s))"
  proof -
    have "incident_key ` set new = dedup b ` set created" using arg_cong[OF new(4), of set] by simp
    then show ?thesis unfolding new(2) set_append image_Un using new(3) by auto
  qed
  have len: "length (incidents db') = length (incidents db) + length created"
    using new(2,4) by (metis length_append length_map)
  have "fleet_state db' = fleet_state (?db1\<lparr>incidents := incidents db'\<rparr>)"
    "processed_events db' = processed_events (?db1\<lparr>incidents := incidents db'\<rparr>)"
    "same_ingested db (?db1\<lparr>incidents := incidents db'\<rparr>) \<longleftrightarrow> same_ingested db db'"
    using new(1) by metis+
  then have frame: "fleet_state db' = ?fs" "processed_events db' = processed_events db" "same_ingested db db'"
    by (simp_all add: same_ingested_def)
  let ?st = "case row_lookup fs_agent_id (fleet_state db) (agent_id b) of None \<Rightarrow> ?r | Some x \<Rightarrow> fleet_update ?r x"
  have st: "fs_last_batch_id ?st = batch_id b" "fs_observed_at ?st = observed_at s" "fs_cpu_percent ?st = cpu_percent s"
    "fs_memory_percent ?st = mem_used_percent (memory s)" "fs_disk_percent ?st = d"
    by (simp_all add: fleet_row_def fleet_update_def split: option.split)
  have "event_effect cfg b db db' created"
    unfolding event_effect_def
    using frame look st s d new(3) keys len by (intro conjI exI[of _ s] exI[of _ d] exI[of _ ?st]) simp_all
  moreover have "record_telemetry c cfg env row db = Inr (created, db')"
    using assms(2) 1 2(1) s(1) d(1) validate_dump_batch[OF assms(1,5)]
    by (simp add: record_telemetry_def assms(6) execute_def calm_def)
  ultimately show ?thesis using frame(2) by blast
qed

lemma process_event_ok:
  assumes "codec_ok c" and "calm env" and "fresh_incident_ids env db" and "fits_names cfg mid" and "schema_ok db"
    and "row \<in> set (telemetry_batches db)" and "wf_batch b" and "tb_batch_id row = batch_id b"
    and "tb_agent_id row = agent_id b" and "tb_payload row = dump_batch c b"
    and "qe_event_type ev = accepted_type" and "qe_aggregate_id ev = uuid_str (batch_id b)"
    and "qe_event_id ev \<notin> processed_ids db"
  shows "\<exists>created db'. process_event c cfg env mid ev db = (Inr (), db', map (\<lambda>ty. (''incidents'', ty)) created) \<and>
    event_effect cfg b db db' created \<and> processed_ids db' = insert (qe_event_id ev) (processed_ids db)"
proof -
  let ?p = "\<lparr>pe_event_id = qe_event_id ev, pe_stream_message_id = mid, pe_consumer_name = consumer_name cfg,
         pe_processed_at = txn_now (wk_db env)\<rparr>"
  let ?db1 = "db\<lparr>processed_events := processed_events db @ [?p]\<rparr>"
  have 1: "insert_processed ?p db = Inr (True, ?db1)"
    using assms(4,13) by (simp add: insert_processed_def fits_processed_def varchar_def fits_names_def
        row_insert_ignore_def processed_ids_def)
  have "row_lookup tb_batch_id (telemetry_batches db) (batch_id b) = Some row"
    using assms(5,6,8) by (simp add: row_lookup_Some schema_ok_def)
  then have 2: "find_batch env (qe_aggregate_id ev) ?db1 = Inr (row, ?db1)"
    using assms(2,12) by (simp add: find_batch_def calm_def)
  have "agent_id b \<in> ag_agent_id ` set (agents db)" using assms(5,6,9) unfolding schema_ok_def by (metis image_eqI subsetD)
  moreover have "schema_ok ?db1" using assms(5,13) by (auto simp: schema_ok_def processed_ids_def)
  moreover have "fresh_incident_ids env ?db1" using assms(3) by (simp add: fresh_incident_ids_def)
  ultimately obtain created db' where 3: "record_telemetry c cfg env row ?db1 = Inr (created, db')"
    "event_effect cfg b ?db1 db' created" "processed_events db' = processed_events ?db1"
    using record_telemetry_ok[OF assms(1,2) _ _ assms(7,10), of ?db1 cfg] by auto
  have body: "process_body c cfg env mid ev db = Inr (created, db')"
    using assms(2,11) 1 2 3(1) by (simp add: process_body_def execute_def calm_def accepted_type_def)
  have "event_effect cfg b db db' created"
    using 3(2) by (simp add: event_effect_def same_ingested_def)
  moreover have "processed_ids db' = insert (qe_event_id ev) (processed_ids db)"
    by (rule process_body_processed [OF body])
  moreover have "process_event c cfg env mid ev db = (Inr (), db', map (\<lambda>ty. (''incidents'', ty)) created)"
    using body assms(2) by (simp add: process_event_def session_begin_def calm_def)
  ultimately show ?thesis by blast
qed

section \<open>Acknowledgement\<close>

definition pending_ids :: "redis_state \<Rightarrow> string set" where
  "pending_ids rs = fst ` set (pending rs)"

definition dead_lettered :: "worker_state \<Rightarrow> string set" where
  "dead_lettered st = dl_stream_message_id ` set (dead_letters (wdb st))"

lemma xack_pending [simp]: "pending_ids (xack mid rs) = pending_ids rs - {mid}"
  by (auto simp: pending_ids_def xack_def)

lemma redis_call_cases:
  "redis_call env k f st = (r, st') \<Longrightarrow>
     (wk_redis_fault env k = None \<and> r = Inr () \<and> st' = st\<lparr>wredis := f (wredis st)\<rparr>) \<or>
     (\<exists>e. wk_redis_fault env k = Some e \<and> r = Inl e \<and> st' = st)"
  by (auto simp: redis_call_def split: option.splits)

lemma then_do_cases:
  assumes "then_do x f = (r, st')"
  obtains e where "x = (Inl e, st')" and "r = Inl e"
  | st where "x = (Inr (), st)" and "f st = (r, st')"
  using assms by (cases x; cases "fst x") (auto simp: then_do_def)

text \<open>The try block: the pending list changes only after the event is in \<open>processed_events\<close>.\<close>

lemma try_message_pending:
  assumes "try_message c cfg env mid f st = (r, st')"
  shows "pending (wredis st') = pending (wredis st) \<or>
    (\<exists>ev. decode_event c f = Inr ev \<and> qe_event_id ev \<in> processed_ids (wdb st') \<and> r = Inr () \<and>
      pending (wredis st') = pending (xack mid (wredis st)))"
proof (cases "decode_event c f")
  case (Inl e)
  with assms show ?thesis by (simp add: try_message_def)
next
  case (Inr ev)
  obtain p db' cs where p: "process_event c cfg env mid ev (wdb st) = (p, db', cs)" by (metis prod_cases3)
  show ?thesis
  proof (cases p)
    case (Inl e)
    with assms Inr p show ?thesis by (auto simp: try_message_def then_do_def)
  next
    case p_ok: (Inr u)
    then have seen_ev: "qe_event_id ev \<in> processed_ids db'" using process_event_Inr_processed p by (metis (full_types) old.unit.exhaust)
    show ?thesis
      using assms Inr p p_ok seen_ev
      by (auto simp: try_message_def then_do_def redis_call_def xack_def split: option.splits)
  qed
qed

lemma try_message_db:
  assumes "try_message c cfg env mid f st = (r, st')"
  shows "wdb st' = wdb st \<or> (\<exists>ev. decode_event c f = Inr ev \<and> wdb st' = fst (snd (process_event c cfg env mid ev (wdb st))))"
  using assms
  by (auto simp: try_message_def then_do_def redis_call_def split: sum.splits prod.splits option.splits)

lemma dead_letter_pending:
  assumes "dead_letter env mid f err n st = (r, st')"
  shows "pending (wredis st') = pending (wredis st) \<or>
    (mid \<in> dead_lettered st' \<and> pending (wredis st') = pending (xack mid (wredis st)))"
proof -
  let ?row = "\<lparr>dl_stream_message_id = mid, dl_event_id = (case map_of f ''event_id'' of None \<Rightarrow> ''unknown'' | Some x \<Rightarrow> x),
              dl_error_type = error_name err, dl_attempts = n,
              dl_payload = JObj (map (\<lambda>(k, v). (k, JStr v)) f), dl_created_at = txn_now (wk_dead_letter_db env)\<rparr>"
  obtain t db' where t: "session_begin (wk_dead_letter_db env) (execute (wk_dead_letter_db env) 0 (insert_dead_letter ?row)) (wdb st) = (t, db')"
    by fastforce
  have "mid \<in> dl_stream_message_id ` set (dead_letters db')" if "t = Inr ()"
  proof -
    have "insert_dead_letter ?row (wdb st) = Inr ((), db')"
      using t that by (auto simp: session_begin_Inr execute_def split: option.splits)
    then show ?thesis
      using row_insert_ignore_keys[of dl_stream_message_id ?row "dead_letters (wdb st)"]
      by (auto simp: insert_dead_letter_def split: if_splits)
  qed
  then show ?thesis
    using assms t
    by (cases t) (auto simp: dead_letter_def then_do_def redis_call_def dead_lettered_def xack_def
        split: option.splits)
qed

lemma dead_letter_wredis_entries: "dead_letter env mid f err n st = (r, st') \<Longrightarrow>
  entries (wredis st') = entries (wredis st) \<and> group_read (wredis st') = group_read (wredis st) \<and>
  processed_ids (wdb st') = processed_ids (wdb st)"
  by (auto simp: dead_letter_def then_do_def redis_call_def xack_def processed_ids_def session_begin_def
      execute_def insert_dead_letter_def split: option.splits sum.splits prod.splits commit_outcome.splits if_splits)

text \<open>Removing a message from the pending list needs one of the two records.\<close>

lemma handle_message_pending:
  assumes "handle_message c cfg env mid f st = (r, st', logs)"
  shows "pending (wredis st') = pending (wredis st) \<or> pending (wredis st') = pending (xack mid (wredis st)) \<and>
    ((\<exists>ev. decode_event c f = Inr ev \<and> qe_event_id ev \<in> processed_ids (wdb st')) \<or> mid \<in> dead_lettered st')"
proof -
  obtain t st1 where t: "try_message c cfg env mid f st = (t, st1)" by fastforce
  note p = try_message_pending[OF t]
  show ?thesis
  proof (cases "t = Inr () \<or> (\<exists>e. t = Inl e \<and> st' = st1)")
    case True
    then have "st' = st1" using assms t by (auto simp: handle_message_def Let_def)
    with p show ?thesis by auto
  next
    case False
    then obtain e where e: "t = Inl e" "st' \<noteq> st1" by (cases t) auto
    then have "pending (wredis st1) = pending (wredis st)" using p by auto
    moreover obtain n r' where "dead_letter env mid f e n st1 = (r', st')"
      using assms t e by (auto simp: handle_message_def Let_def split: if_splits option.splits prod.splits sum.splits)
    ultimately show ?thesis using dead_letter_pending[of env mid f e n st1 r' st'] by (auto simp: xack_def)
  qed
qed

section \<open>Properties\<close>

text \<open>
  C5: Processing an event for a stored batch, when no call raises, records the event and sets the agent's
  fleet state to the batch's latest sample, with the largest of its disk percentages; every crossed
  threshold has an open incident afterwards, a new one only if the agent had none of that type open,
  and every new incident is counted; no other agent's state and no ingested row changes.
\<close>

theorem process_event_effect:
  assumes "codec_ok c" and "calm env" and "fresh_incident_ids env db" and "fits_names cfg mid" and "schema_ok db"
    and "row \<in> set (telemetry_batches db)" and "wf_batch b" and "tb_batch_id row = batch_id b"
    and "tb_agent_id row = agent_id b" and "tb_payload row = dump_batch c b"
    and "qe_event_type ev = accepted_type" and "qe_aggregate_id ev = uuid_str (batch_id b)"
    and "qe_event_id ev \<notin> processed_ids db"
  shows "\<exists>created db'. process_event c cfg env mid ev db = (Inr (), db', map (\<lambda>ty. (''incidents'', ty)) created) \<and>
    event_effect cfg b db db' created \<and> schema_ok db' \<and>
    processed_ids db' = insert (qe_event_id ev) (processed_ids db)"
proof -
  obtain created db' where "process_event c cfg env mid ev db = (Inr (), db', map (\<lambda>ty. (''incidents'', ty)) created)"
    "event_effect cfg b db db' created" "processed_ids db' = insert (qe_event_id ev) (processed_ids db)"
    using process_event_ok[OF assms] by blast
  then show ?thesis using process_event_schema[OF assms(5), of c cfg env mid ev] by fastforce
qed

definition example_worker_env :: worker_env where
  "example_worker_env =
     \<lparr>wk_db = no_faults (utc_at 0), wk_incident_ids = (\<lambda>ty. if ty = ''high_cpu'' then 101 else 102),
      wk_redis_fault = (\<lambda>k. None), wk_dead_letter_db = no_faults (utc_at 0), pg_uuid = uuid_of_str\<rparr>"

lemma calm_example: "calm example_worker_env"
  by (simp add: calm_def example_worker_env_def no_faults_def)

definition example_event :: "uuid \<Rightarrow> TelemetryBatch \<Rightarrow> QueueEvent" where
  "example_event eid b = \<lparr>qe_event_id = eid, qe_event_type = accepted_type,
     qe_aggregate_id = uuid_str (batch_id b), qe_payload = []\<rparr>"

text \<open>A database in which one batch is stored, its agent registered.\<close>

definition example_db :: "TelemetryBatch \<Rightarrow> database" where
  "example_db b = empty_database\<lparr>
     agents := [\<lparr>ag_agent_id = agent_id b, ag_hostname = hostname b, ag_first_seen_at = utc_at 0, ag_last_seen_at = utc_at 0\<rparr>],
     telemetry_batches := [batch_row example_codec (utc_at 0) b (utc_at 0) (utc_at 0)]\<rparr>"

lemma schema_example_db: "schema_ok (example_db b)"
  by (simp add: schema_ok_def example_db_def empty_database_def batch_row_def)

definition example_worker :: WorkerSettings where
  "example_worker = default_worker_settings ''worker'' 0"

lemma fits_example_worker: "fits_names example_worker ''1-0''"
  by (simp add: fits_names_def example_worker_def default_worker_settings_def)

lemma fresh_example_db: "fresh_incident_ids example_worker_env (example_db b)"
  by (simp add: fresh_incident_ids_def example_worker_env_def example_db_def empty_database_def)

theorem process_event_effect_witness:
  "\<exists>created db'. process_event example_codec example_worker example_worker_env ''1-0'' (example_event 5 (example_batch 1 0 95))
      (example_db (example_batch 1 0 95)) = (Inr (), db', map (\<lambda>ty. (''incidents'', ty)) created) \<and>
    processed_ids db' = {5}"
proof -
  let ?b = "example_batch 1 0 95"
  have row: "batch_row example_codec (utc_at 0) ?b (utc_at 0) (utc_at 0) \<in> set (telemetry_batches (example_db ?b))"
    by (simp add: example_db_def)
  have "wf_batch ?b" by (rule wf_example_batch) simp_all
  moreover have none: "processed_ids (example_db ?b) = {}" by (simp add: processed_ids_def example_db_def empty_database_def)
  ultimately obtain created db' where "process_event example_codec example_worker example_worker_env ''1-0''
      (example_event 5 ?b) (example_db ?b) = (Inr (), db', map (\<lambda>ty. (''incidents'', ty)) created)"
    "processed_ids db' = insert (qe_event_id (example_event 5 ?b)) (processed_ids (example_db ?b))"
    using process_event_effect[OF example_codec_ok calm_example fresh_example_db fits_example_worker
        schema_example_db row, where b = ?b and ev = "example_event 5 ?b"]
    by (auto simp: batch_row_def example_event_def)
  then show ?thesis using none by (auto simp: example_event_def)
qed

text \<open>
  C14: At-least-once delivery from the stream gives at-most-once processing: in any sequence of
  deliveries, to any workers and under any faults, the deliveries of an event that has already been
  processed can be struck out without changing the database at all.
\<close>

theorem repeated_events_change_nothing:
  assumes "schema_ok db"
  shows "processing.deliver_all c ds db = processing.deliver_all c (processing.first_deliveries c ds db) db \<and>
    processing.deliver_all c ds db = fold (\<lambda>(cfg, env, mid, ev) s. fst (snd (process_event c cfg env mid ev s))) ds db \<and>
    schema_ok (processing.deliver_all c ds db)"
proof -
  have v: "list_all (\<lambda>d. True) ds" by (simp add: list_all_iff)
  have "processing.deliver_all c ds db = fold (process_delivery c) ds db"
    by (induction ds arbitrary: db) simp_all
  also have "\<dots> = fold (\<lambda>(cfg, env, mid, ev) s. fst (snd (process_event c cfg env mid ev s))) ds db"
    by (simp only: process_delivery_def)
  finally show ?thesis
    using processing.repetitions_do_nothing[OF assms v, where c = c] processing.deliver_all_invar[OF assms v, where c = c]
    by blast
qed

theorem repeated_events_change_nothing_witness:
  "schema_ok (processing.deliver_all example_codec
     [(example_worker, example_worker_env, ''1-0'', example_event 5 (example_batch 1 0 95)),
      (example_worker, example_worker_env, ''2-0'', example_event 5 (example_batch 1 0 95))] (example_db (example_batch 1 0 95)))"
  using repeated_events_change_nothing[OF schema_example_db] by blast

text \<open>
  C13: Under any faults, handling a message either leaves the pending list as it is or removes
  exactly that message from it, and it is removed only when its event is recorded as processed or
  the message is in the dead-letter table.
\<close>

theorem acknowledged_only_when_settled:
  assumes "handle_message c cfg env mid f st = (r, st', logs)" and "mid \<in> pending_ids (wredis st)"
    and "pending (wredis st') \<noteq> pending (wredis st)"
  shows "pending_ids (wredis st') = pending_ids (wredis st) - {mid} \<and>
    ((\<exists>ev. decode_event c f = Inr ev \<and> qe_event_id ev \<in> processed_ids (wdb st')) \<or> mid \<in> dead_lettered st')"
  using handle_message_pending[OF assms(1)] assms(3) xack_pending[of mid "wredis st"]
  by (auto simp: pending_ids_def)

definition example_worker_state :: worker_state where
  "example_worker_state =
     \<lparr>wdb = empty_database, wredis = empty_redis\<lparr>entries := [(''1-0'', [(''event_id'', ''x'')])],
        group_read := 1, pending := [(''1-0'', 3)]\<rparr>\<rparr>"

lemma example_dead_letter:
  "handle_message example_codec example_worker example_worker_env ''1-0'' [(''event_id'', ''x'')] example_worker_state =
   (Inr (), \<lparr>wdb = empty_database\<lparr>dead_letters := [\<lparr>dl_stream_message_id = ''1-0'', dl_event_id = ''x'',
       dl_error_type = ''KeyError'', dl_attempts = 3, dl_payload = JObj [(''event_id'', JStr ''x'')], dl_created_at = utc_at 0\<rparr>]\<rparr>,
     wredis = (wredis example_worker_state)\<lparr>pending := [],
       dead_letter_entries := [dlq_fields ''1-0'' [(''event_id'', ''x'')] (KeyError ''event_type'')]\<rparr>\<rparr>,
    [(''event_dead_lettered'', ''x'')])"
  by (simp add: handle_message_def try_message_def decode_event_def get_item_def retryable_def example_worker_env_def
      example_worker_state_def delivery_attempts_def example_worker_def default_worker_settings_def dead_letter_def
      then_do_def redis_call_def session_begin_def execute_def no_faults_def insert_dead_letter_def
      fits_dead_letter_def varchar_def integer_column_def row_insert_ignore_def xack_def empty_redis_def
      empty_database_def message_correlation_id_def Let_def)

theorem acknowledged_only_when_settled_witness:
  "\<exists>r st' logs. handle_message example_codec example_worker example_worker_env ''1-0'' [(''event_id'', ''x'')]
     example_worker_state = (r, st', logs) \<and> pending_ids (wredis st') = {} \<and> ''1-0'' \<in> dead_lettered st'"
proof -
  have "''1-0'' \<in> pending_ids (wredis example_worker_state)"
    by (simp add: pending_ids_def example_worker_state_def empty_redis_def)
  from acknowledged_only_when_settled[OF example_dead_letter this] show ?thesis
    using example_dead_letter
    by (auto simp: pending_ids_def example_worker_state_def empty_redis_def decode_event_def get_item_def)
qed

lemma decode_event_retryable:
  assumes "decode_event c f = Inl e"
  shows "retryable e \<and> length (error_name e) \<le> 128"
proof -
  have "e = ValidationError \<or> (\<exists>k. e = KeyError k) \<or> e = JSONDecodeError"
    using assms by (auto simp: decode_event_def get_item_def res_bind_def res_of_eq_Inl split: sum.split_asm)
  then show ?thesis by (auto simp: retryable_def)
qed

lemma finite_members_strings: "finite_members (map (\<lambda>(k, v). (k, JStr v)) f)"
  by (induction f) auto



text \<open>
  An event for a batch that is not in the table is never moved aside: however often it has been
  delivered, handling it raises \<open>NoResultFound\<close> out of the handler, which ends the worker, and
  leaves the message pending and every table as it was.
\<close>

theorem unknown_batch_stops_worker:
  assumes "decode_event c f = Inr ev" and "calm env" and "fits_names cfg mid"
    and "qe_event_type ev = accepted_type" and "qe_event_id ev \<notin> processed_ids (wdb st)"
    and "qe_aggregate_id ev = uuid_str u" and "u \<notin> tb_batch_id ` set (telemetry_batches (wdb st))"
  shows "handle_message c cfg env mid f st = (Inl NoResultFound, st, [])"
proof -
  have "row_lookup tb_batch_id (telemetry_batches (wdb st)) u = None" using assms(7) by (simp add: row_lookup_None)
  then have "process_body c cfg env mid ev (wdb st) = Inl NoResultFound"
    using assms(2-6) by (simp add: process_body_def execute_def calm_def insert_processed_def fits_processed_def
        varchar_def fits_names_def row_insert_ignore_def processed_ids_def accepted_type_def find_batch_def)
  then have "try_message c cfg env mid f st = (Inl NoResultFound, st)"
    using assms(1) by (simp add: try_message_def process_event_def session_begin_def then_do_def)
  then show ?thesis by (simp add: handle_message_def retryable_def Let_def)
qed

definition example_fields :: "uuid \<Rightarrow> uuid \<Rightarrow> fields" where
  "example_fields eid bid = [(''event_id'', uuid_str eid), (''event_type'', accepted_type),
     (''aggregate_id'', uuid_str bid), (''payload'', ''{}'')]"

lemma decode_example_fields: "decode_event example_codec (example_fields 5 9) =
  Inr \<lparr>qe_event_id = 5, qe_event_type = accepted_type, qe_aggregate_id = uuid_str 9, qe_payload = []\<rparr>"
proof -
  have "loads ''{}'' = Some (JObj [])" by code_simp
  then show ?thesis
    by (simp add: decode_event_def get_item_def example_fields_def validate_queue_event_def field_def
        string_dict_def example_codec_def)
qed

theorem unknown_batch_stops_worker_witness:
  "handle_message example_codec example_worker example_worker_env ''1-0'' (example_fields 5 9) example_worker_state =
     (Inl NoResultFound, example_worker_state, [])"
  by (rule unknown_batch_stops_worker [OF decode_example_fields calm_example fits_example_worker, of _ 9])
     (simp_all add: example_worker_state_def processed_ids_def empty_database_def)

text \<open>
  The fleet state follows the order of processing, not of observation: when a batch older than the
  agent's recorded state is processed after it, the state moves back in time to the older batch.
\<close>

theorem late_batch_overwrites_newer_state:
  assumes "codec_ok c" and "calm env" and "fresh_incident_ids env db" and "fits_names cfg mid" and "schema_ok db"
    and "row \<in> set (telemetry_batches db)" and "wf_batch b" and "tb_batch_id row = batch_id b"
    and "tb_agent_id row = agent_id b" and "tb_payload row = dump_batch c b"
    and "qe_event_type ev = accepted_type" and "qe_aggregate_id ev = uuid_str (batch_id b)"
    and "qe_event_id ev \<notin> processed_ids db"
    and "row_lookup fs_agent_id (fleet_state db) (agent_id b) = Some newer"
    and "\<forall>s \<in> set (samples b). instant (observed_at s) < instant (fs_observed_at newer)"
  shows "\<exists>db' cs st. process_event c cfg env mid ev db = (Inr (), db', cs) \<and>
    row_lookup fs_agent_id (fleet_state db') (agent_id b) = Some st \<and> fs_last_batch_id st = batch_id b \<and>
    instant (fs_observed_at st) < instant (fs_observed_at newer)"
proof -
  obtain created db' where p: "process_event c cfg env mid ev db = (Inr (), db', map (\<lambda>ty. (''incidents'', ty)) created)"
    "event_effect cfg b db db' created"
    using process_event_ok[OF assms(1-13)] by blast
  then show ?thesis using assms(15) unfolding event_effect_def by metis
qed

theorem late_batch_overwrites_newer_state_witness:
  "\<exists>db' cs st. process_event example_codec example_worker example_worker_env ''1-0'' (example_event 5 (example_batch 1 0 10))
      ((example_db (example_batch 1 0 10))\<lparr>fleet_state := [\<lparr>fs_agent_id = ''test-agent'', fs_last_batch_id = 2,
         fs_observed_at = utc_at 7, fs_cpu_percent = Fin 1, fs_memory_percent = Fin 1, fs_disk_percent = Fin 1,
         fs_updated_at = utc_at 7\<rparr>]\<rparr>) = (Inr (), db', cs) \<and>
    row_lookup fs_agent_id (fleet_state db') ''test-agent'' = Some st \<and> instant (fs_observed_at st) < 7"
proof -
  let ?b = "example_batch 1 0 10"
  let ?n = "\<lparr>fs_agent_id = ''test-agent'', fs_last_batch_id = 2, fs_observed_at = utc_at 7, fs_cpu_percent = Fin 1,
         fs_memory_percent = Fin 1, fs_disk_percent = Fin 1, fs_updated_at = utc_at 7\<rparr>"
  let ?db = "(example_db ?b)\<lparr>fleet_state := [?n]\<rparr>"
  have aid: "agent_id ?b = ''test-agent''" by (simp add: example_batch_def)
  have s: "schema_ok ?db" using schema_example_db[of ?b] by (simp add: schema_ok_def example_db_def aid)
  have fr: "fresh_incident_ids example_worker_env ?db"
    using fresh_example_db[of ?b] by (simp add: fresh_incident_ids_def)
  have row: "batch_row example_codec (utc_at 0) ?b (utc_at 0) (utc_at 0) \<in> set (telemetry_batches ?db)"
    by (simp add: example_db_def)
  have wf: "wf_batch ?b" by (rule wf_example_batch) simp_all
  have "processed_ids ?db = {}" by (simp add: processed_ids_def example_db_def empty_database_def)
  moreover have "row_lookup fs_agent_id (fleet_state ?db) (agent_id ?b) = Some ?n" by (simp add: row_lookup_def aid)
  moreover have "\<forall>s \<in> set (samples ?b). instant (observed_at s) < instant (fs_observed_at ?n)"
    by (simp add: example_batch_def example_sample_def)
  ultimately show ?thesis
    using late_batch_overwrites_newer_state[OF example_codec_ok calm_example fr fits_example_worker s row wf,
        of "example_event 5 ?b" ?n]
    by (auto simp: batch_row_def example_event_def aid)
qed

end
