(* ===== verification/Pipeline.thy ===== *)
theory Pipeline
  imports Processing
begin

text \<open>
  The pipeline as a whole: ingestion, relay and workers over one database and one stream, as a step
  relation. Every step may meet driver faults at any of its calls; the order of the steps is
  arbitrary. The invariant of the reachable states shows that no accepted batch is lost
  between the database, the stream and the processed state.
\<close>

section \<open>Steps\<close>

text \<open>The errors a database or Redis driver raises are not \<open>ValueError\<close>s or \<open>KeyError\<close>s.\<close>

definition driver_db :: "db_env \<Rightarrow> bool" where
  "driver_db env \<longleftrightarrow> (\<forall>k e. stmt_fault env k = Some e \<longrightarrow> \<not> retryable e) \<and>
     (case commit_end env of Committed \<Rightarrow> True | CommitRefused e \<Rightarrow> \<not> retryable e | CommitUnknown e \<Rightarrow> \<not> retryable e)"

definition driver_faults :: "worker_env \<Rightarrow> bool" where
  "driver_faults env \<longleftrightarrow> driver_db (wk_db env) \<and> (\<forall>k e. wk_redis_fault env k = Some e \<longrightarrow> \<not> retryable e) \<and>
     (\<forall>u. pg_uuid env (uuid_str u) = Some u)"

text \<open>Redis gives every entry a new id.\<close>

definition fresh_messages :: "relay_env \<Rightarrow> redis_state \<Rightarrow> bool" where
  "fresh_messages env rs \<longleftrightarrow> inj (rel_message_id env) \<and> (\<forall>k. rel_message_id env k \<notin> fst ` set (entries rs))"

inductive pipeline_step :: "codec \<Rightarrow> (pyfloat \<Rightarrow> string) \<Rightarrow> worker_state \<Rightarrow> worker_state \<Rightarrow> bool" for c fr where
  ingest: "wf_batch b \<Longrightarrow> finite_batch b \<Longrightarrow>
    pipeline_step c fr st (st\<lparr>wdb := fst (snd (ingest_batch c env b (wdb st)))\<rparr>)"
| publish: "fresh_messages env (wredis st) \<Longrightarrow> publish_once fr env (wdb st) (wredis st) = (r, db', rs') \<Longrightarrow>
    pipeline_step c fr st \<lparr>wdb = db', wredis = rs'\<rparr>"
| read: "xreadgroup n (wredis st) = (new, rs') \<Longrightarrow> pipeline_step c fr st (st\<lparr>wredis := rs'\<rparr>)"
| reclaim: "xautoclaim n idle (wredis st) = (claimed, rs') \<Longrightarrow> pipeline_step c fr st (st\<lparr>wredis := rs'\<rparr>)"
| handle: "(mid, f) \<in> set (take (group_read (wredis st)) (entries (wredis st))) \<Longrightarrow> driver_faults env \<Longrightarrow>
    handle_message c cfg env mid f st = (r, st', logs) \<Longrightarrow> pipeline_step c fr st st'"
| cache: "pipeline_step c fr st (st\<lparr>wredis := (wredis st)\<lparr>fleet_cache := text\<rparr>\<rparr>)"

inductive reachable :: "codec \<Rightarrow> (pyfloat \<Rightarrow> string) \<Rightarrow> worker_state \<Rightarrow> bool" for c fr where
  start: "reachable c fr \<lparr>wdb = empty_database, wredis = empty_redis\<rparr>"
| step: "reachable c fr st \<Longrightarrow> pipeline_step c fr st st' \<Longrightarrow> reachable c fr st'"

section \<open>Events survive the trip through the stream\<close>

definition event_shape :: "OutboxEventRecord \<Rightarrow> bool" where
  "event_shape e \<longleftrightarrow> ob_event_type e = accepted_type \<and>
     (\<exists>p. ob_payload e = map (\<lambda>(k, v). (k, JStr v)) p \<and> distinct (map fst p))"

lemma event_shape_stored: "event_shape (stored_event env b)"
  by (auto simp: event_shape_def stored_event_def accepted_event_def accepted_type_def
      intro!: exI[of _ "[(''batch_id'', uuid_str (batch_id b)), (''agent_id'', agent_id b),
        (''correlation_id'', ing_correlation_id env)]"])

lemma plain_members_strings: "plain_members (map (\<lambda>(k, v). (k, JStr v)) p)"
  by (induction p) auto

lemma map_fst_strings: "map fst (map (\<lambda>(k, v). (k, JStr v)) p) = map fst p"
  by (induction p) auto

lemma plain_strings: "distinct (map fst p) \<Longrightarrow> plain (JObj (map (\<lambda>(k, v). (k, JStr v)) p))"
  by (simp only: plain.simps map_fst_strings plain_members_strings simp_thms)

lemma string_dict_strings: "codec_ok c \<Longrightarrow> string_dict c (JObj (map (\<lambda>(k, v). (k, JStr v)) p)) = Some p"
proof -
  assume "codec_ok c"
  then have "those (map ((\<lambda>(k, x). map_option (Pair k) (as_str c x)) \<circ> (\<lambda>(k, v). (k, JStr v))) p) = Some p"
    by (intro those_map_inverse) (auto simp: codec_okD)
  then show ?thesis by (simp add: string_dict_def)
qed

lemma decode_event_fields:
  assumes "codec_ok c" and "event_shape e"
  shows "\<exists>p. decode_event c (event_fields fr e) = Inr \<lparr>qe_event_id = ob_event_id e,
    qe_event_type = accepted_type, qe_aggregate_id = ob_aggregate_id e, qe_payload = p\<rparr>"
proof -
  obtain p where p: "ob_payload e = map (\<lambda>(k, v). (k, JStr v)) p" "distinct (map fst p)"
    and ty: "ob_event_type e = accepted_type"
    using assms(2) by (auto simp: event_shape_def)
  have "loads (dumps fr compact (JObj (ob_payload e))) = Some (JObj (ob_payload e))"
    unfolding p(1) by (rule loads_dumps [OF compact_ok plain_strings [OF p(2)]])
  then show ?thesis
    using string_dict_strings[OF assms(1), of p] assms(1) ty
    by (simp add: decode_event_def get_item_def event_fields_def validate_queue_event_def field_def codec_okD p(1)
        del: dumps.simps)
qed

section \<open>The relay\<close>

definition same_event :: "OutboxEventRecord \<Rightarrow> OutboxEventRecord \<Rightarrow> bool" where
  "same_event r r' \<longleftrightarrow> ob_event_id r' = ob_event_id r \<and> ob_aggregate_id r' = ob_aggregate_id r \<and>
     ob_event_type r' = ob_event_type r \<and> ob_payload r' = ob_payload r"

lemma same_event_fields: "same_event r r' \<Longrightarrow> event_fields fr r' = event_fields fr r"
  by (simp add: same_event_def event_fields_def)

text \<open>What the loop puts on the stream: a prefix of the selected rows, all of them if it returns.\<close>

lemma publish_rows_cases:
  assumes "publish_rows fr env k es rs = (r, rs')"
  shows "\<exists>n \<le> length es. rs' = rs\<lparr>entries := entries rs @
      map (\<lambda>i. (rel_message_id env (k + i), event_fields fr (es ! i))) [0..<n]\<rparr> \<and>
    (\<forall>ds. r = Inr ds \<longrightarrow> n = length es \<and> list_all2 (\<lambda>e d. same_event e d \<and> ob_published_at d \<noteq> None) es ds)"
  using assms
proof (induction es arbitrary: k rs r rs')
  case Nil
  then show ?case by (intro exI[of _ 0]) auto
next
  case (Cons e es)
  show ?case
  proof (cases "rel_fault env k")
    case (Some err)
    with Cons.prems show ?thesis by (intro exI[of _ 0]) auto
  next
    case None
    let ?rs = "xadd (rel_message_id env k) (event_fields fr e) rs"
    obtain r1 rs1 where r1: "publish_rows fr env (Suc k) es ?rs = (r1, rs1)" by fastforce
    obtain n where n: "n \<le> length es" "rs1 = ?rs\<lparr>entries := entries ?rs @
        map (\<lambda>i. (rel_message_id env (Suc k + i), event_fields fr (es ! i))) [0..<n]\<rparr>"
      "\<forall>ds. r1 = Inr ds \<longrightarrow> n = length es \<and> list_all2 (\<lambda>e d. same_event e d \<and> ob_published_at d \<noteq> None) es ds"
      using Cons.IH[OF r1] by blast
    have out: "rs' = rs1" and rr: "r = (case r1 of Inl err \<Rightarrow> Inl err | Inr ds \<Rightarrow>
        Inr (e\<lparr>ob_published_at := Some (rel_now env k), ob_publication_attempts := ob_publication_attempts e + 1\<rparr> # ds))"
      using Cons.prems None r1 by (auto split: sum.splits)
    have "map (\<lambda>i. (rel_message_id env (k + i), event_fields fr ((e # es) ! i))) [0..<Suc n] =
        (rel_message_id env k, event_fields fr e) #
        map (\<lambda>i. (rel_message_id env (Suc k + i), event_fields fr (es ! i))) [0..<n]"
      unfolding upt_conv_Cons[OF zero_less_Suc] by (simp flip: map_Suc_upt del: upt_Suc)
    then have "rs' = rs\<lparr>entries := entries rs @
        map (\<lambda>i. (rel_message_id env (k + i), event_fields fr ((e # es) ! i))) [0..<Suc n]\<rparr>"
      by (simp add: out n(2) xadd_def)
    with n(1,3) rr show ?thesis
      by (intro exI[of _ "Suc n"]) (auto simp: same_event_def split: sum.splits)
  qed
qed

lemma unpublished_in: "e \<in> set (unpublished locked db) \<Longrightarrow> e \<in> set (outbox_events db) \<and> ob_published_at e = None"
  by (auto simp: unpublished_def dest!: in_set_takeD)

lemma list_all2_in_right: "list_all2 P xs ys \<Longrightarrow> y \<in> set ys \<Longrightarrow> \<exists>x \<in> set xs. P x y"
  by (induction rule: list_all2_induct) auto

lemma list_all2_in_left: "list_all2 P xs ys \<Longrightarrow> x \<in> set xs \<Longrightarrow> \<exists>y \<in> set ys. P x y"
  by (induction rule: list_all2_induct) auto

text \<open>Writing the published rows back keeps every event and marks only rows that were published.\<close>

lemma write_rows_same:
  assumes "keyed ob_event_id rows" and "set es \<subseteq> set rows"
    and "list_all2 (\<lambda>e d. same_event e d \<and> ob_published_at d \<noteq> None) es ds"
  shows "list_all2 (\<lambda>r r'. same_event r r' \<and> (r' = r \<or> r \<in> set es)) rows (write_rows ds rows)"
proof -
  have "same_event r (case row_lookup ob_event_id ds (ob_event_id r) of None \<Rightarrow> r | Some r' \<Rightarrow> r') \<and>
      ((case row_lookup ob_event_id ds (ob_event_id r) of None \<Rightarrow> r | Some r' \<Rightarrow> r') = r \<or> r \<in> set es)"
    if r: "r \<in> set rows" for r
  proof (cases "row_lookup ob_event_id ds (ob_event_id r)")
    case None
    then show ?thesis by (simp add: same_event_def)
  next
    case (Some d)
    then have d: "d \<in> set ds" "ob_event_id d = ob_event_id r" using row_lookup_in[of ob_event_id ds] by auto
    then obtain e where e: "e \<in> set es" "same_event e d"
      using list_all2_in_right[OF assms(3)] by blast
    then have "ob_event_id e = ob_event_id r" using d(2) by (simp add: same_event_def)
    then have "e = r" using assms(1,2) e(1) r by (auto simp: distinct_map dest: inj_onD)
    then show ?thesis using Some e by simp
  qed
  then show ?thesis by (auto simp: write_rows_def list_all2_map2 list_all2_same)
qed

lemma publish_once_cases:
  assumes "keyed ob_event_id (outbox_events db)" and "publish_once fr env db rs = (r, db', rs')"
  shows "\<exists>n rows. n \<le> length (unpublished (rel_locked env) db) \<and>
    rs' = rs\<lparr>entries := entries rs @ map (\<lambda>i. (rel_message_id env i,
        event_fields fr (unpublished (rel_locked env) db ! i))) [0..<n]\<rparr> \<and>
    db' = db\<lparr>outbox_events := rows\<rparr> \<and>
    list_all2 (\<lambda>x y. same_event x y \<and> (y = x \<or> (\<exists>i < n. x = unpublished (rel_locked env) db ! i)))
      (outbox_events db) rows"
proof -
  let ?es = "unpublished (rel_locked env) db"
  let ?rows = "outbox_events db"
  have refl: "list_all2 (\<lambda>x y. same_event x y \<and> (y = x \<or> Q x)) ?rows ?rows" for Q
    by (simp add: list_all2_same same_event_def)
  show ?thesis
  proof (cases "stmt_fault (rel_db env) 0")
    case (Some e)
    with assms(2) refl[of "\<lambda>x. False"] show ?thesis
      by (intro exI[of _ 0] exI[of _ ?rows]) (simp add: publish_once_def)
  next
    case None
    obtain p rs1 where p: "publish_rows fr env 0 ?es rs = (p, rs1)" by fastforce
    obtain n where n: "n \<le> length ?es" "rs1 = rs\<lparr>entries := entries rs @
        map (\<lambda>i. (rel_message_id env i, event_fields fr (?es ! i))) [0..<n]\<rparr>"
      "\<forall>ds. p = Inr ds \<longrightarrow> n = length ?es \<and> list_all2 (\<lambda>e d. same_event e d \<and> ob_published_at d \<noteq> None) ?es ds"
      using publish_rows_cases[OF p] by auto
    have rs': "rs' = rs1" using assms(2) None p by (auto simp: publish_once_def split: sum.splits prod.splits)
    have "\<exists>rows. db' = db\<lparr>outbox_events := rows\<rparr> \<and>
        list_all2 (\<lambda>x y. same_event x y \<and> (y = x \<or> (\<exists>i < n. x = ?es ! i))) ?rows rows"
    proof (cases p)
      case (Inl e)
      then have "db' = db\<lparr>outbox_events := ?rows\<rparr>" using assms(2) None p by (auto simp: publish_once_def)
      with refl[of "\<lambda>x. \<exists>i < n. x = ?es ! i"] show ?thesis by blast
    next
      case (Inr ds)
      have all: "n = length ?es" "list_all2 (\<lambda>e d. same_event e d \<and> ob_published_at d \<noteq> None) ?es ds"
        using n(3) Inr by simp_all
      have "set ?es \<subseteq> set ?rows" using unpublished_in by blast
      from write_rows_same[OF assms(1) this all(2)]
      have w: "list_all2 (\<lambda>x y. same_event x y \<and> (y = x \<or> (\<exists>i < n. x = ?es ! i))) ?rows (write_rows ds ?rows)"
        by (rule list_all2_mono) (auto simp: all(1) in_set_conv_nth)
      have "db' = db\<lparr>outbox_events := ?rows\<rparr> \<or> db' = db\<lparr>outbox_events := write_rows ds ?rows\<rparr>"
        using assms(2) None p Inr
        by (auto simp: publish_once_def session_begin_def execute_def split: option.splits commit_outcome.splits)
      with refl[of "\<lambda>x. \<exists>i < n. x = ?es ! i"] w show ?thesis by blast
    qed
    with n rs' show ?thesis by blast
  qed
qed

section \<open>Progress of the relay\<close>

definition backlog :: "database \<Rightarrow> nat" where
  "backlog db = length (filter (\<lambda>e. ob_published_at e = None) (outbox_events db))"

lemma publish_rows_total:
  assumes "\<forall>k. rel_fault env k = None"
  shows "\<exists>ds rs'. publish_rows fr env k es rs = (Inr ds, rs')"
proof (induction es arbitrary: k rs)
  case (Cons e es)
  obtain ds rs' where "publish_rows fr env (Suc k) es (xadd (rel_message_id env k) (event_fields fr e) rs) = (Inr ds, rs')"
    using Cons.IH by blast
  with assms show ?case by simp
qed simp

lemma distinct_unpublished:
  assumes "keyed ob_event_id (outbox_events db)"
  shows "distinct (unpublished locked db)"
proof -
  have "distinct (outbox_events db)" using assms by (simp add: distinct_map)
  then show ?thesis by (simp add: unpublished_def)
qed

lemma list_all2_in_lookup:
  assumes "list_all2 (\<lambda>e d. same_event e d \<and> ob_published_at d \<noteq> None) es ds" and "r \<in> set es"
  shows "\<exists>d. row_lookup ob_event_id ds (ob_event_id r) = Some d \<and> ob_published_at d \<noteq> None"
proof -
  obtain d where d: "d \<in> set ds" "ob_event_id d = ob_event_id r"
    using list_all2_in_left[OF assms] by (auto simp: same_event_def)
  then have "row_lookup ob_event_id ds (ob_event_id r) \<noteq> None" unfolding row_lookup_None by (metis image_eqI)
  then obtain d' where d': "row_lookup ob_event_id ds (ob_event_id r) = Some d'" by blast
  then have "d' \<in> set ds" using row_lookup_in[of ob_event_id ds] by blast
  then show ?thesis using list_all2_in_right[OF assms(1)] d' by blast
qed

lemma length_filter_card: "distinct xs \<Longrightarrow> length (filter P xs) = card {x \<in> set xs. P x}"
  by (metis distinct_card distinct_filter set_filter)

lemma backlog_written:
  assumes "keyed ob_event_id (outbox_events db)"
    and "\<forall>e \<in> set es. e \<in> set (outbox_events db) \<and> ob_published_at e = None" and "distinct es"
    and "list_all2 (\<lambda>e d. same_event e d \<and> ob_published_at d \<noteq> None) es ds"
  shows "backlog (db\<lparr>outbox_events := write_rows ds (outbox_events db)\<rparr>) = backlog db - length es"
proof -
  let ?new = "\<lambda>r. case row_lookup ob_event_id ds (ob_event_id r) of None \<Rightarrow> r | Some r' \<Rightarrow> r'"
  have new: "ob_published_at (?new r) = None \<longleftrightarrow> ob_published_at r = None \<and> r \<notin> set es" if r: "r \<in> set (outbox_events db)" for r
  proof (cases "r \<in> set es")
    case True
    then show ?thesis using list_all2_in_lookup[OF assms(4) True] by auto
  next
    case False
    have "row_lookup ob_event_id ds (ob_event_id r) = None"
    proof (rule ccontr)
      assume "row_lookup ob_event_id ds (ob_event_id r) \<noteq> None"
      then obtain d where "d \<in> set ds" "ob_event_id d = ob_event_id r" by (auto simp: row_lookup_None)
      then obtain e where "e \<in> set es" "ob_event_id e = ob_event_id r"
        using list_all2_in_right[OF assms(4)] unfolding same_event_def by metis
      then show False using False r assms(1,2) by (metis distinct_map inj_on_def)
    qed
    with False show ?thesis by simp
  qed
  have d: "distinct (outbox_events db)" using assms(1) by (simp add: distinct_map)
  have "backlog (db\<lparr>outbox_events := write_rows ds (outbox_events db)\<rparr>) =
      length (filter (\<lambda>r. ob_published_at (?new r) = None) (outbox_events db))"
    by (simp add: backlog_def write_rows_def filter_map o_def)
  also have "\<dots> = length (filter (\<lambda>r. ob_published_at r = None \<and> r \<notin> set es) (outbox_events db))"
    by (intro arg_cong[where f = length] filter_cong refl new)
  also have "\<dots> = card ({r \<in> set (outbox_events db). ob_published_at r = None} - set es)"
    unfolding length_filter_card[OF d] by (simp add: set_diff_eq conj_assoc)
  also have "\<dots> = card {r \<in> set (outbox_events db). ob_published_at r = None} - length es"
    using assms(2,3) by (subst card_Diff_subset) (auto simp: distinct_card)
  also have "\<dots> = backlog db - length es" by (simp add: backlog_def length_filter_card[OF d])
  finally show ?thesis .
qed

section \<open>The worker meets no poison message\<close>

lemma execute_Inl:
  "execute env k act db = Inl e \<Longrightarrow> stmt_fault env k = Some e \<or> act db = Inl e"
  by (auto simp: execute_def split: option.splits)

lemma res_bind_InlD: "res_bind m f = Inl e \<Longrightarrow> m = Inl e \<or> (\<exists>x. m = Inr x \<and> f x = Inl e)"
  by (cases m) auto

definition not_retryable :: "'a stmt \<Rightarrow> bool" where
  "not_retryable act \<longleftrightarrow> (\<forall>db e. act db = Inl e \<longrightarrow> \<not> retryable e)"

lemma not_retryable_bind:
  assumes "not_retryable act" and "\<And>x. not_retryable (f x)"
  shows "not_retryable (\<lambda>db. res_bind (act db) (\<lambda>(x, db'). f x db'))"
  using assms unfolding not_retryable_def by (metis (no_types, lifting) case_prod_beta res_bind_InlD)

lemma not_retryable_execute: "driver_db env \<Longrightarrow> not_retryable act \<Longrightarrow> not_retryable (execute env k act)"
  unfolding not_retryable_def driver_db_def by (metis execute_Inl)

lemma not_retryable_stmts:
  "not_retryable (insert_incident r)" "not_retryable (insert_processed p)" "not_retryable (upsert_fleet_state s f)"
  by (auto simp: not_retryable_def insert_incident_def insert_processed_def upsert_fleet_state_def retryable_def
      Let_def split: if_splits prod.splits)

lemma not_retryable_return: "not_retryable (\<lambda>db. Inr (x, db))"
  by (simp add: not_retryable_def)

lemma not_retryable_if: "not_retryable f \<Longrightarrow> not_retryable g \<Longrightarrow> not_retryable (\<lambda>db. if b then f db else g db)"
  by (cases b) simp_all

lemma not_retryable_open_incidents: "driver_db (wk_db env) \<Longrightarrow> not_retryable (open_incidents env b k cs)"
proof (induction cs arbitrary: k)
  case Nil
  then show ?case by (simp add: not_retryable_def)
next
  case (Cons x cs)
  obtain ty v th where x: "x = (ty, v, th)" by (metis prod_cases3)
  have "not_retryable (\<lambda>db. open_incidents env b k (x # cs) db)"
    unfolding x open_incidents.simps
    by (intro not_retryable_if not_retryable_bind not_retryable_execute not_retryable_stmts not_retryable_return
        Cons.IH Cons.prems)
  then show ?case .
qed

lemma not_retryable_record:
  assumes "codec_ok c" and "driver_db (wk_db env)" and "batch_stored_ok c row"
  shows "not_retryable (record_telemetry c cfg env row)"
proof -
  obtain b where b: "wf_batch b" "tb_payload row = dump_batch c b"
    using assms(3) by (auto simp: batch_stored_ok_def)
  obtain s where s: "latest_sample b = Inr s" "wf_sample s" using latest_sample_ok[OF b(1)] by metis
  obtain d where d: "max_disk_percent s = Inr d" using max_disk_percent_ok[OF s(2)] by metis
  let ?r = "fleet_row (txn_now (wk_db env)) b s d"
  have "not_retryable (\<lambda>db. res_bind (execute (wk_db env) 2 (upsert_fleet_state ?r (fleet_update ?r)) db)
      (\<lambda>(_, db1). open_incidents env b 3 (conditions cfg s) db1))"
    by (intro not_retryable_bind not_retryable_execute not_retryable_stmts not_retryable_open_incidents assms)
  moreover have "record_telemetry c cfg env row = (\<lambda>db. res_bind (execute (wk_db env) 2 (upsert_fleet_state ?r (fleet_update ?r)) db)
      (\<lambda>(_, db1). open_incidents env b 3 (conditions cfg s) db1))"
    by (rule ext) (simp add: record_telemetry_def b(2) validate_dump_batch[OF assms(1) b(1)] s(1) d Let_def)
  ultimately show ?thesis by simp
qed

lemma process_event_not_retryable:
  assumes "codec_ok c" and "driver_faults env" and "\<forall>r \<in> set (telemetry_batches db). batch_stored_ok c r"
    and "qe_event_type ev = accepted_type" and "process_event c cfg env mid ev db = (Inl e, db', cs)"
  shows "\<not> retryable e"
proof -
  have drv: "driver_db (wk_db env)" using assms(2) by (simp add: driver_faults_def)
  have "\<not> retryable e" if body: "process_body c cfg env mid ev db = Inl e"
  proof -
    let ?p = "\<lparr>pe_event_id = qe_event_id ev, pe_stream_message_id = mid, pe_consumer_name = consumer_name cfg,
         pe_processed_at = txn_now (wk_db env)\<rparr>"
    consider "execute (wk_db env) 0 (insert_processed ?p) db = Inl e"
      | db1 where "insert_processed ?p db = Inr (True, db1)" "execute (wk_db env) 1 (find_batch env (qe_aggregate_id ev)) db1 = Inl e"
      | db1 row where "insert_processed ?p db = Inr (True, db1)" "find_batch env (qe_aggregate_id ev) db1 = Inr (row, db1)"
          "record_telemetry c cfg env row db1 = Inl e"
      using body assms(4)
      by (auto simp: process_body_def accepted_type_def find_batch_def execute_def res_of_eq_Inr res_of_def
          dest!: res_bind_InlD split: if_splits option.splits)
    then show ?thesis
    proof cases
      case 1
      then show ?thesis using not_retryable_execute[OF drv not_retryable_stmts(2)] by (metis not_retryable_def)
    next
      case (2 db1)
      have "not_retryable (find_batch env (qe_aggregate_id ev))"
        by (auto simp: not_retryable_def find_batch_def retryable_def res_of_eq_Inl split: option.splits)
      then show ?thesis using 2 not_retryable_execute[OF drv] by (metis not_retryable_def)
    next
      case (3 db1 row)
      have "telemetry_batches db1 = telemetry_batches db"
        using 3(1) by (auto simp: insert_processed_def row_insert_ignore_def split: if_splits)
      then have "row \<in> set (telemetry_batches db)"
        using 3(2) by (auto simp: find_batch_def res_of_eq_Inr dest!: row_lookup_in split: option.splits)
      then have "batch_stored_ok c row" using assms(3) by simp
      then show ?thesis using 3(3) not_retryable_record[OF assms(1) drv] by (metis not_retryable_def)
    qed
  qed
  moreover have "process_body c cfg env mid ev db = Inl e \<or> commit_end (wk_db env) = CommitRefused e \<or>
      commit_end (wk_db env) = CommitUnknown e"
    using assms(5) by (auto simp: process_event_def session_begin_def split: sum.splits prod.splits commit_outcome.splits)
  ultimately show ?thesis using drv by (auto simp: driver_db_def)
qed

text \<open>So handling a message of the pipeline never dead-letters it.\<close>

lemma handle_message_pipeline:
  assumes "codec_ok c" and "driver_faults env" and "\<forall>r \<in> set (telemetry_batches (wdb st)). batch_stored_ok c r"
    and "event_shape ev" and "handle_message c cfg env mid (event_fields fr ev) st = (r, st', logs)"
  shows "try_message c cfg env mid (event_fields fr ev) st = (r, st')"
proof -
  obtain q where q: "decode_event c (event_fields fr ev) = Inr \<lparr>qe_event_id = ob_event_id ev,
      qe_event_type = accepted_type, qe_aggregate_id = ob_aggregate_id ev, qe_payload = q\<rparr>"
    using decode_event_fields[OF assms(1,4)] by blast
  let ?ev = "\<lparr>qe_event_id = ob_event_id ev, qe_event_type = accepted_type, qe_aggregate_id = ob_aggregate_id ev, qe_payload = q\<rparr>"
  obtain t st1 where t: "try_message c cfg env mid (event_fields fr ev) st = (t, st1)" by fastforce
  have "\<not> retryable e" if "t = Inl e" for e
  proof -
    obtain p db' cs where p: "process_event c cfg env mid ?ev (wdb st) = (p, db', cs)" by (metis prod_cases3)
    have "p = Inl e \<or> (\<exists>k. wk_redis_fault env k = Some e)"
      using t that p q by (auto simp: try_message_def then_do_def redis_call_def split: sum.splits option.splits)
    then show ?thesis
      using process_event_not_retryable[OF assms(1-3), of ?ev cfg mid e db' cs] p assms(2)
      by (auto simp: driver_faults_def)
  qed
  then show ?thesis using assms(5) t by (cases t) (auto simp: handle_message_def Let_def split: if_splits)
qed

section \<open>The invariant\<close>

definition store_inv :: "codec \<Rightarrow> database \<Rightarrow> bool" where
  "store_inv c db \<longleftrightarrow> schema_ok db \<and> outbox_paired db \<and>
     (\<forall>r \<in> set (telemetry_batches db). batch_stored_ok c r) \<and> (\<forall>e \<in> set (outbox_events db). event_shape e) \<and>
     processed_ids db \<subseteq> ob_event_id ` set (outbox_events db) \<and> dead_letters db = []"

definition settled :: "(pyfloat \<Rightarrow> string) \<Rightarrow> database \<Rightarrow> fields \<Rightarrow> bool" where
  "settled fr db f \<longleftrightarrow> (\<exists>e \<in> set (outbox_events db). f = event_fields fr e \<and> ob_event_id e \<in> processed_ids db)"

definition stream_inv :: "(pyfloat \<Rightarrow> string) \<Rightarrow> database \<Rightarrow> redis_state \<Rightarrow> bool" where
  "stream_inv fr db rs \<longleftrightarrow> distinct (map fst (entries rs)) \<and> group_read rs \<le> length (entries rs) \<and>
     pending_ids rs \<subseteq> fst ` set (take (group_read rs) (entries rs)) \<and>
     snd ` set (entries rs) \<subseteq> event_fields fr ` set (outbox_events db) \<and>
     (\<forall>e \<in> set (outbox_events db). ob_published_at e \<noteq> None \<longrightarrow> event_fields fr e \<in> snd ` set (entries rs)) \<and>
     (\<forall>x \<in> set (take (group_read rs) (entries rs)). fst x \<in> pending_ids rs \<or> settled fr db (snd x)) \<and>
     dead_letter_entries rs = []"

lemma settled_mono:
  assumes "\<forall>e \<in> set (outbox_events db). \<exists>e' \<in> set (outbox_events db'). same_event e e'"
    and "processed_ids db \<subseteq> processed_ids db'" and "settled fr db f"
  shows "settled fr db' f"
proof -
  obtain e where e: "e \<in> set (outbox_events db)" "f = event_fields fr e" "ob_event_id e \<in> processed_ids db"
    using assms(3) by (auto simp: settled_def)
  then obtain e' where "e' \<in> set (outbox_events db')" "same_event e e'" using assms(1) by blast
  with e assms(2) show ?thesis
    unfolding settled_def by (intro bexI[of _ e']) (auto simp: same_event_fields, auto simp: same_event_def)
qed

text \<open>Growing the outbox, marking rows that are on the stream, and processing more keep the stream part.\<close>

lemma stream_inv_database:
  assumes "stream_inv fr db rs" and "\<forall>e \<in> set (outbox_events db). \<exists>e' \<in> set (outbox_events db'). same_event e e'"
    and "\<forall>e \<in> set (outbox_events db'). ob_published_at e \<noteq> None \<longrightarrow> event_fields fr e \<in> snd ` set (entries rs)"
    and "processed_ids db \<subseteq> processed_ids db'"
  shows "stream_inv fr db' rs"
proof -
  have sub: "event_fields fr ` set (outbox_events db) \<subseteq> event_fields fr ` set (outbox_events db')"
    using assms(2) by (auto simp: image_iff) (metis same_event_fields)
  have "\<forall>x \<in> set (take (group_read rs) (entries rs)). fst x \<in> pending_ids rs \<or> settled fr db' (snd x)"
    using assms(1) settled_mono[OF assms(2,4)] unfolding stream_inv_def by meson
  moreover have "snd ` set (entries rs) \<subseteq> event_fields fr ` set (outbox_events db')"
    using assms(1) sub unfolding stream_inv_def by (meson order_trans)
  ultimately show ?thesis using assms(1,3) by (simp add: stream_inv_def)
qed

lemma same_event_refl [simp]: "same_event e e"
  by (simp add: same_event_def)

lemma stored_batch_ok: "wf_batch b \<Longrightarrow> batch_stored_ok c (stored_batch c env b)"
  by (auto simp: batch_stored_ok_def intro!: exI[of _ b])

lemma inv_ingest:
  assumes "store_inv c db" and "stream_inv fr db rs" and "wf_batch b" and "finite_batch b"
    and "db' = fst (snd (ingest_batch c env b db))"
  shows "store_inv c db' \<and> stream_inv fr db' rs"
proof -
  have s: "schema_ok db'" "outbox_paired db'"
    using assms ingest_batch_schema ingest_batch_paired by (auto simp: store_inv_def)
  note cases = ingest_batch_outcomes[OF assms(3,4), of c env db, folded assms(5)]
  have same: "processed_ids db' = processed_ids db" "dead_letters db' = dead_letters db"
    using cases by (auto simp: processed_ids_def)
  have ob: "outbox_events db' = outbox_events db \<or> outbox_events db' = outbox_events db @ [stored_event env b]"
    and tb: "set (telemetry_batches db') \<subseteq> insert (stored_batch c env b) (set (telemetry_batches db))"
    using cases by auto
  have "store_inv c db'"
    using assms(1) s same ob tb stored_batch_ok[OF assms(3)] event_shape_stored[of env b]
    by (auto simp: store_inv_def)
  moreover have "stream_inv fr db' rs"
  proof (rule stream_inv_database [OF assms(2)])
    show "\<forall>e \<in> set (outbox_events db). \<exists>e' \<in> set (outbox_events db'). same_event e e'"
      using ob same_event_refl by (metis UnCI set_append)
    show "\<forall>e \<in> set (outbox_events db'). ob_published_at e \<noteq> None \<longrightarrow> event_fields fr e \<in> snd ` set (entries rs)"
      using ob assms(2) by (auto simp: stream_inv_def)
  qed (simp add: same)
  ultimately show ?thesis by blast
qed

lemma take_append_old: "n \<le> length xs \<Longrightarrow> take n (xs @ ys) = take n xs"
  by simp

lemma stream_inv_append:
  assumes "stream_inv fr db rs" and "distinct (map fst (entries rs @ new))"
    and "snd ` set new \<subseteq> event_fields fr ` set (outbox_events db)"
  shows "stream_inv fr db (rs\<lparr>entries := entries rs @ new\<rparr>)"
  using assms by (auto simp: stream_inv_def pending_ids_def image_Un)

lemma inv_publish:
  assumes "store_inv c db" and "stream_inv fr db rs" and "fresh_messages env rs"
    and "publish_once fr env db rs = (r, db', rs')"
  shows "store_inv c db' \<and> stream_inv fr db' rs'"
proof -
  let ?es = "unpublished (rel_locked env) db"
  have keyed: "keyed ob_event_id (outbox_events db)" using assms(1) by (simp add: store_inv_def schema_ok_def)
  obtain n rows where n: "n \<le> length ?es"
    and rs': "rs' = rs\<lparr>entries := entries rs @ map (\<lambda>i. (rel_message_id env i, event_fields fr (?es ! i))) [0..<n]\<rparr>"
    and db': "db' = db\<lparr>outbox_events := rows\<rparr>"
    and rel: "list_all2 (\<lambda>x y. same_event x y \<and> (y = x \<or> (\<exists>i < n. x = ?es ! i))) (outbox_events db) rows"
    using publish_once_cases[OF keyed assms(4)] by blast
  let ?new = "map (\<lambda>i. (rel_message_id env i, event_fields fr (?es ! i))) [0..<n]"
  have ids: "map ob_event_id rows = map ob_event_id (outbox_events db)"
    "map ob_aggregate_id rows = map ob_aggregate_id (outbox_events db)"
    using rel by (induction rule: list_all2_induct) (simp_all add: same_event_def)
  have shape: "\<forall>e \<in> set rows. event_shape e"
  proof
    fix y assume "y \<in> set rows"
    then obtain x where "x \<in> set (outbox_events db)" "same_event x y" using list_all2_in_right[OF rel] by blast
    then show "event_shape y" using assms(1) by (auto simp: store_inv_def event_shape_def same_event_def)
  qed
  have key_set: "ob_event_id ` set rows = ob_event_id ` set (outbox_events db)" using ids(1) by (metis set_map)
  have "store_inv c db'"
    using assms(1) shape key_set ids
    by (simp add: store_inv_def db' schema_ok_def outbox_paired_def processed_ids_def)
  moreover have "stream_inv fr db' rs'"
  proof (rule stream_inv_database)
    have "distinct (map fst (entries rs @ ?new))"
    proof -
      have "map fst (entries rs @ ?new) = map fst (entries rs) @ map (rel_message_id env) [0..<n]" by (simp add: o_def)
      moreover have "distinct (map (rel_message_id env) [0..<n])"
        using assms(3) by (auto simp: fresh_messages_def distinct_map intro: inj_on_subset)
      moreover have "set (map fst (entries rs)) \<inter> set (map (rel_message_id env) [0..<n]) = {}"
        using assms(3) by (auto simp: fresh_messages_def image_iff) (metis fst_conv)
      ultimately show ?thesis using assms(2) by (simp only: distinct_append stream_inv_def)
    qed
    moreover have "snd ` set ?new \<subseteq> event_fields fr ` set (outbox_events db)"
    proof -
      have "?es ! i \<in> set (outbox_events db)" if "i < n" for i
        using unpublished_in[OF nth_mem, of i "rel_locked env" db] that n by simp
      then show ?thesis by auto
    qed
    ultimately show "stream_inv fr db rs'" unfolding rs' by (rule stream_inv_append[OF assms(2)])
    show "\<forall>e \<in> set (outbox_events db). \<exists>e' \<in> set (outbox_events db'). same_event e e'"
      using list_all2_in_left[OF rel] by (auto simp: db')
    show "\<forall>e \<in> set (outbox_events db'). ob_published_at e \<noteq> None \<longrightarrow> event_fields fr e \<in> snd ` set (entries rs')"
    proof (intro ballI impI)
      fix y assume y: "y \<in> set (outbox_events db')" "ob_published_at y \<noteq> None"
      then obtain x where x: "x \<in> set (outbox_events db)" "same_event x y" "y = x \<or> (\<exists>i < n. x = ?es ! i)"
        using list_all2_in_right[OF rel] by (auto simp: db')
      have "event_fields fr y = event_fields fr x" using x(2) by (rule same_event_fields)
      moreover have "event_fields fr x \<in> snd ` set (entries rs')"
        using x(3) y(2) x(1) assms(2) by (auto simp: rs' stream_inv_def image_Un image_image)
      ultimately show "event_fields fr y \<in> snd ` set (entries rs')" by simp
    qed
  qed (simp add: db' processed_ids_def)
  ultimately show ?thesis by blast
qed

lemma xreadgroup_entries:
  assumes "xreadgroup n rs = (new, rs')"
  shows "entries rs' = entries rs" "dead_letter_entries rs' = dead_letter_entries rs"
    "pending_ids rs' = pending_ids rs \<union> fst ` set new" "group_read rs' = group_read rs + length new"
    "take (group_read rs) (entries rs) @ new = take (group_read rs') (entries rs)"
proof -
  have new: "new = take n (drop (group_read rs) (entries rs))" using assms by (simp add: xreadgroup_def Let_def)
  have rs': "rs' = rs\<lparr>group_read := group_read rs + length new, pending := pending rs @ map (\<lambda>e. (fst e, 1)) new\<rparr>"
    using assms unfolding xreadgroup_def Let_def new by simp
  show "entries rs' = entries rs" "dead_letter_entries rs' = dead_letter_entries rs"
    and g: "group_read rs' = group_read rs + length new" by (simp_all add: rs')
  show "pending_ids rs' = pending_ids rs \<union> fst ` set new"
    by (simp add: rs' pending_ids_def image_Un image_image)
  have "new = take (length new) (drop (group_read rs) (entries rs))" using new by (metis append_eq_conv_conj append_take_drop_id)
  then show "take (group_read rs) (entries rs) @ new = take (group_read rs') (entries rs)"
    by (metis g take_add)
qed

lemma inv_read:
  assumes "stream_inv fr db rs" and "xreadgroup n rs = (new, rs')"
  shows "stream_inv fr db rs'"
proof -
  note x = xreadgroup_entries[OF assms(2)]
  have "set (take (group_read rs') (entries rs')) = set (take (group_read rs) (entries rs)) \<union> set new"
    by (metis x(1,5) set_append)
  moreover have "group_read rs' \<le> length (entries rs')"
  proof -
    have "length new \<le> length (entries rs) - group_read rs" using assms(2) by (auto simp: xreadgroup_def Let_def)
    moreover have "group_read rs \<le> length (entries rs)" using assms(1) by (simp add: stream_inv_def)
    ultimately show ?thesis using x(1,4) by simp
  qed
  ultimately show ?thesis
    using assms(1) by (auto simp: stream_inv_def x(1-3) image_Un)
qed

lemma xautoclaim_frame:
  assumes "xautoclaim n idle rs = (claimed, rs')"
  shows "entries rs' = entries rs \<and> group_read rs' = group_read rs \<and> pending_ids rs' = pending_ids rs \<and>
    dead_letter_entries rs' = dead_letter_entries rs"
proof -
  have "fst ` (\<lambda>(i, k). if i \<in> A then (i, Suc k) else (i, k)) ` B = fst ` B" for A :: "string set" and B
  proof -
    have "fst (case x of (i, k) \<Rightarrow> if i \<in> A then (i, Suc k) else (i, k)) = fst x" for x
      by (cases x) simp
    then show ?thesis by (simp only: image_image)
  qed
  note f = this
  have "rs' = rs\<lparr>pending := map (\<lambda>(i, k). if i \<in> set (take n (filter idle (map fst (pending rs)))) then (i, Suc k) else (i, k))
      (pending rs)\<rparr>"
    using assms by (simp add: xautoclaim_def Let_def)
  then show ?thesis by (simp add: pending_ids_def f)
qed

lemma stream_inv_frame:
  assumes "stream_inv fr db rs" and "entries rs' = entries rs \<and> group_read rs' = group_read rs \<and>
    pending_ids rs' = pending_ids rs \<and> dead_letter_entries rs' = dead_letter_entries rs"
  shows "stream_inv fr db rs'"
  using assms by (simp add: stream_inv_def)

lemma process_event_store_inv:
  assumes "store_inv c db" and "e \<in> set (outbox_events db)" and "qe_event_id ev = ob_event_id e"
    and "db' = fst (snd (process_event c cfg env mid ev db))"
  shows "store_inv c db' \<and> outbox_events db' = outbox_events db \<and> processed_ids db \<subseteq> processed_ids db'"
  using assms process_event_schema[of db c cfg env mid ev] process_event_same[of db c cfg env mid ev]
    process_event_processed[of c cfg env mid ev db]
  by (auto simp: store_inv_def same_ingested_def outbox_paired_def)

lemma try_message_frame:
  assumes "try_message c cfg env mid f st = (r, st')"
  shows "entries (wredis st') = entries (wredis st) \<and> group_read (wredis st') = group_read (wredis st) \<and>
    dead_letter_entries (wredis st') = dead_letter_entries (wredis st)"
  using assms
  by (auto simp: try_message_def then_do_def redis_call_def xack_def
      split: sum.split_asm prod.split_asm option.split_asm)

lemma inv_handle:
  assumes "codec_ok c" and "store_inv c (wdb st)" and "stream_inv fr (wdb st) (wredis st)" and "driver_faults env"
    and "(mid, f) \<in> set (entries (wredis st))" and "handle_message c cfg env mid f st = (r, st', logs)"
  shows "store_inv c (wdb st') \<and> stream_inv fr (wdb st') (wredis st')"
proof -
  obtain e where e: "e \<in> set (outbox_events (wdb st))" "f = event_fields fr e"
  proof -
    have "f \<in> snd ` set (entries (wredis st))" using assms(5) image_iff by fastforce
    moreover have "snd ` set (entries (wredis st)) \<subseteq> event_fields fr ` set (outbox_events (wdb st))"
      using assms(3) by (simp add: stream_inv_def)
    ultimately show ?thesis using that by blast
  qed
  have shape: "event_shape e" using assms(2) e(1) by (simp add: store_inv_def)
  have stored: "\<forall>r \<in> set (telemetry_batches (wdb st)). batch_stored_ok c r" using assms(2) by (simp add: store_inv_def)
  have t: "try_message c cfg env mid f st = (r, st')"
    using handle_message_pipeline[OF assms(1,4) stored shape] assms(6) e(2) by simp
  obtain ev where ev: "decode_event c f = Inr ev" "qe_event_id ev = ob_event_id e"
    using decode_event_fields[OF assms(1) shape, of fr] e(2) by auto
  have db: "store_inv c (wdb st') \<and> outbox_events (wdb st') = outbox_events (wdb st) \<and>
      processed_ids (wdb st) \<subseteq> processed_ids (wdb st')"
    using try_message_db[OF t] process_event_store_inv[OF assms(2) e(1), of ev "wdb st'" cfg env mid] ev assms(2) by auto
  have stream: "stream_inv fr (wdb st') (wredis st)"
  proof (rule stream_inv_database [OF assms(3)])
    show "\<forall>x \<in> set (outbox_events (wdb st)). \<exists>y \<in> set (outbox_events (wdb st')). same_event x y"
      using db same_event_refl by metis
    show "\<forall>x \<in> set (outbox_events (wdb st')). ob_published_at x \<noteq> None \<longrightarrow> event_fields fr x \<in> snd ` set (entries (wredis st))"
      using db assms(3) by (simp add: stream_inv_def)
  qed (simp add: db)
  note frame = try_message_frame[OF t]
  have "pending (wredis st') = pending (wredis st) \<or>
      (ob_event_id e \<in> processed_ids (wdb st') \<and> pending (wredis st') = pending (xack mid (wredis st)))"
    using try_message_pending[OF t] ev by auto
  then show ?thesis
  proof
    assume "pending (wredis st') = pending (wredis st)"
    then have "stream_inv fr (wdb st') (wredis st')"
      using stream_inv_frame[OF stream] frame by (simp add: pending_ids_def)
    with db show ?thesis by blast
  next
    assume ack: "ob_event_id e \<in> processed_ids (wdb st') \<and> pending (wredis st') = pending (xack mid (wredis st))"
    then have p: "pending_ids (wredis st') = pending_ids (wredis st) - {mid}"
      using xack_pending[of mid "wredis st"] by (simp add: pending_ids_def)
    have only: "snd x = f" if "x \<in> set (entries (wredis st))" "fst x = mid" for x
      using that assms(3,5) by (metis (mono_tags, lifting) distinct_map inj_on_def stream_inv_def fst_conv snd_conv)
    have "settled fr (wdb st') f" using ack db e by (auto simp: settled_def)
    then have "\<forall>x \<in> set (take (group_read (wredis st)) (entries (wredis st))).
        fst x \<in> pending_ids (wredis st') \<or> settled fr (wdb st') (snd x)"
      using stream only unfolding stream_inv_def p by (metis in_set_takeD insert_Diff insert_iff singletonD DiffI)
    then have "stream_inv fr (wdb st') (wredis st')"
      using stream frame by (auto simp: stream_inv_def p)
    with db show ?thesis by blast
  qed
qed

lemma pipeline_step_inv:
  assumes "codec_ok c" and "pipeline_step c fr st st'"
    and "store_inv c (wdb st) \<and> stream_inv fr (wdb st) (wredis st)"
  shows "store_inv c (wdb st') \<and> stream_inv fr (wdb st') (wredis st')"
  using assms(2,3)
proof cases
  case (ingest b env)
  then show ?thesis using inv_ingest[OF _ _ ingest(2,3) refl] assms(3) by auto
next
  case (publish env r db' rs')
  then show ?thesis using inv_publish[of c "wdb st" fr "wredis st"] assms(3) by auto
next
  case (read n new rs')
  then show ?thesis using inv_read assms(3) by auto
next
  case (reclaim n idle claimed rs')
  then show ?thesis using stream_inv_frame xautoclaim_frame assms(3) by auto
next
  case (handle mid f env cfg r logs)
  then show ?thesis using inv_handle[OF assms(1)] assms(3) by (blast dest: in_set_takeD)
next
  case (cache t)
  then show ?thesis using assms(3) by (auto simp: stream_inv_def pending_ids_def)
qed

lemma reachable_inv:
  assumes "reachable c fr st" and "codec_ok c"
  shows "store_inv c (wdb st) \<and> stream_inv fr (wdb st) (wredis st)"
  using assms(1)
proof (induction rule: reachable.induct)
  case start
  then show ?case
    by (simp add: store_inv_def stream_inv_def empty_database_def empty_redis_def schema_ok_def outbox_paired_def
        processed_ids_def pending_ids_def)
next
  case (step st st')
  then show ?case using pipeline_step_inv[OF assms(2)] by blast
qed

section \<open>Events and their batches\<close>

lemma paired_event:
  assumes "outbox_paired db" and "r \<in> set (telemetry_batches db)"
  shows "\<exists>e \<in> set (outbox_events db). ob_aggregate_id e = uuid_str (tb_batch_id r)"
proof -
  have "uuid_str (tb_batch_id r) \<in> set (map ob_aggregate_id (outbox_events db))"
    using assms by (metis (mono_tags, lifting) image_eqI list.set_map outbox_paired_def)
  then show ?thesis by auto
qed

lemma paired_batch:
  assumes "outbox_paired db" and "e \<in> set (outbox_events db)"
  shows "\<exists>r \<in> set (telemetry_batches db). ob_aggregate_id e = uuid_str (tb_batch_id r)"
proof -
  have "ob_aggregate_id e \<in> set (map (\<lambda>r. uuid_str (tb_batch_id r)) (telemetry_batches db))"
    using assms by (metis image_eqI list.set_map outbox_paired_def)
  then show ?thesis by auto
qed

lemma distinct_aggregates:
  assumes "schema_ok db" and "outbox_paired db"
  shows "distinct (map ob_aggregate_id (outbox_events db))"
proof -
  have "distinct (map tb_batch_id (telemetry_batches db))" using assms(1) by (simp add: schema_ok_def)
  then have "distinct (map uuid_str (map tb_batch_id (telemetry_batches db)))"
    by (subst distinct_map) (simp add: inj_on_def)
  then show ?thesis using assms(2) by (simp add: outbox_paired_def o_def)
qed

text \<open>When no call raises, the event of a stored batch is processed, if it was not before.\<close>

lemma calm_process_event:
  assumes "codec_ok c" and "calm env" and "fresh_incident_ids env db" and "fits_names cfg mid" and "schema_ok db"
    and "row \<in> set (telemetry_batches db)" and "wf_batch b" and "tb_batch_id row = batch_id b"
    and "tb_agent_id row = agent_id b" and "tb_payload row = dump_batch c b"
    and "qe_event_type ev = accepted_type" and "qe_aggregate_id ev = uuid_str (batch_id b)"
  shows "\<exists>db' cs. process_event c cfg env mid ev db = (Inr (), db', cs) \<and>
    (qe_event_id ev \<notin> processed_ids db \<longrightarrow> (\<exists>a s. row_lookup fs_agent_id (fleet_state db') a = Some s \<and>
       fs_last_batch_id s = batch_id b))"
proof (cases "qe_event_id ev \<in> processed_ids db")
  case True
  then have "process_body c cfg env mid ev db = Inr ([], db)"
    using assms(2,4) by (simp add: process_body_def execute_def calm_def insert_processed_def fits_processed_def
        varchar_def fits_names_def row_insert_ignore_def processed_ids_def)
  then show ?thesis using True assms(2) by (simp add: process_event_def session_begin_def calm_def)
next
  case False
  from process_event_ok[OF assms False]
  obtain created db' where "process_event c cfg env mid ev db = (Inr (), db', map (\<lambda>ty. (''incidents'', ty)) created)"
    "event_effect cfg b db db' created" by blast
  then show ?thesis unfolding event_effect_def by metis
qed

section \<open>Properties of the pipeline\<close>

text \<open>
  C1: No accepted batch is lost. In every reachable state, each stored batch has exactly one outbox
  event; that event is still unpublished or its message is on the stream; and a message the consumer
  group was given is either still pending or its event has been processed. Nothing is ever
  dead-lettered, whatever faults the drivers raise and in whatever order the processes run.
\<close>

theorem no_accepted_batch_is_lost:
  assumes "codec_ok c" and "reachable c fr st"
  shows "(\<forall>r \<in> set (telemetry_batches (wdb st)). \<exists>!e. e \<in> set (outbox_events (wdb st)) \<and>
      ob_aggregate_id e = uuid_str (tb_batch_id r) \<and>
      (ob_published_at e = None \<or> event_fields fr e \<in> snd ` set (entries (wredis st)))) \<and>
    (\<forall>(mid, f) \<in> set (take (group_read (wredis st)) (entries (wredis st))). mid \<in> pending_ids (wredis st) \<or>
      (\<exists>e \<in> set (outbox_events (wdb st)). f = event_fields fr e \<and> ob_event_id e \<in> processed_ids (wdb st))) \<and>
    dead_letters (wdb st) = [] \<and> dead_letter_entries (wredis st) = []"
proof -
  note inv = reachable_inv[OF assms(2,1)]
  have p: "schema_ok (wdb st)" "outbox_paired (wdb st)" using inv by (simp_all add: store_inv_def)
  have one: "\<exists>!e. e \<in> set (outbox_events (wdb st)) \<and> ob_aggregate_id e = uuid_str (tb_batch_id r) \<and>
      (ob_published_at e = None \<or> event_fields fr e \<in> snd ` set (entries (wredis st)))"
    if r: "r \<in> set (telemetry_batches (wdb st))" for r
  proof -
    obtain e where e: "e \<in> set (outbox_events (wdb st))" "ob_aggregate_id e = uuid_str (tb_batch_id r)"
      using paired_event[OF p(2) r] by blast
    have "ob_published_at e = None \<or> event_fields fr e \<in> snd ` set (entries (wredis st))"
      using inv e(1) by (auto simp: stream_inv_def)
    moreover have "e' = e" if "e' \<in> set (outbox_events (wdb st))" "ob_aggregate_id e' = uuid_str (tb_batch_id r)" for e'
      using distinct_aggregates[OF p] e that by (metis distinct_map inj_on_def)
    ultimately show ?thesis using e by blast
  qed
  have "\<forall>x \<in> set (take (group_read (wredis st)) (entries (wredis st))). fst x \<in> pending_ids (wredis st) \<or> settled fr (wdb st) (snd x)"
    using inv by (simp add: stream_inv_def)
  then have "\<forall>(mid, f) \<in> set (take (group_read (wredis st)) (entries (wredis st))). mid \<in> pending_ids (wredis st) \<or>
      (\<exists>e \<in> set (outbox_events (wdb st)). f = event_fields fr e \<and> ob_event_id e \<in> processed_ids (wdb st))"
    by (auto simp: settled_def)
  then show ?thesis using one inv by (simp add: store_inv_def stream_inv_def)
qed


section \<open>Refinement of the pipeline's contract\<close>

text \<open>
  What the pipeline promises, without tables and streams: batches are accepted once, and an accepted
  batch is processed at most once.
\<close>

inductive contract_step :: "uuid set \<times> uuid set \<Rightarrow> uuid set \<times> uuid set \<Rightarrow> bool" where
  accept: "u \<notin> accepted \<Longrightarrow> contract_step (accepted, processed) (insert u accepted, processed)"
| process: "u \<in> accepted \<Longrightarrow> u \<notin> processed \<Longrightarrow> contract_step (accepted, processed) (accepted, insert u processed)"
| idle: "contract_step s s"

definition processed_batches :: "database \<Rightarrow> uuid set" where
  "processed_batches db = {u. \<exists>e \<in> set (outbox_events db). ob_aggregate_id e = uuid_str u \<and> ob_event_id e \<in> processed_ids db}"

definition contract_state :: "worker_state \<Rightarrow> uuid set \<times> uuid set" where
  "contract_state st = (tb_batch_id ` set (telemetry_batches (wdb st)), processed_batches (wdb st))"

lemma refine_ingest:
  assumes "store_inv c db" and "wf_batch b" and "finite_batch b" and "db' = fst (snd (ingest_batch c env b db))"
  shows "contract_step (tb_batch_id ` set (telemetry_batches db), processed_batches db)
    (tb_batch_id ` set (telemetry_batches db'), processed_batches db')"
proof -
  note cases = ingest_batch_outcomes[OF assms(2,3), of c env db, folded assms(4)]
  show ?thesis
  proof (cases "telemetry_batches db' = telemetry_batches db")
    case True
    with cases have "outbox_events db' = outbox_events db" "processed_ids db' = processed_ids db" by (auto simp: processed_ids_def)
    with True show ?thesis by (simp add: processed_batches_def contract_step.idle)
  next
    case False
    with cases have new: "batch_id b \<notin> tb_batch_id ` set (telemetry_batches db)"
      "ing_event_id env \<notin> ob_event_id ` set (outbox_events db)" "processed_ids db' = processed_ids db"
      "telemetry_batches db' = telemetry_batches db @ [stored_batch c env b]"
      "outbox_events db' = outbox_events db @ [stored_event env b]"
      by (auto simp: processed_ids_def)
    then have "ing_event_id env \<notin> processed_ids db" using assms(1) by (auto simp: store_inv_def)
    then have "processed_batches db' = processed_batches db" using new by (auto simp: processed_batches_def)
    moreover have "tb_batch_id ` set (telemetry_batches db') = insert (batch_id b) (tb_batch_id ` set (telemetry_batches db))"
      using new by simp
    ultimately show ?thesis using contract_step.accept[OF new(1)] by simp
  qed
qed

lemma refine_publish:
  assumes "keyed ob_event_id (outbox_events db)" and "publish_once fr env db rs = (r, db', rs')"
  shows "telemetry_batches db' = telemetry_batches db \<and> processed_batches db' = processed_batches db"
proof -
  obtain n rows where db': "db' = db\<lparr>outbox_events := rows\<rparr>"
    and all: "list_all2 (\<lambda>x y. same_event x y \<and> (y = x \<or> (\<exists>i < n. x = unpublished (rel_locked env) db ! i)))
      (outbox_events db) rows"
    using publish_once_cases[OF assms] by blast
  have rel: "list_all2 same_event (outbox_events db) rows" by (rule list_all2_mono[OF all]) simp
  have "(\<exists>y \<in> set rows. ob_aggregate_id y = a \<and> ob_event_id y \<in> S) \<longleftrightarrow>
      (\<exists>x \<in> set (outbox_events db). ob_aggregate_id x = a \<and> ob_event_id x \<in> S)" for a S
    using rel by (induction rule: list_all2_induct) (auto simp: same_event_def)
  then show ?thesis by (simp add: db' processed_batches_def processed_ids_def)
qed

lemma refine_process:
  assumes "store_inv c db" and "e \<in> set (outbox_events db)" and "outbox_events db' = outbox_events db"
    and "telemetry_batches db' = telemetry_batches db"
    and "processed_ids db' \<in> {processed_ids db, insert (ob_event_id e) (processed_ids db)}"
  shows "contract_step (tb_batch_id ` set (telemetry_batches db), processed_batches db)
    (tb_batch_id ` set (telemetry_batches db'), processed_batches db')"
proof (cases "processed_ids db' = processed_ids db")
  case True
  then show ?thesis using assms(3,4) by (simp add: processed_batches_def contract_step.idle)
next
  case False
  then have new: "processed_ids db' = insert (ob_event_id e) (processed_ids db)" "ob_event_id e \<notin> processed_ids db"
    using assms(5) by auto
  obtain r where r: "r \<in> set (telemetry_batches db)" "ob_aggregate_id e = uuid_str (tb_batch_id r)"
    using paired_batch[OF _ assms(2)] assms(1) by (auto simp: store_inv_def)
  have uniq: "x = e" if "x \<in> set (outbox_events db)" "ob_event_id x = ob_event_id e \<or> ob_aggregate_id x = ob_aggregate_id e" for x
    using that assms(1,2) distinct_aggregates[of db] by (metis distinct_map inj_on_def schema_ok_def store_inv_def)
  have "processed_batches db' = insert (tb_batch_id r) (processed_batches db)"
  proof (rule set_eqI)
    fix u
    show "u \<in> processed_batches db' \<longleftrightarrow> u \<in> insert (tb_batch_id r) (processed_batches db)"
      unfolding processed_batches_def mem_Collect_eq insert_iff assms(3) new(1)
      using r(2) assms(2) uniq by (metis uuid_str_inj)
  qed
  moreover have "tb_batch_id r \<notin> processed_batches db"
    using r(2) new(2) uniq by (auto simp: processed_batches_def)
  ultimately show ?thesis using contract_step.process[of "tb_batch_id r"] r(1) assms(4) by simp
qed


text \<open>A concrete run: one batch ingested, published and handed to a worker.\<close>

definition example_relay_env :: relay_env where
  "example_relay_env = \<lparr>rel_db = no_faults (utc_at 1), rel_locked = (\<lambda>u. False),
     rel_message_id = (\<lambda>k. show_nat k @ ''-0''), rel_fault = (\<lambda>k. None), rel_now = (\<lambda>k. utc_at 1)\<rparr>"

definition example_ingested :: worker_state where
  "example_ingested = \<lparr>wdb = empty_database\<lparr>
     agents := agents_after (example_env 5 0) (example_batch 1 0 95) [],
     telemetry_batches := [stored_batch example_codec (example_env 5 0) (example_batch 1 0 95)],
     outbox_events := [stored_event (example_env 5 0) (example_batch 1 0 95)]\<rparr>, wredis = empty_redis\<rparr>"

lemma reachable_example_ingested: "reachable example_codec fr example_ingested"
proof -
  let ?b = "example_batch 1 0 95" and ?st = "\<lparr>wdb = empty_database, wredis = empty_redis\<rparr>"
  have wf: "wf_batch ?b" by (rule wf_example_batch) simp_all
  have "fst (snd (ingest_batch example_codec (example_env 5 0) ?b empty_database)) = wdb example_ingested"
    by (simp add: ingest_batch_def session_begin_def ingest_body_unfold[OF wf finite_example_batch] example_env_def
        no_faults_def empty_database_def example_ingested_def)
  then have "?st\<lparr>wdb := fst (snd (ingest_batch example_codec (example_env 5 0) ?b (wdb ?st)))\<rparr> = example_ingested"
    by (simp add: example_ingested_def)
  with pipeline_step.ingest[OF wf finite_example_batch, of example_codec fr ?st "example_env 5 0"]
  show ?thesis using reachable.step[OF reachable.start] by metis
qed

definition example_pending :: "(pyfloat \<Rightarrow> string) \<Rightarrow> worker_state" where
  "example_pending fr = \<lparr>wdb = (wdb example_ingested)\<lparr>outbox_events :=
       [(stored_event (example_env 5 0) (example_batch 1 0 95))\<lparr>ob_published_at := Some (utc_at 1), ob_publication_attempts := 1\<rparr>]\<rparr>,
     wredis = empty_redis\<lparr>entries := [(''0-0'', event_fields fr (stored_event (example_env 5 0) (example_batch 1 0 95)))],
       group_read := 1, pending := [(''0-0'', 1)]\<rparr>\<rparr>"

lemma reachable_example_pending: "reachable example_codec fr (example_pending fr)"
proof -
  let ?e = "stored_event (example_env 5 0) (example_batch 1 0 95)"
  let ?rs = "empty_redis\<lparr>entries := [(''0-0'', event_fields fr ?e)]\<rparr>"
  have fresh: "fresh_messages example_relay_env (wredis example_ingested)"
    by (auto simp: fresh_messages_def example_relay_env_def inj_def show_nat_inj example_ingested_def empty_redis_def)
  have zero: "show_nat 0 = ''0''" by code_simp
  have "publish_once fr example_relay_env (wdb example_ingested) (wredis example_ingested) =
      (Inr 1, wdb (example_pending fr), ?rs)"
    by (simp add: publish_once_def example_relay_env_def no_faults_def unpublished_def example_ingested_def
        example_pending_def session_begin_def execute_def write_rows_def row_lookup_def xadd_def zero
        empty_redis_def stored_event_def accepted_event_def del: event_fields_def)
  note p = pipeline_step.publish[OF fresh this, of example_codec]
  have "xreadgroup 10 ?rs = ([(''0-0'', event_fields fr ?e)], wredis (example_pending fr))"
    by (simp add: xreadgroup_def empty_redis_def example_pending_def Let_def)
  then have "pipeline_step example_codec fr \<lparr>wdb = wdb (example_pending fr), wredis = ?rs\<rparr>
      (\<lparr>wdb = wdb (example_pending fr), wredis = ?rs\<rparr>\<lparr>wredis := wredis (example_pending fr)\<rparr>)"
    by (intro pipeline_step.read[of 10]) simp
  then have "pipeline_step example_codec fr \<lparr>wdb = wdb (example_pending fr), wredis = ?rs\<rparr> (example_pending fr)"
    by (simp add: example_pending_def)
  then show ?thesis using reachable.step[OF reachable.step[OF reachable_example_ingested p]] by blast
qed

theorem no_accepted_batch_is_lost_witness:
  "\<exists>!e. e \<in> set (outbox_events (wdb (example_pending (\<lambda>_. [])))) \<and> ob_aggregate_id e = uuid_str 1 \<and>
     (ob_published_at e = None \<or> event_fields (\<lambda>_. []) e \<in> snd ` set (entries (wredis (example_pending (\<lambda>_. [])))))"
proof -
  have r: "stored_batch example_codec (example_env 5 0) (example_batch 1 0 95) \<in>
      set (telemetry_batches (wdb (example_pending (\<lambda>_. []))))"
    by (simp add: example_pending_def example_ingested_def)
  have "batch_id (example_batch 1 0 95) = 1" by (simp add: example_batch_def)
  then show ?thesis
    using bspec[OF conjunct1[OF no_accepted_batch_is_lost[OF example_codec_ok reachable_example_pending]] r] by simp
qed





end
