(* ===== verification/Loops.thy ===== *)
theory Loops
  imports Pipeline
begin

text \<open>
  The loops of the relay and of the worker (\<open>worker/relay.py\<close>, \<open>worker/main.py\<close>) inside the pipeline:
  whatever the other processes do in between, a run of either loop takes only steps of the pipeline. So
  the invariant of theory \<open>Pipeline\<close> holds of every state the real loops can reach.
\<close>

section \<open>Messages a worker has been handed\<close>

abbreviation pipeline_steps :: "codec \<Rightarrow> (pyfloat \<Rightarrow> string) \<Rightarrow> worker_state \<Rightarrow> worker_state \<Rightarrow> bool" where
  "pipeline_steps c fr \<equiv> (pipeline_step c fr)\<^sup>*\<^sup>*"

definition delivered :: "worker_state \<Rightarrow> (string \<times> fields) set" where
  "delivered st = set (take (group_read (wredis st)) (entries (wredis st)))"

lemma handle_message_frame:
  assumes "handle_message c cfg env mid f st = (r, st', logs)"
  shows "entries (wredis st') = entries (wredis st) \<and> group_read (wredis st') = group_read (wredis st)"
proof -
  obtain t st1 where t: "try_message c cfg env mid f st = (t, st1)" by fastforce
  have "st' = st1 \<or> (\<exists>e n r'. dead_letter env mid f e n st1 = (r', st'))"
    using assms t by (auto simp: handle_message_def Let_def split: sum.splits option.splits if_splits prod.splits)
  with try_message_frame[OF t] dead_letter_wredis_entries show ?thesis by metis
qed

lemma publish_once_frame:
  assumes "publish_once fr env db rs = (r, db', rs')"
  shows "\<exists>xs. entries rs' = entries rs @ xs \<and> group_read rs' = group_read rs"
proof (cases "stmt_fault (rel_db env) 0")
  case None
  obtain p rs1 where p: "publish_rows fr env 0 (unpublished (rel_locked env) db) rs = (p, rs1)" by fastforce
  then have "rs' = rs1" using assms None by (auto simp: publish_once_def split: sum.splits prod.splits)
  then show ?thesis using publish_rows_cases[OF p] by auto
qed (use assms in \<open>simp add: publish_once_def\<close>)

lemma set_take_mono: "m \<le> n \<Longrightarrow> set (take m xs) \<subseteq> set (take n (xs @ ys))"
  by (simp add: set_take_subset_set_take le_supI1)

lemma step_delivered:
  assumes "pipeline_step c fr st st'"
  shows "delivered st \<subseteq> delivered st'"
  using assms
proof cases
  case (publish env r db' rs')
  obtain xs where "entries rs' = entries (wredis st) @ xs" "group_read rs' = group_read (wredis st)"
    using publish_once_frame[OF publish(3)] by blast
  then show ?thesis using publish(1) set_take_mono[OF order_refl] by (simp add: delivered_def)
next
  case (read n new rs')
  then show ?thesis using xreadgroup_entries[OF read(2)] by (simp add: delivered_def) (metis Un_upper1 set_append)
next
  case (reclaim n idle claimed rs')
  then show ?thesis using xautoclaim_frame[OF reclaim(2)] by (simp add: delivered_def)
next
  case (handle mid f env cfg r logs)
  then show ?thesis using handle_message_frame[OF handle(3)] by (simp add: delivered_def)
qed (simp_all add: delivered_def)

lemma steps_delivered: "pipeline_steps c fr st st' \<Longrightarrow> delivered st \<subseteq> delivered st'"
  by (induction rule: rtranclp_induct) (use step_delivered in blast)+

lemma steps_reachable: "pipeline_steps c fr st st' \<Longrightarrow> reachable c fr st \<Longrightarrow> reachable c fr st'"
  by (induction rule: rtranclp_induct) (use reachable.step in blast)+

section \<open>The environment of a run\<close>

text \<open>The other processes take steps of the pipeline; the drivers raise their own exceptions.\<close>

definition others_ok :: "codec \<Rightarrow> (pyfloat \<Rightarrow> string) \<Rightarrow> (worker_state \<Rightarrow> worker_state) \<Rightarrow> bool" where
  "others_ok c fr f \<longleftrightarrow> (\<forall>st. pipeline_steps c fr st (f st))"

definition delivery_ok :: "codec \<Rightarrow> (pyfloat \<Rightarrow> string) \<Rightarrow> delivery_env \<Rightarrow> bool" where
  "delivery_ok c fr d \<longleftrightarrow> others_ok c fr (de_others d) \<and> driver_faults (de_worker d)"

definition pass_ok :: "codec \<Rightarrow> (pyfloat \<Rightarrow> string) \<Rightarrow> pass_env \<Rightarrow> bool" where
  "pass_ok c fr p \<longleftrightarrow> (\<forall>k. others_ok c fr (ps_others p k)) \<and>
     (\<forall>mid. delivery_ok c fr (ps_reclaimed p mid) \<and> delivery_ok c fr (ps_fresh p mid))"

text \<open>Redis creates a group only where none exists: nothing has been handed out yet.\<close>

definition group_reply_ok :: "(string + py_error) option \<Rightarrow> worker_state \<Rightarrow> bool" where
  "group_reply_ok reply st \<longleftrightarrow> (reply = None \<longrightarrow> group_read (wredis st) = 0 \<and> pending (wredis st) = [])"

section \<open>The worker\<close>

lemma handle_all_steps:
  assumes "\<And>mid. delivery_ok c fr (envs mid)" and "set ms \<subseteq> delivered st" and "handle_all c cfg envs ms st = (r, st')"
  shows "pipeline_steps c fr st st'"
  using assms(2,3)
proof (induction ms arbitrary: st)
  case (Cons m ms)
  obtain mid f where m: "m = (mid, f)" by fastforce
  let ?st = "de_others (envs mid) st"
  obtain t st1 logs where t: "handle_message c cfg (de_worker (envs mid)) mid f ?st = (t, st1, logs)" by (metis prod_cases3)
  have ok: "pipeline_steps c fr st ?st" "driver_faults (de_worker (envs mid))"
    using assms(1)[of mid] by (simp_all add: delivery_ok_def others_ok_def)
  have "delivered st \<subseteq> delivered ?st" using ok(1) by (rule steps_delivered)
  then have "(mid, f) \<in> delivered ?st" using Cons.prems(1) m by auto
  then have step: "pipeline_step c fr ?st st1"
    using pipeline_step.handle[OF _ ok(2) t] by (simp add: delivered_def)
  with ok(1) have one: "pipeline_steps c fr st st1" by simp
  show ?case
  proof (cases t)
    case (Inl e)
    with Cons.prems(2) t m one show ?thesis by simp
  next
    case (Inr u)
    then have rest: "handle_all c cfg envs ms st1 = (r, st')" using Cons.prems(2) t m by simp
    have "set ms \<subseteq> delivered st1" using Cons.prems(1) steps_delivered[OF one] by auto
    with Cons.IH rest one show ?thesis by (meson rtranclp_trans)
  qed
qed simp

lemma then_do_steps:
  assumes "then_do x f = (r, st')" and "pipeline_steps c fr st (snd x)"
    and "\<And>st1 r'. x = (Inr (), st1) \<Longrightarrow> f st1 = (r, st') \<Longrightarrow> pipeline_steps c fr st1 st'"
  shows "pipeline_steps c fr st st'"
  using assms(1)
proof (cases rule: then_do_cases)
  case 1
  with assms(2) show ?thesis by simp
next
  case (2 st1)
  with assms(2,3) show ?thesis by (metis rtranclp_trans snd_conv)
qed

text \<open>A stream command whose effect is a step, wherever it is made.\<close>

lemma stream_call_steps:
  assumes "stream_call p k command continue st = (r, st')" and "pass_ok c fr p" and "reachable c fr st"
    and "\<And>st1. pipeline_steps c fr st1 (st1\<lparr>wredis := snd (command (wredis st1))\<rparr>)"
    and "\<And>st1 messages rs. reachable c fr st1 \<Longrightarrow> command (wredis st1) = (messages, rs) \<Longrightarrow>
      reachable c fr (st1\<lparr>wredis := rs\<rparr>) \<Longrightarrow> continue messages (st1\<lparr>wredis := rs\<rparr>) = (r, st') \<Longrightarrow>
      pipeline_steps c fr (st1\<lparr>wredis := rs\<rparr>) st'"
  shows "pipeline_steps c fr st st'"
proof -
  let ?st = "ps_others p k st"
  have others: "pipeline_steps c fr st ?st" using assms(2) by (simp add: pass_ok_def others_ok_def)
  have reach: "reachable c fr ?st" using others assms(3) by (rule steps_reachable)
  obtain messages rs where cmd: "command (wredis ?st) = (messages, rs)" by fastforce
  have effect: "pipeline_steps c fr st (?st\<lparr>wredis := rs\<rparr>)"
    using rtranclp_trans[OF others assms(4)[of ?st]] cmd by simp
  show ?thesis
  proof (cases "ps_fault p k")
    case None
    then have "continue messages (?st\<lparr>wredis := rs\<rparr>) = (r, st')" using assms(1) cmd by (simp add: stream_call_def)
    from assms(5)[OF reach cmd steps_reachable[OF effect assms(3)] this] effect show ?thesis by (rule rtranclp_trans[rotated])
  next
    case (Some fault)
    then have "st' \<in> {?st, ?st\<lparr>wredis := rs\<rparr>}"
      using assms(1) cmd by (cases fault) (auto simp: stream_call_def Let_def split: if_splits)
    with others effect show ?thesis by blast
  qed
qed

lemma claimed_delivered:
  assumes "codec_ok c" and "reachable c fr st" and "xautoclaim n idle (wredis st) = (claimed, rs)"
  shows "set claimed \<subseteq> delivered (st\<lparr>wredis := rs\<rparr>)"
proof
  fix x assume x: "x \<in> set claimed"
  have inv: "distinct (map fst (entries (wredis st)))" "pending_ids (wredis st) \<subseteq> fst ` delivered st"
    using reachable_inv[OF assms(2,1)] by (simp_all add: stream_inv_def delivered_def)
  obtain i f where i: "x = (i, f)" "map_of (entries (wredis st)) i = Some f" "i \<in> pending_ids (wredis st)"
    using assms(3) x by (auto simp: xautoclaim_def Let_def List.map_filter_def pending_ids_def dest!: in_set_takeD)
  obtain g where g: "(i, g) \<in> delivered st" using i(3) inv(2) by fastforce
  then have "map_of (entries (wredis st)) i = Some g" using inv(1) by (auto simp: delivered_def dest: in_set_takeD)
  then have "x \<in> delivered st" using g i(1,2) by simp
  then show "x \<in> delivered (st\<lparr>wredis := rs\<rparr>)" using xautoclaim_frame[OF assms(3)] by (simp add: delivered_def)
qed

lemma new_delivered: "xreadgroup n (wredis st) = (new, rs) \<Longrightarrow> set new \<subseteq> delivered (st\<lparr>wredis := rs\<rparr>)"
  using xreadgroup_entries[of n "wredis st" new rs] by (simp add: delivered_def) (metis Un_upper2 set_append)

lemma reclaim_steps: "pipeline_steps c fr st (st\<lparr>wredis := snd (xautoclaim n idle (wredis st))\<rparr>)"
  by (rule r_into_rtranclp, rule pipeline_step.reclaim) (rule surjective_pairing)

lemma read_steps: "pipeline_steps c fr st (st\<lparr>wredis := snd (xreadgroup n (wredis st))\<rparr>)"
  by (rule r_into_rtranclp, rule pipeline_step.read) (rule surjective_pairing)

lemma worker_pass_steps:
  assumes "codec_ok c" and "pass_ok c fr p" and "reachable c fr st" and "worker_pass c cfg p st = (r, st')"
  shows "pipeline_steps c fr st st'"
  using assms(4) unfolding worker_pass_def
proof (rule stream_call_steps[OF _ assms(2,3) reclaim_steps])
  fix st1 :: worker_state and claimed rs
  let ?st1 = "st1\<lparr>wredis := rs\<rparr>"
  assume claim: "reachable c fr st1" "xautoclaim 10 (ps_idle p) (wredis st1) = (claimed, rs)" and reach: "reachable c fr ?st1"
    and run: "then_do (handle_all c cfg (ps_reclaimed p) claimed ?st1) (stream_call p 1 (xreadgroup 10) (\<lambda>new st'.
      then_do (handle_all c cfg (ps_fresh p) new st') (stream_call p 2 (Pair []) (\<lambda>_ st''. (Inr (), st''))))) = (r, st')"
  have ok: "delivery_ok c fr (ps_reclaimed p mid)" "delivery_ok c fr (ps_fresh p mid)" for mid
    using assms(2) by (simp_all add: pass_ok_def)
  note handled = handle_all_steps[OF _ _ surjective_pairing]
  have claimed: "pipeline_steps c fr ?st1 (snd (handle_all c cfg (ps_reclaimed p) claimed ?st1))"
    using ok(1) claimed_delivered[OF assms(1) claim] by (rule handled)
  show "pipeline_steps c fr ?st1 st'"
  proof (rule then_do_steps[OF run claimed])
    fix st2
    assume st2: "handle_all c cfg (ps_reclaimed p) claimed ?st1 = (Inr (), st2)"
      and run2: "stream_call p 1 (xreadgroup 10) (\<lambda>new st'.
        then_do (handle_all c cfg (ps_fresh p) new st') (stream_call p 2 (Pair []) (\<lambda>_ st''. (Inr (), st'')))) st2 = (r, st')"
    have "reachable c fr st2" using steps_reachable[OF claimed reach] st2 by simp
    then show "pipeline_steps c fr st2 st'"
    proof (rule stream_call_steps[OF run2 assms(2) _ read_steps])
      fix st3 :: worker_state and new rs3
      let ?st3 = "st3\<lparr>wredis := rs3\<rparr>"
      assume read: "xreadgroup 10 (wredis st3) = (new, rs3)" and reach3: "reachable c fr ?st3"
        and run3: "then_do (handle_all c cfg (ps_fresh p) new ?st3) (stream_call p 2 (Pair []) (\<lambda>_ st''. (Inr (), st''))) = (r, st')"
      have new: "pipeline_steps c fr ?st3 (snd (handle_all c cfg (ps_fresh p) new ?st3))"
        using ok(2) new_delivered[OF read] by (rule handled)
      show "pipeline_steps c fr ?st3 st'"
      proof (rule then_do_steps[OF run3 new])
        fix st4
        assume st4: "handle_all c cfg (ps_fresh p) new ?st3 = (Inr (), st4)"
          and run4: "stream_call p 2 (Pair []) (\<lambda>_ st''. (Inr (), st'')) st4 = (r, st')"
        have "reachable c fr st4" using steps_reachable[OF new reach3] st4 by simp
        then show "pipeline_steps c fr st4 st'" by (rule stream_call_steps[OF run4 assms(2)]) simp_all
      qed
    qed
  qed
qed

lemma worker_loop_steps:
  assumes "codec_ok c" and "\<forall>p \<in> set ps. pass_ok c fr p" and "reachable c fr st" and "worker_loop c cfg ps st = (r, st')"
  shows "pipeline_steps c fr st st'"
  using assms(2-4)
proof (induction ps arbitrary: st)
  case (Cons p ps)
  obtain t st1 where t: "worker_pass c cfg p st = (t, st1)" by fastforce
  have pass: "pipeline_steps c fr st st1" using worker_pass_steps[OF assms(1) _ Cons.prems(2) t] Cons.prems(1) by simp
  show ?case
  proof (rule then_do_steps[where f = "worker_loop c cfg ps"])
    show "then_do (worker_pass c cfg p st) (worker_loop c cfg ps) = (r, st')" using Cons.prems(3) by simp
    show "pipeline_steps c fr st (snd (worker_pass c cfg p st))" using pass t by simp
    show "pipeline_steps c fr st2 st'" if "worker_pass c cfg p st = (Inr (), st2)" "worker_loop c cfg ps st2 = (r, st')" for st2
      using that t Cons.IH Cons.prems(1) steps_reachable[OF pass Cons.prems(2)] by simp
  qed
qed simp

lemma start_group_same: "group_reply_ok reply st \<Longrightarrow> snd (start_group reply st) = st"
  by (auto simp: start_group_def group_reply_ok_def split: option.split sum.split)

text \<open>
  C3: A run of the worker is a run of the pipeline. Whatever the other processes do between its actions,
  which calls fail, whether a lost reply hid a command that was carried out, and whether the worker ends by
  itself or by an exception: it takes only steps of the pipeline, so from a reachable state it ends in a
  reachable state, where no accepted batch is lost.
\<close>

theorem worker_run_refines_pipeline:
  assumes "codec_ok c" and "reachable c fr st" and "\<forall>p \<in> set ps. pass_ok c fr p" and "group_reply_ok reply st"
  shows "pipeline_steps c fr st (snd (worker_run c cfg reply ps st)) \<and> reachable c fr (snd (worker_run c cfg reply ps st))"
proof -
  obtain r st' where run: "worker_run c cfg reply ps st = (r, st')" by fastforce
  have "pipeline_steps c fr st st'"
    using run unfolding worker_run_def
  proof (rule then_do_steps)
    show "pipeline_steps c fr st (snd (start_group reply st))" using start_group_same[OF assms(4)] by simp
    show "pipeline_steps c fr st1 st'" if "start_group reply st = (Inr (), st1)" "worker_loop c cfg ps st1 = (r, st')" for st1
      using that start_group_same[OF assms(4)] worker_loop_steps[OF assms(1,3,2)] by simp
  qed
  with steps_reachable[OF this assms(2)] run show ?thesis by simp
qed

definition example_pass :: pass_env where
  "example_pass = \<lparr>ps_idle = (\<lambda>_. True), ps_fault = (\<lambda>_. None), ps_others = (\<lambda>_ st. st),
     ps_reclaimed = (\<lambda>_. \<lparr>de_others = (\<lambda>st. st), de_worker = example_worker_env\<rparr>),
     ps_fresh = (\<lambda>_. \<lparr>de_others = (\<lambda>st. st), de_worker = example_worker_env\<rparr>)\<rparr>"

lemma driver_faults_example: "driver_faults example_worker_env"
  using calm_example by (simp add: driver_faults_def driver_db_def calm_def example_worker_env_def no_faults_def)

lemma pass_ok_example: "pass_ok c fr example_pass"
  by (simp add: pass_ok_def delivery_ok_def others_ok_def example_pass_def driver_faults_example)

theorem worker_run_refines_pipeline_witness:
  "reachable example_codec (\<lambda>_. []) (snd (worker_run example_codec example_worker
     (Some (Inl ''BUSYGROUP Consumer Group name already exists'')) [example_pass] (example_pending (\<lambda>_. []))))"
  using worker_run_refines_pipeline[OF example_codec_ok reachable_example_pending, of "[example_pass]"]
  by (simp add: pass_ok_example group_reply_ok_def)

section \<open>The relay\<close>

text \<open>Each pass finds new ids in Redis; the other processes take steps of the pipeline.\<close>

fun relay_passes_ok :: "codec \<Rightarrow> (pyfloat \<Rightarrow> string) \<Rightarrow>
    (relay_env \<times> (database \<times> redis_state \<Rightarrow> database \<times> redis_state)) list \<Rightarrow> database \<times> redis_state \<Rightarrow> bool" where
  "relay_passes_ok c fr [] s \<longleftrightarrow> True"
| "relay_passes_ok c fr ((env, others) # passes) s \<longleftrightarrow>
     pipeline_steps c fr \<lparr>wdb = fst s, wredis = snd s\<rparr> \<lparr>wdb = fst (others s), wredis = snd (others s)\<rparr> \<and>
     fresh_messages env (snd (others s)) \<and>
     (case relay_pass fr env (fst (others s)) (snd (others s)) of (db', rs', _) \<Rightarrow> relay_passes_ok c fr passes (db', rs'))"

lemma relay_pass_step:
  assumes "fresh_messages env rs" and "relay_pass fr env db rs = (db', rs', counts)"
  shows "pipeline_step c fr \<lparr>wdb = db, wredis = rs\<rparr> \<lparr>wdb = db', wredis = rs'\<rparr>"
proof -
  obtain r where "publish_once fr env db rs = (r, db', rs')"
    using assms(2) by (auto simp: relay_pass_def split: prod.splits sum.splits)
  then show ?thesis using pipeline_step.publish[of env "\<lparr>wdb = db, wredis = rs\<rparr>"] assms(1) by simp
qed

theorem relay_run_refines_pipeline:
  assumes "relay_passes_ok c fr passes (db, rs)" and "relay_run fr passes (db, rs) = (db', rs')"
  shows "pipeline_steps c fr \<lparr>wdb = db, wredis = rs\<rparr> \<lparr>wdb = db', wredis = rs'\<rparr>"
  using assms
proof (induction passes arbitrary: db rs)
  case (Cons p passes)
  obtain env others where p: "p = (env, others)" by fastforce
  obtain db1 rs1 where s1: "others (db, rs) = (db1, rs1)" by fastforce
  obtain db2 rs2 counts where pass: "relay_pass fr env db1 rs1 = (db2, rs2, counts)" by (metis prod_cases3)
  have others: "pipeline_steps c fr \<lparr>wdb = db, wredis = rs\<rparr> \<lparr>wdb = db1, wredis = rs1\<rparr>"
    and "fresh_messages env rs1" and rest: "relay_passes_ok c fr passes (db2, rs2)"
    using Cons.prems(1) p s1 pass by simp_all
  then have "pipeline_steps c fr \<lparr>wdb = db, wredis = rs\<rparr> \<lparr>wdb = db2, wredis = rs2\<rparr>"
    using relay_pass_step[OF _ pass] by (meson rtranclp.rtrancl_into_rtrancl)
  moreover have "relay_run fr passes (db2, rs2) = (db', rs')" using Cons.prems(2) p s1 pass by simp
  ultimately show ?case using Cons.IH[OF rest] by (meson rtranclp_trans)
qed simp

end
