(* ===== verification/Migrations.thy ===== *)
theory Migrations
  imports Store
begin

text \<open>
  The two Alembic migrations under \<open>src/migrations/versions\<close> as lists of operations on a database
  schema, and the declarative models of \<open>src/fleetpulse/api/models.py\<close> as the metadata
  SQLAlchemy derives from them. The theorems show that the migrations build exactly the tables the
  models describe, that the downgrades undo them, and that the column checks of the store are those
  of the migrated schema.
\<close>

section \<open>Schemas\<close>

datatype col_type = VarcharT nat | UuidT | TimestampT | IntegerT | DoubleT | JsonbT | TextT

datatype on_delete = Restrict | Cascade

record column =
  col_name :: string
  col_type :: col_type
  col_nullable :: bool
  col_default_now :: bool

text \<open>A foreign key: the local column, the table and column it refers to, and the delete rule.\<close>

record foreign_key =
  fk_column :: string
  fk_table :: string
  fk_target :: string
  fk_on_delete :: on_delete

record table =
  tbl_name :: string
  tbl_columns :: "column list"
  tbl_primary_key :: "string list"
  tbl_foreign_keys :: "foreign_key list"
  tbl_uniques :: "(string \<times> string list) list"
  tbl_indexes :: "(string \<times> string list) list"

type_synonym schema = "table list"

definition find_table :: "string \<Rightarrow> schema \<Rightarrow> table option" where
  "find_table n s = find (\<lambda>t. tbl_name t = n) s"

definition column_names :: "table \<Rightarrow> string list" where
  "column_names t = map col_name (tbl_columns t)"

section \<open>Operations\<close>

datatype schema_op =
    CreateTable table
  | CreateIndex string string "string list"
  | DropIndex string string
  | DropTable string

text \<open>
  What PostgreSQL does on each: a table is created once and after the tables it refers to; an index
  needs its table and columns; only an existing index and an existing table that no other table refers
  to can be dropped.
\<close>

definition targets_exist :: "schema \<Rightarrow> table \<Rightarrow> bool" where
  "targets_exist s t = list_all (\<lambda>f. fk_column f \<in> set (column_names t) \<and>
     (case find_table (fk_table f) s of
        None \<Rightarrow> False
      | Some u \<Rightarrow> tbl_primary_key u = [fk_target f])) (tbl_foreign_keys t)"

fun apply_op :: "schema_op \<Rightarrow> schema \<Rightarrow> schema res" where
  "apply_op (CreateTable t) s =
     (if find_table (tbl_name t) s \<noteq> None then Inl (ServiceError ''DuplicateTableError'')
      else if \<not> targets_exist s t then Inl (ServiceError ''UndefinedTableError'')
      else Inr (s @ [t]))"
| "apply_op (CreateIndex n tn cols) s =
     (case find_table tn s of
        None \<Rightarrow> Inl (ServiceError ''UndefinedTableError'')
      | Some t \<Rightarrow>
          if \<not> set cols \<subseteq> set (column_names t) then Inl (ServiceError ''UndefinedColumnError'')
          else if n \<in> set (concat (map (map fst \<circ> tbl_indexes) s)) then Inl (ServiceError ''DuplicateTableError'')
          else Inr (map (\<lambda>u. if tbl_name u = tn then u\<lparr>tbl_indexes := tbl_indexes u @ [(n, cols)]\<rparr> else u) s))"
| "apply_op (DropIndex n tn) s =
     (case find_table tn s of
        None \<Rightarrow> Inl (ServiceError ''UndefinedTableError'')
      | Some t \<Rightarrow>
          if n \<notin> fst ` set (tbl_indexes t) then Inl (ServiceError ''UndefinedObjectError'')
          else Inr (map (\<lambda>u. if tbl_name u = tn then u\<lparr>tbl_indexes := filter (\<lambda>i. fst i \<noteq> n) (tbl_indexes u)\<rparr> else u) s))"
| "apply_op (DropTable n) s =
     (if find_table n s = None then Inl (ServiceError ''UndefinedTableError'')
      else if list_ex (\<lambda>u. tbl_name u \<noteq> n \<and> list_ex (\<lambda>f. fk_table f = n) (tbl_foreign_keys u)) s
      then Inl (ServiceError ''DependentObjectsStillExistError'')
      else Inr (filter (\<lambda>u. tbl_name u \<noteq> n) s))"

fun apply_ops :: "schema_op list \<Rightarrow> schema \<Rightarrow> schema res" where
  "apply_ops [] s = Inr s"
| "apply_ops (x # xs) s = res_bind (apply_op x s) (apply_ops xs)"

text \<open>\<open>sa.Column\<close> with \<open>nullable=False\<close>, with a server default, and nullable.\<close>

definition col :: "string \<Rightarrow> col_type \<Rightarrow> column" where
  "col n t = \<lparr>col_name = n, col_type = t, col_nullable = False, col_default_now = False\<rparr>"

definition now_col :: "string \<Rightarrow> column" where
  "now_col n = \<lparr>col_name = n, col_type = TimestampT, col_nullable = False, col_default_now = True\<rparr>"

definition nullable_col :: "string \<Rightarrow> col_type \<Rightarrow> column" where
  "nullable_col n t = \<lparr>col_name = n, col_type = t, col_nullable = True, col_default_now = False\<rparr>"

definition agent_fk :: "on_delete \<Rightarrow> foreign_key" where
  "agent_fk d = \<lparr>fk_column = ''agent_id'', fk_table = ''agents'', fk_target = ''agent_id'', fk_on_delete = d\<rparr>"

definition plain_table :: "string \<Rightarrow> column list \<Rightarrow> foreign_key list \<Rightarrow> string \<Rightarrow> table" where
  "plain_table n cols fks pk =
     \<lparr>tbl_name = n, tbl_columns = cols, tbl_primary_key = [pk], tbl_foreign_keys = fks, tbl_uniques = [], tbl_indexes = []\<rparr>"

section \<open>The migrations\<close>

text \<open>\<open>20260717_0001_phase1.py\<close>.\<close>

definition upgrade_0001 :: "schema_op list" where
  "upgrade_0001 =
     [CreateTable (plain_table ''agents''
        [col ''agent_id'' (VarcharT 128), col ''hostname'' (VarcharT 255), now_col ''first_seen_at'', now_col ''last_seen_at'']
        [] ''agent_id''),
      CreateTable (plain_table ''telemetry_batches''
        [col ''batch_id'' UuidT, col ''agent_id'' (VarcharT 128), col ''schema_version'' IntegerT, now_col ''received_at'',
         col ''observed_start'' TimestampT, col ''observed_end'' TimestampT, col ''sample_count'' IntegerT, col ''payload'' JsonbT]
        [agent_fk Restrict] ''batch_id''),
      CreateIndex ''ix_telemetry_batches_agent_received'' ''telemetry_batches'' [''agent_id'', ''received_at''],
      CreateTable (plain_table ''outbox_events''
        [col ''event_id'' UuidT, col ''aggregate_type'' (VarcharT 64), col ''aggregate_id'' (VarcharT 128),
         col ''event_type'' (VarcharT 128), col ''payload'' JsonbT, now_col ''created_at'',
         nullable_col ''published_at'' TimestampT, col ''publication_attempts'' IntegerT]
        [] ''event_id''),
      CreateIndex ''ix_outbox_unpublished'' ''outbox_events'' [''published_at'', ''created_at'']]"

definition downgrade_0001 :: "schema_op list" where
  "downgrade_0001 =
     [DropIndex ''ix_outbox_unpublished'' ''outbox_events'', DropTable ''outbox_events'',
      DropIndex ''ix_telemetry_batches_agent_received'' ''telemetry_batches'', DropTable ''telemetry_batches'',
      DropTable ''agents'']"

text \<open>\<open>20260717_0002_phase2.py\<close>.\<close>

definition upgrade_0002 :: "schema_op list" where
  "upgrade_0002 =
     [CreateTable (plain_table ''fleet_state''
        [col ''agent_id'' (VarcharT 128), col ''last_batch_id'' UuidT, col ''observed_at'' TimestampT,
         col ''cpu_percent'' DoubleT, col ''memory_percent'' DoubleT, col ''disk_percent'' DoubleT, now_col ''updated_at'']
        [agent_fk Cascade] ''agent_id''),
      CreateTable ((plain_table ''incidents''
        [col ''incident_id'' UuidT, col ''agent_id'' (VarcharT 128), col ''incident_type'' (VarcharT 64),
         col ''deduplication_key'' (VarcharT 256), col ''status'' (VarcharT 32), col ''severity'' (VarcharT 16),
         col ''summary'' TextT, col ''evidence'' JsonbT, now_col ''opened_at'', now_col ''updated_at'']
        [agent_fk Restrict] ''incident_id'')
        \<lparr>tbl_uniques := [(''uq_incident_open_deduplication'', [''deduplication_key'', ''status''])]\<rparr>),
      CreateTable (plain_table ''deployments''
        [col ''deployment_id'' UuidT, col ''service'' (VarcharT 128), col ''version'' (VarcharT 128),
         col ''status'' (VarcharT 32), col ''requested_by'' (VarcharT 128), now_col ''created_at'', now_col ''updated_at'']
        [] ''deployment_id''),
      CreateTable (plain_table ''processed_events''
        [col ''event_id'' UuidT, col ''stream_message_id'' (VarcharT 64), col ''consumer_name'' (VarcharT 128),
         now_col ''processed_at'']
        [] ''event_id''),
      CreateTable (plain_table ''dead_letters''
        [col ''stream_message_id'' (VarcharT 64), col ''event_id'' (VarcharT 128), col ''error_type'' (VarcharT 128),
         col ''attempts'' IntegerT, col ''payload'' JsonbT, now_col ''created_at'']
        [] ''stream_message_id'')]"

definition downgrade_0002 :: "schema_op list" where
  "downgrade_0002 = map DropTable [''dead_letters'', ''processed_events'', ''deployments'', ''incidents'', ''fleet_state'']"

section \<open>The models' metadata\<close>

text \<open>
  One \<open>mapped_column\<close>: the type is absent where the foreign key supplies it; a primary key is not
  null; an attribute without \<open>nullable=False\<close> is nullable as its annotation says.
\<close>

record attribute =
  at_name :: string
  at_type :: "col_type option"
  at_foreign_key :: "(string \<times> string \<times> on_delete) option"
  at_primary_key :: bool
  at_nullable :: bool
  at_server_now :: bool

definition attr :: "string \<Rightarrow> col_type \<Rightarrow> attribute" where
  "attr n t = \<lparr>at_name = n, at_type = Some t, at_foreign_key = None, at_primary_key = False, at_nullable = False,
     at_server_now = False\<rparr>"

definition key_attr :: "string \<Rightarrow> col_type \<Rightarrow> attribute" where
  "key_attr n t = (attr n t)\<lparr>at_primary_key := True\<rparr>"

definition now_attr :: "string \<Rightarrow> attribute" where
  "now_attr n = (attr n TimestampT)\<lparr>at_server_now := True\<rparr>"

definition agent_attr :: "on_delete \<Rightarrow> bool \<Rightarrow> attribute" where
  "agent_attr d pk = \<lparr>at_name = ''agent_id'', at_type = None, at_foreign_key = Some (''agents'', ''agent_id'', d),
     at_primary_key = pk, at_nullable = False, at_server_now = False\<rparr>"

record model =
  mo_table :: string
  mo_attributes :: "attribute list"
  mo_uniques :: "(string \<times> string list) list"
  mo_indexes :: "(string \<times> string list) list"

definition simple_model :: "string \<Rightarrow> attribute list \<Rightarrow> model" where
  "simple_model n ats = \<lparr>mo_table = n, mo_attributes = ats, mo_uniques = [], mo_indexes = []\<rparr>"

definition agent_model :: model where
  "agent_model = simple_model ''agents''
     [key_attr ''agent_id'' (VarcharT 128), attr ''hostname'' (VarcharT 255), now_attr ''first_seen_at'', now_attr ''last_seen_at'']"

definition batch_model :: model where
  "batch_model = (simple_model ''telemetry_batches''
     [key_attr ''batch_id'' UuidT, agent_attr Restrict False, attr ''schema_version'' IntegerT, now_attr ''received_at'',
      attr ''observed_start'' TimestampT, attr ''observed_end'' TimestampT, attr ''sample_count'' IntegerT, attr ''payload'' JsonbT])
     \<lparr>mo_indexes := [(''ix_telemetry_batches_agent_received'', [''agent_id'', ''received_at''])]\<rparr>"

definition outbox_model :: model where
  "outbox_model = (simple_model ''outbox_events''
     [key_attr ''event_id'' UuidT, attr ''aggregate_type'' (VarcharT 64), attr ''aggregate_id'' (VarcharT 128),
      attr ''event_type'' (VarcharT 128), attr ''payload'' JsonbT, now_attr ''created_at'',
      (attr ''published_at'' TimestampT)\<lparr>at_nullable := True\<rparr>, attr ''publication_attempts'' IntegerT])
     \<lparr>mo_indexes := [(''ix_outbox_unpublished'', [''published_at'', ''created_at''])]\<rparr>"

definition fleet_state_model :: model where
  "fleet_state_model = simple_model ''fleet_state''
     [agent_attr Cascade True, attr ''last_batch_id'' UuidT, attr ''observed_at'' TimestampT, attr ''cpu_percent'' DoubleT,
      attr ''memory_percent'' DoubleT, attr ''disk_percent'' DoubleT, now_attr ''updated_at'']"

definition incident_model :: model where
  "incident_model = (simple_model ''incidents''
     [key_attr ''incident_id'' UuidT, agent_attr Restrict False, attr ''incident_type'' (VarcharT 64),
      attr ''deduplication_key'' (VarcharT 256), attr ''status'' (VarcharT 32), attr ''severity'' (VarcharT 16),
      attr ''summary'' TextT, attr ''evidence'' JsonbT, now_attr ''opened_at'', now_attr ''updated_at''])
     \<lparr>mo_uniques := [(''uq_incident_open_deduplication'', [''deduplication_key'', ''status''])]\<rparr>"

definition deployment_model :: model where
  "deployment_model = simple_model ''deployments''
     [key_attr ''deployment_id'' UuidT, attr ''service'' (VarcharT 128), attr ''version'' (VarcharT 128),
      attr ''status'' (VarcharT 32), attr ''requested_by'' (VarcharT 128), now_attr ''created_at'', now_attr ''updated_at'']"

definition processed_model :: model where
  "processed_model = simple_model ''processed_events''
     [key_attr ''event_id'' UuidT, attr ''stream_message_id'' (VarcharT 64), attr ''consumer_name'' (VarcharT 128),
      now_attr ''processed_at'']"

definition dead_letter_model :: model where
  "dead_letter_model = simple_model ''dead_letters''
     [key_attr ''stream_message_id'' (VarcharT 64), attr ''event_id'' (VarcharT 128), attr ''error_type'' (VarcharT 128),
      attr ''attempts'' IntegerT, attr ''payload'' JsonbT, now_attr ''created_at'']"

definition models :: "model list" where
  "models = [agent_model, batch_model, outbox_model, fleet_state_model, incident_model, deployment_model, processed_model,
     dead_letter_model]"

text \<open>The metadata: a column without a type takes the type of the column its foreign key names.\<close>

definition attribute_type :: "model list \<Rightarrow> attribute \<Rightarrow> col_type option" where
  "attribute_type ms a = (case at_type a of
     Some t \<Rightarrow> Some t
   | None \<Rightarrow> (case at_foreign_key a of
       None \<Rightarrow> None
     | Some (tn, cn, _) \<Rightarrow>
         Option.bind (find (\<lambda>m. mo_table m = tn) ms) (\<lambda>m.
         Option.bind (find (\<lambda>b. at_name b = cn) (mo_attributes m)) at_type)))"

definition column_of :: "model list \<Rightarrow> attribute \<Rightarrow> column option" where
  "column_of ms a = map_option (\<lambda>t. \<lparr>col_name = at_name a, col_type = t,
     col_nullable = (at_nullable a \<and> \<not> at_primary_key a), col_default_now = at_server_now a\<rparr>) (attribute_type ms a)"

definition table_of :: "model list \<Rightarrow> model \<Rightarrow> table option" where
  "table_of ms m = map_option (\<lambda>cols.
     \<lparr>tbl_name = mo_table m, tbl_columns = cols,
      tbl_primary_key = map at_name (filter at_primary_key (mo_attributes m)),
      tbl_foreign_keys = List.map_filter (\<lambda>a. map_option (\<lambda>(tn, cn, d).
         \<lparr>fk_column = at_name a, fk_table = tn, fk_target = cn, fk_on_delete = d\<rparr>) (at_foreign_key a)) (mo_attributes m),
      tbl_uniques = mo_uniques m, tbl_indexes = mo_indexes m\<rparr>) (those (map (column_of ms) (mo_attributes m)))"

definition metadata :: "model list \<Rightarrow> schema option" where
  "metadata ms = those (map (table_of ms) ms)"

section \<open>Migrations and models agree\<close>

text \<open>
  C22: Running the two migrations on an empty database succeeds and builds exactly the tables, columns, keys,
  unique constraints and indexes that the declarative models describe; running the two downgrades on
  the result succeeds and leaves nothing, and the second downgrade alone leaves what the first
  migration built.
\<close>

theorem migrations_build_models:
  "\<exists>s. metadata models = Some s \<and> apply_ops (upgrade_0001 @ upgrade_0002) [] = Inr s \<and>
     apply_ops downgrade_0002 s = apply_ops upgrade_0001 [] \<and> apply_ops (downgrade_0002 @ downgrade_0001) s = Inr []"
proof -
  have "metadata models \<noteq> None" by code_simp
  moreover have "apply_ops (upgrade_0001 @ upgrade_0002) [] = Inr (the (metadata models))" by code_simp
  moreover have "apply_ops downgrade_0002 (the (metadata models)) = apply_ops upgrade_0001 []" by code_simp
  moreover have "apply_ops (downgrade_0002 @ downgrade_0001) (the (metadata models)) = Inr []" by code_simp
  ultimately show ?thesis by auto
qed

section \<open>The store's column checks\<close>

text \<open>A stored value, and whether a column of the schema takes it.\<close>

datatype cell = StrC string | IntC int | UuidC uuid | TimeC datetime | FloatC pyfloat | JsonC jval | NullC

fun takes_cell :: "column \<Rightarrow> cell \<Rightarrow> bool" where
  "takes_cell c NullC = col_nullable c"
| "takes_cell c (StrC s) = (case col_type c of VarcharT n \<Rightarrow> varchar n s | TextT \<Rightarrow> True | _ \<Rightarrow> False)"
| "takes_cell c (IntC i) = (col_type c = IntegerT \<and> integer_column i)"
| "takes_cell c (UuidC u) = (col_type c = UuidT)"
| "takes_cell c (TimeC d) = (col_type c = TimestampT)"
| "takes_cell c (FloatC f) = (col_type c = DoubleT)"
| "takes_cell c (JsonC v) = (col_type c = JsonbT \<and> finite_json v)"

definition takes_row :: "schema \<Rightarrow> string \<Rightarrow> cell list \<Rightarrow> bool" where
  "takes_row s n cells = (case find_table n s of None \<Rightarrow> False | Some t \<Rightarrow> list_all2 takes_cell (tbl_columns t) cells)"

text \<open>The rows of the store's records, in the order of the columns.\<close>

definition agent_cells :: "AgentRecord \<Rightarrow> cell list" where
  "agent_cells r = [StrC (ag_agent_id r), StrC (ag_hostname r), TimeC (ag_first_seen_at r), TimeC (ag_last_seen_at r)]"

definition batch_cells :: "TelemetryBatchRecord \<Rightarrow> cell list" where
  "batch_cells r = [UuidC (tb_batch_id r), StrC (tb_agent_id r), IntC (tb_schema_version r), TimeC (tb_received_at r),
     TimeC (tb_observed_start r), TimeC (tb_observed_end r), IntC (tb_sample_count r), JsonC (tb_payload r)]"

definition outbox_cells :: "OutboxEventRecord \<Rightarrow> cell list" where
  "outbox_cells r = [UuidC (ob_event_id r), StrC (ob_aggregate_type r), StrC (ob_aggregate_id r), StrC (ob_event_type r),
     JsonC (JObj (ob_payload r)), TimeC (ob_created_at r), (case ob_published_at r of None \<Rightarrow> NullC | Some d \<Rightarrow> TimeC d),
     IntC (ob_publication_attempts r)]"

definition fleet_state_cells :: "FleetStateRecord \<Rightarrow> cell list" where
  "fleet_state_cells r = [StrC (fs_agent_id r), UuidC (fs_last_batch_id r), TimeC (fs_observed_at r), FloatC (fs_cpu_percent r),
     FloatC (fs_memory_percent r), FloatC (fs_disk_percent r), TimeC (fs_updated_at r)]"

definition incident_cells :: "IncidentRecord \<Rightarrow> cell list" where
  "incident_cells r = [UuidC (in_incident_id r), StrC (in_agent_id r), StrC (in_incident_type r), StrC (in_deduplication_key r),
     StrC (in_status r), StrC (in_severity r), StrC (in_summary r), JsonC (in_evidence r), TimeC (in_opened_at r),
     TimeC (in_updated_at r)]"

definition deployment_cells :: "DeploymentRecord \<Rightarrow> cell list" where
  "deployment_cells r = [UuidC (dp_deployment_id r), StrC (dp_service r), StrC (dp_version r), StrC (dp_status r),
     StrC (dp_requested_by r), TimeC (dp_created_at r), TimeC (dp_updated_at r)]"

definition processed_cells :: "ProcessedEventRecord \<Rightarrow> cell list" where
  "processed_cells r = [UuidC (pe_event_id r), StrC (pe_stream_message_id r), StrC (pe_consumer_name r), TimeC (pe_processed_at r)]"

definition dead_letter_cells :: "DeadLetterRecord \<Rightarrow> cell list" where
  "dead_letter_cells r = [StrC (dl_stream_message_id r), StrC (dl_event_id r), StrC (dl_error_type r), IntC (dl_attempts r),
     JsonC (dl_payload r), TimeC (dl_created_at r)]"

definition migrated :: schema where
  "migrated = (case apply_ops (upgrade_0001 @ upgrade_0002) [] of Inr s \<Rightarrow> s | Inl _ \<Rightarrow> [])"

definition columns_of :: "string \<Rightarrow> column list" where
  "columns_of n = (case find_table n migrated of None \<Rightarrow> [] | Some t \<Rightarrow> tbl_columns t)"

lemma takes_row_columns: "columns_of n \<noteq> [] \<Longrightarrow> takes_row migrated n cells \<longleftrightarrow> list_all2 takes_cell (columns_of n) cells"
  by (auto simp: takes_row_def columns_of_def split: option.splits)

lemma migrated_columns:
  "columns_of ''agents'' = [col ''agent_id'' (VarcharT 128), col ''hostname'' (VarcharT 255), now_col ''first_seen_at'', now_col ''last_seen_at'']"
  "columns_of ''telemetry_batches'' = [col ''batch_id'' UuidT, col ''agent_id'' (VarcharT 128), col ''schema_version'' IntegerT,
     now_col ''received_at'', col ''observed_start'' TimestampT, col ''observed_end'' TimestampT, col ''sample_count'' IntegerT,
     col ''payload'' JsonbT]"
  "columns_of ''outbox_events'' = [col ''event_id'' UuidT, col ''aggregate_type'' (VarcharT 64), col ''aggregate_id'' (VarcharT 128),
     col ''event_type'' (VarcharT 128), col ''payload'' JsonbT, now_col ''created_at'', nullable_col ''published_at'' TimestampT,
     col ''publication_attempts'' IntegerT]"
  "columns_of ''fleet_state'' = [col ''agent_id'' (VarcharT 128), col ''last_batch_id'' UuidT, col ''observed_at'' TimestampT,
     col ''cpu_percent'' DoubleT, col ''memory_percent'' DoubleT, col ''disk_percent'' DoubleT, now_col ''updated_at'']"
  "columns_of ''incidents'' = [col ''incident_id'' UuidT, col ''agent_id'' (VarcharT 128), col ''incident_type'' (VarcharT 64),
     col ''deduplication_key'' (VarcharT 256), col ''status'' (VarcharT 32), col ''severity'' (VarcharT 16), col ''summary'' TextT,
     col ''evidence'' JsonbT, now_col ''opened_at'', now_col ''updated_at'']"
  "columns_of ''deployments'' = [col ''deployment_id'' UuidT, col ''service'' (VarcharT 128), col ''version'' (VarcharT 128),
     col ''status'' (VarcharT 32), col ''requested_by'' (VarcharT 128), now_col ''created_at'', now_col ''updated_at'']"
  "columns_of ''processed_events'' = [col ''event_id'' UuidT, col ''stream_message_id'' (VarcharT 64),
     col ''consumer_name'' (VarcharT 128), now_col ''processed_at'']"
  "columns_of ''dead_letters'' = [col ''stream_message_id'' (VarcharT 64), col ''event_id'' (VarcharT 128),
     col ''error_type'' (VarcharT 128), col ''attempts'' IntegerT, col ''payload'' JsonbT, now_col ''created_at'']"
  by code_simp+

lemmas column_simps = takes_row_columns migrated_columns col_def now_col_def nullable_col_def

text \<open>
  The store's checks on the rows it writes are exactly those of the schema that the migrations build: a row
  passes the check of its table if and only if every column of that table takes the row's value.
\<close>

theorem column_checks_match_schema:
  "(\<forall>r. fits_agent r \<longleftrightarrow> takes_row migrated ''agents'' (agent_cells r)) \<and>
   (\<forall>r. fits_batch r \<longleftrightarrow> takes_row migrated ''telemetry_batches'' (batch_cells r)) \<and>
   (\<forall>r. fits_outbox r \<longleftrightarrow> takes_row migrated ''outbox_events'' (outbox_cells r)) \<and>
   (\<forall>r. fits_fleet_state r \<longleftrightarrow> takes_row migrated ''fleet_state'' (fleet_state_cells r)) \<and>
   (\<forall>r. fits_incident r \<longleftrightarrow> takes_row migrated ''incidents'' (incident_cells r)) \<and>
   (\<forall>r. fits_deployment r \<longleftrightarrow> takes_row migrated ''deployments'' (deployment_cells r)) \<and>
   (\<forall>r. fits_processed r \<longleftrightarrow> takes_row migrated ''processed_events'' (processed_cells r)) \<and>
   (\<forall>r. fits_dead_letter r \<longleftrightarrow> takes_row migrated ''dead_letters'' (dead_letter_cells r))"
proof (intro conjI allI)
  show "fits_agent r \<longleftrightarrow> takes_row migrated ''agents'' (agent_cells r)" for r
    by (simp add: column_simps fits_agent_def agent_cells_def)
  show "fits_batch r \<longleftrightarrow> takes_row migrated ''telemetry_batches'' (batch_cells r)" for r
    by (simp add: column_simps fits_batch_def batch_cells_def)
  show "fits_outbox r \<longleftrightarrow> takes_row migrated ''outbox_events'' (outbox_cells r)" for r
    by (cases "ob_published_at r") (simp_all add: column_simps fits_outbox_def outbox_cells_def)
  show "fits_fleet_state r \<longleftrightarrow> takes_row migrated ''fleet_state'' (fleet_state_cells r)" for r
    by (simp add: column_simps fits_fleet_state_def fleet_state_cells_def)
  show "fits_incident r \<longleftrightarrow> takes_row migrated ''incidents'' (incident_cells r)" for r
    by (simp add: column_simps fits_incident_def incident_cells_def)
  show "fits_deployment r \<longleftrightarrow> takes_row migrated ''deployments'' (deployment_cells r)" for r
    by (simp add: column_simps fits_deployment_def deployment_cells_def)
  show "fits_processed r \<longleftrightarrow> takes_row migrated ''processed_events'' (processed_cells r)" for r
    by (simp add: column_simps fits_processed_def processed_cells_def)
  show "fits_dead_letter r \<longleftrightarrow> takes_row migrated ''dead_letters'' (dead_letter_cells r)" for r
    by (simp add: column_simps fits_dead_letter_def dead_letter_cells_def)
qed

end
