(* ===== verification/Migration_Env.thy ===== *)
theory Migration_Env
  imports Python
begin

text \<open>
  The Alembic environment (\<open>migrations/env.py\<close>): the checks on import and the two ways of running
  the migrations. Alembic, SQLAlchemy and asyncpg are the calls the code makes of them: each call is an
  \<open>env_call\<close>, and which calls raise, after which others, is the argument \<open>faults\<close>. A run returns its
  outcome and the calls it made. The lemmas show that the migrations run only while the advisory lock is
  held, that a taken lock is always given back, and which URLs the configuration refuses.
\<close>

section \<open>Calls\<close>

datatype env_call =
    FileConfig string
  | EngineFromConfig
  | LockConnect string
  | LockExecute string int
  | EngineConnect
  | Configure
  | BeginTransaction
  | RunMigrations
  | Commit
  | Rollback
  | EngineRelease
  | LockClose
  | EngineDispose

type_synonym faults = "env_call list \<Rightarrow> env_call \<Rightarrow> py_error option"
type_synonym env_run = "env_call list \<Rightarrow> unit res \<times> env_call list"

definition call_out :: "faults \<Rightarrow> env_call \<Rightarrow> env_run" where
  "call_out faults c tr = (case faults tr c of None \<Rightarrow> Inr () | Some e \<Rightarrow> Inl e, tr @ [c])"

definition and_then :: "env_run \<Rightarrow> env_run \<Rightarrow> env_run" where
  "and_then m n tr = (case m tr of (Inl e, tr') \<Rightarrow> (Inl e, tr') | (Inr _, tr') \<Rightarrow> n tr')"

text \<open>\<open>try ... finally\<close>, and \<open>with\<close> once it is entered: an exception of the last part replaces the first.\<close>

definition and_finally :: "env_run \<Rightarrow> env_run \<Rightarrow> env_run" where
  "and_finally m fin tr =
     (case m tr of (r, tr') \<Rightarrow> (case fin tr' of (Inl e, tr'') \<Rightarrow> (Inl e, tr'') | (Inr _, tr'') \<Rightarrow> (r, tr'')))"

text \<open>\<open>with context.begin_transaction():\<close> commits, or rolls back and lets the exception through.\<close>

definition in_transaction :: "faults \<Rightarrow> env_run \<Rightarrow> env_run" where
  "in_transaction faults body = and_then (call_out faults BeginTransaction) (\<lambda>tr.
     case body tr of
       (Inr _, tr') \<Rightarrow> call_out faults Commit tr'
     | (Inl e, tr') \<Rightarrow> and_finally (\<lambda>t. (Inl e, t)) (call_out faults Rollback) tr')"

section \<open>The environment\<close>

definition MIGRATION_LOCK_ID :: int where
  "MIGRATION_LOCK_ID = 527644501933021"

text \<open>\<open>text.replace(old, new, 1)\<close>.\<close>

fun replace_once :: "string \<Rightarrow> string \<Rightarrow> string \<Rightarrow> string" where
  "replace_once old new [] = (if old = [] then new else [])"
| "replace_once old new (c # r) =
     (if starts_with old (c # r) then new @ drop (length old) (c # r) else c # replace_once old new r)"

definition lock_url :: "string \<Rightarrow> string" where
  "lock_url database_url = replace_once ''postgresql+asyncpg://'' ''postgresql://'' database_url"

definition run_sync_migrations :: "faults \<Rightarrow> env_run" where
  "run_sync_migrations faults =
     and_then (call_out faults Configure) (in_transaction faults (call_out faults RunMigrations))"

definition run_migrations_offline :: "faults \<Rightarrow> env_run" where
  "run_migrations_offline faults =
     and_then (call_out faults Configure) (in_transaction faults (call_out faults RunMigrations))"

definition run_async_migrations :: "faults \<Rightarrow> string \<Rightarrow> env_run" where
  "run_async_migrations faults database_url =
     and_then (call_out faults EngineFromConfig) (
     and_then (call_out faults (LockConnect (lock_url database_url))) (
     and_finally
       (and_then (call_out faults (LockExecute ''SELECT pg_advisory_lock($1)'' MIGRATION_LOCK_ID)) (
        and_then (call_out faults EngineConnect) (
        and_finally (run_sync_migrations faults) (call_out faults EngineRelease))))
       (and_then (call_out faults (LockExecute ''SELECT pg_advisory_unlock($1)'' MIGRATION_LOCK_ID)) (
        and_then (call_out faults LockClose) (
        call_out faults EngineDispose)))))"

text \<open>
  \<open>configuration.set_main_option\<close> stores through the standard library's \<open>ConfigParser\<close>, whose
  \<open>before_set\<close> removes \<open>%%\<close>, then every \<open>%(name)s\<close>, and refuses a text that still has a percent sign.
\<close>

fun drop_pairs :: "string \<Rightarrow> string" where
  "drop_pairs (c # d # r) = (if c = CHR ''%'' \<and> d = CHR ''%'' then drop_pairs r else c # drop_pairs (d # r))"
| "drop_pairs s = s"

definition reference_end :: "string \<Rightarrow> string option" where
  "reference_end s =
     (case s of
        c # r \<Rightarrow>
          if c = CHR ''('' \<and> takeWhile (\<lambda>x. x \<noteq> CHR '')'') r \<noteq> []
          then (case dropWhile (\<lambda>x. x \<noteq> CHR '')'') r of _ # d # t \<Rightarrow> if d = CHR ''s'' then Some t else None | _ \<Rightarrow> None)
          else None
      | [] \<Rightarrow> None)"

lemma reference_end_length: "reference_end s = Some t \<Longrightarrow> length t < length s"
proof -
  assume "reference_end s = Some t"
  then obtain c r a d where s: "s = c # r" and "dropWhile (\<lambda>x. x \<noteq> CHR '')'') r = a # d # t"
    by (auto simp: reference_end_def split: list.splits if_splits)
  then have "length (a # d # t) \<le> length r" by (metis length_dropWhile_le)
  then show ?thesis using s by simp
qed

function drop_references :: "string \<Rightarrow> string" where
  "drop_references [] = []"
| "drop_references (c # r) =
     (if c = CHR ''%''
      then (case reference_end r of Some t \<Rightarrow> drop_references t | None \<Rightarrow> c # drop_references r)
      else c # drop_references r)"
  by pat_completeness auto
termination
  by (relation "measure length") (auto dest: reference_end_length)

definition before_set :: "string \<Rightarrow> unit res" where
  "before_set value =
     (if CHR ''%'' \<in> set (drop_references (drop_pairs value)) then Inl (ValueError ''invalid interpolation syntax'') else Inr ())"

text \<open>The module body: the logging configuration, the URL of the database, and the run.\<close>

definition migration_env :: "faults \<Rightarrow> string option \<Rightarrow> string option \<Rightarrow> bool \<Rightarrow> env_run" where
  "migration_env faults config_file_name database_url offline =
     and_then (case config_file_name of None \<Rightarrow> Pair (Inr ()) | Some name \<Rightarrow> call_out faults (FileConfig name))
       (case database_url of
          None \<Rightarrow> Pair (Inl (RuntimeError ''FLEETPULSE_DATABASE_URL is required for migrations''))
        | Some url \<Rightarrow>
            if url = [] then Pair (Inl (RuntimeError ''FLEETPULSE_DATABASE_URL is required for migrations''))
            else and_then (Pair (before_set url))
              (if offline then run_migrations_offline faults else run_async_migrations faults url))"

section \<open>The lock\<close>

abbreviation "lock_call \<equiv> LockExecute ''SELECT pg_advisory_lock($1)'' MIGRATION_LOCK_ID"
abbreviation "unlock_call \<equiv> LockExecute ''SELECT pg_advisory_unlock($1)'' MIGRATION_LOCK_ID"

lemma and_finally_outcome:
  "m tr = (r1, t1) \<Longrightarrow> fin t1 = (r2, t2) \<Longrightarrow> and_finally m fin tr = ((case r2 of Inl e \<Rightarrow> Inl e | Inr _ \<Rightarrow> r1), t2)"
  by (simp add: and_finally_def split: sum.split)

text \<open>What each part of a run adds to the calls already made.\<close>

lemma run_sync_migrations_trace:
  "\<exists>r calls. run_sync_migrations faults tr = (r, tr @ calls) \<and> (r = Inr () \<longrightarrow> calls = [Configure, BeginTransaction, RunMigrations, Commit]) \<and>
     calls \<in> {[Configure], [Configure, BeginTransaction], [Configure, BeginTransaction, RunMigrations, Commit],
       [Configure, BeginTransaction, RunMigrations, Rollback]}"
  by (auto simp: run_sync_migrations_def in_transaction_def and_then_def and_finally_def call_out_def split: option.split)

lemma release_trace:
  "\<exists>r calls. and_then (call_out faults unlock_call) (and_then (call_out faults LockClose) (call_out faults EngineDispose)) tr =
      (r, tr @ unlock_call # calls) \<and> (r = Inr () \<longrightarrow> calls = [LockClose, EngineDispose]) \<and>
     calls \<in> {[], [LockClose], [LockClose, EngineDispose]}"
  by (auto simp: and_then_def call_out_def split: option.split)

lemma locked_trace:
  "\<exists>r calls. and_then (call_out faults lock_call) (and_then (call_out faults EngineConnect)
        (and_finally (run_sync_migrations faults) (call_out faults EngineRelease))) tr = (r, tr @ lock_call # calls) \<and>
     (calls \<noteq> [] \<longrightarrow> faults tr lock_call = None) \<and>
     (r = Inr () \<longrightarrow> calls = [EngineConnect, Configure, BeginTransaction, RunMigrations, Commit, EngineRelease]) \<and>
     set calls \<subseteq> {EngineConnect, Configure, BeginTransaction, RunMigrations, Commit, Rollback, EngineRelease}"
proof -
  obtain r calls where "run_sync_migrations faults (tr @ [lock_call, EngineConnect]) = (r, tr @ [lock_call, EngineConnect] @ calls)"
    "r = Inr () \<longrightarrow> calls = [Configure, BeginTransaction, RunMigrations, Commit]"
    "calls \<in> {[Configure], [Configure, BeginTransaction], [Configure, BeginTransaction, RunMigrations, Commit],
       [Configure, BeginTransaction, RunMigrations, Rollback]}"
    using run_sync_migrations_trace[of faults "tr @ [lock_call, EngineConnect]"] by auto
  then show ?thesis
    by (auto simp: and_then_def and_finally_def call_out_def split: option.split)
qed

text \<open>
  C35: An online migration run holds the advisory lock while it migrates and gives it back. Whatever
  calls fail: the migrations are run only after the lock statement has succeeded and before the unlock
  statement; once the lock connection is open the unlock statement is always sent; and a run that
  succeeds has committed the migrations and closed both connections.
\<close>

theorem migrations_run_under_lock:
  assumes "run_async_migrations faults url [] = (r, tr)"
  shows "(RunMigrations \<in> set tr \<longrightarrow>
      (\<exists>held rest. tr = [EngineFromConfig, LockConnect (lock_url url), lock_call] @ held @ unlock_call # rest \<and>
         RunMigrations \<in> set held \<and> RunMigrations \<notin> set rest \<and> unlock_call \<notin> set held \<and>
         faults [EngineFromConfig, LockConnect (lock_url url)] lock_call = None)) \<and>
    (faults [] EngineFromConfig = None \<and> faults [EngineFromConfig] (LockConnect (lock_url url)) = None \<longrightarrow> unlock_call \<in> set tr) \<and>
    (r = Inr () \<longrightarrow> tr = [EngineFromConfig, LockConnect (lock_url url), lock_call, EngineConnect, Configure, BeginTransaction,
       RunMigrations, Commit, EngineRelease, unlock_call, LockClose, EngineDispose])"
proof -
  let ?pre = "[EngineFromConfig, LockConnect (lock_url url)]"
  obtain r1 held where held: "and_then (call_out faults lock_call) (and_then (call_out faults EngineConnect)
        (and_finally (run_sync_migrations faults) (call_out faults EngineRelease))) ?pre = (r1, ?pre @ lock_call # held)"
    "held \<noteq> [] \<longrightarrow> faults ?pre lock_call = None"
    "r1 = Inr () \<longrightarrow> held = [EngineConnect, Configure, BeginTransaction, RunMigrations, Commit, EngineRelease]"
    "set held \<subseteq> {EngineConnect, Configure, BeginTransaction, RunMigrations, Commit, Rollback, EngineRelease}"
    using locked_trace[of faults ?pre] by blast
  let ?mid = "?pre @ lock_call # held"
  obtain r2 rest where rest: "and_then (call_out faults unlock_call) (and_then (call_out faults LockClose)
        (call_out faults EngineDispose)) ?mid = (r2, ?mid @ unlock_call # rest)"
    "r2 = Inr () \<longrightarrow> rest = [LockClose, EngineDispose]" "rest \<in> {[], [LockClose], [LockClose, EngineDispose]}"
    using release_trace[of faults ?mid] by blast
  let ?body = "and_finally (and_then (call_out faults lock_call) (and_then (call_out faults EngineConnect)
      (and_finally (run_sync_migrations faults) (call_out faults EngineRelease))))
    (and_then (call_out faults unlock_call) (and_then (call_out faults LockClose) (call_out faults EngineDispose)))"
  have "?body ?pre = (case r2 of Inl e \<Rightarrow> Inl e | Inr _ \<Rightarrow> r1, ?mid @ unlock_call # rest)"
    by (rule and_finally_outcome) (rule held(1), rule rest(1))
  then have body: "snd (?body ?pre) = ?mid @ unlock_call # rest"
    "fst (?body ?pre) = Inr () \<longrightarrow> r1 = Inr () \<and> r2 = Inr ()"
    by (simp_all only: fst_conv snd_conv) (simp split: sum.split)
  have run: "run_async_migrations faults url [] =
      (case faults [] EngineFromConfig of Some e \<Rightarrow> (Inl e, [EngineFromConfig]) | None \<Rightarrow>
       (case faults [EngineFromConfig] (LockConnect (lock_url url)) of Some e \<Rightarrow> (Inl e, ?pre) | None \<Rightarrow> ?body ?pre))"
    by (simp add: run_async_migrations_def and_then_def[of "call_out faults EngineFromConfig"]
        and_then_def[of "call_out faults (LockConnect (lock_url url))"] call_out_def[of faults EngineFromConfig]
        call_out_def[of faults "LockConnect (lock_url url)"] split: option.split)
  show ?thesis
  proof (cases "faults [] EngineFromConfig = None \<and> faults [EngineFromConfig] (LockConnect (lock_url url)) = None")
    case True
    then have tr: "tr = ?mid @ unlock_call # rest" and r: "r = Inr () \<longrightarrow> r1 = Inr () \<and> r2 = Inr ()"
      using assms run body by auto
    have "RunMigrations \<notin> set rest" "unlock_call \<notin> set held" using rest(3) held(4) by auto
    moreover have "held \<noteq> []" if "RunMigrations \<in> set held" using that by auto
    ultimately show ?thesis using tr r held(2,3) rest(2) by auto
  next
    case False
    then have "tr \<in> {[EngineFromConfig], ?pre} \<and> r \<noteq> Inr ()" using assms run by (auto split: option.splits)
    with False show ?thesis by auto
  qed
qed

theorem migrations_run_under_lock_witness:
  "\<exists>r tr. run_async_migrations (\<lambda>_ _. None) ''postgresql+asyncpg://db/fleet'' [] = (r, tr) \<and> r = Inr () \<and>
     RunMigrations \<in> set tr \<and> unlock_call \<in> set tr"
proof -
  obtain r tr where run: "run_async_migrations (\<lambda>_ _. None) ''postgresql+asyncpg://db/fleet'' [] = (r, tr)" by fastforce
  have "r = Inr ()"
    using run by (auto simp: run_async_migrations_def run_sync_migrations_def in_transaction_def and_then_def and_finally_def call_out_def)
  with migrations_run_under_lock[OF run] run show ?thesis by auto
qed

text \<open>With an unlock statement that fails, the lock connection is not closed and the engine not disposed.\<close>

definition unlock_fails :: faults where
  "unlock_fails tr c = (if c = unlock_call then Some (ServiceError ''ConnectionDoesNotExistError'') else None)"

lemma unlock_failure_leaves_connection_open:
  "LockClose \<notin> set (snd (run_async_migrations unlock_fails url []))"
  by (simp add: run_async_migrations_def run_sync_migrations_def in_transaction_def and_then_def and_finally_def call_out_def
      unlock_fails_def)

text \<open>A URL whose password holds a percent-encoded character is refused before anything is run.\<close>

lemma encoded_password_refused:
  "migration_env faults None (Some ''postgresql+asyncpg://fleet:p%40ss@db/fleet'') offline [] =
     (Inl (ValueError ''invalid interpolation syntax''), [])"
proof -
  have "before_set ''postgresql+asyncpg://fleet:p%40ss@db/fleet'' = Inl (ValueError ''invalid interpolation syntax'')"
    by code_simp
  then show ?thesis by (simp add: migration_env_def and_then_def)
qed

lemma missing_url_refused:
  "url \<in> {None, Some []} \<Longrightarrow> migration_env faults None url offline [] =
     (Inl (RuntimeError ''FLEETPULSE_DATABASE_URL is required for migrations''), [])"
  by (auto simp: migration_env_def and_then_def)

end
