(* ===== verification/Logging.thy ===== *)
theory Logging
  imports Python
begin

text \<open>
  Structured logging (\<open>fleetpulse/logging.py\<close>): the JSON formatter every process logs through and
  the configuration of the root logger. A log record is its level, its logger, the outcome of
  \<open>getMessage\<close>, the text of its exception when it has one, and the attributes of \<open>extra\<close>; the time
  stamp, the correlation id and the text of a float are arguments. The lemmas show that an entry is
  always one line of printable ASCII, whatever its message holds, and that it reads back.
\<close>

section \<open>Records and entries\<close>

text \<open>A value of an attribute: one that JSON has, or another object with its \<open>str\<close>.\<close>

datatype log_value = Plain jval | Object string

record log_record =
  rec_levelname :: string
  rec_logger :: string
  rec_message :: "string res"
  rec_exception :: "string option"
  rec_extra :: "(string \<times> log_value) list"

text \<open>\<open>json.dumps(..., default=str)\<close>.\<close>

fun json_default :: "log_value \<Rightarrow> jval" where
  "json_default (Plain v) = v"
| "json_default (Object s) = JStr s"

definition LOG_KEYS :: "string list" where
  "LOG_KEYS = [''event'', ''batch_id'', ''agent_id'', ''status'', ''duration_ms'', ''attempt'']"

text \<open>The attributes of the loop, in its order; \<open>None\<close> is left out.\<close>

definition log_extras :: "(string \<times> log_value) list \<Rightarrow> (string \<times> jval) list" where
  "log_extras extra = concat (map (\<lambda>key.
     case map_of extra key of
       None \<Rightarrow> []
     | Some value \<Rightarrow> if value = Plain JNull then [] else [(key, json_default value)]) LOG_KEYS)"

definition log_payload :: "string \<Rightarrow> string \<Rightarrow> log_record \<Rightarrow> (string \<times> jval) list res" where
  "log_payload timestamp correlation r =
     res_bind (rec_message r) (\<lambda>message.
     Inr ([(''timestamp'', JStr timestamp), (''level'', JStr (rec_levelname r)), (''logger'', JStr (rec_logger r)),
           (''message'', JStr message), (''correlation_id'', JStr correlation)] @
          (case rec_exception r of None \<Rightarrow> [] | Some t \<Rightarrow> [(''exception'', JStr t)]) @
          log_extras (rec_extra r)))"

definition format_record :: "(pyfloat \<Rightarrow> string) \<Rightarrow> string \<Rightarrow> string \<Rightarrow> log_record \<Rightarrow> string res" where
  "format_record fr timestamp correlation r =
     res_bind (log_payload timestamp correlation r) (\<lambda>payload. Inr (dumps fr compact (JObj payload)))"

section \<open>The root logger\<close>

record root_logger =
  root_formatters :: "string list"
  root_level :: int

definition level_names :: "(string \<times> int) list" where
  "level_names = [(''CRITICAL'', 50), (''FATAL'', 50), (''ERROR'', 40), (''WARN'', 30), (''WARNING'', 30), (''INFO'', 20),
     (''DEBUG'', 10), (''NOTSET'', 0)]"

text \<open>The handlers are replaced before the level is checked.\<close>

definition configure_logging :: "string \<Rightarrow> root_logger \<Rightarrow> unit res \<times> root_logger" where
  "configure_logging level lg =
     (let lg' = lg\<lparr>root_formatters := [''JsonFormatter'']\<rparr> in
      case map_of level_names (map upper_char level) of
        None \<Rightarrow> (Inl (ValueError ''Unknown level''), lg')
      | Some n \<Rightarrow> (Inr (), lg'\<lparr>root_level := n\<rparr>))"

section \<open>Printable text\<close>

abbreviation printable :: "char \<Rightarrow> bool" where
  "printable c \<equiv> 32 \<le> ord c \<and> ord c \<le> 126"

lemma printable_hex_digit: "n < 16 \<Longrightarrow> printable (hex_digit n)"
  by (simp add: ord_hex_digit)

lemma printable_hex_fixed: "list_all printable (hex_fixed k n)"
  by (induct k n rule: hex_fixed.induct) (use printable_hex_digit in simp_all)

lemma printable_escape_char: "list_all printable (escape_char c)"
  using printable_hex_fixed[of 4 "ord c"] by (simp add: escape_char_def bslash_def dquote_def)

lemma printable_dump_str: "list_all printable (dump_str s)"
  using printable_escape_char by (auto simp: dump_str_def dquote_def list_all_iff)

lemma printable_show_int: "list_all printable (show_int i)"
proof -
  have "list_all printable (show_nat n)" for n
    using show_nat_digits[of n] by (rule list.pred_mono_strong) (simp add: is_digit_def)
  then show ?thesis by (simp add: show_int_def)
qed

lemma printable_dumps:
  "\<forall>f. list_all printable (fr f) \<Longrightarrow> list_all printable (item_sep sp @ key_sep sp) \<Longrightarrow> list_all printable (dumps fr sp v)"
  "\<forall>f. list_all printable (fr f) \<Longrightarrow> list_all printable (item_sep sp @ key_sep sp) \<Longrightarrow> list_all printable (dump_items fr sp xs)"
  "\<forall>f. list_all printable (fr f) \<Longrightarrow> list_all printable (item_sep sp @ key_sep sp) \<Longrightarrow> list_all printable (dump_members fr sp m)"
  by (induct fr sp v and fr sp xs and fr sp m rule: dumps_dump_items_dump_members.induct)
     (simp_all add: printable_dump_str printable_show_int)

lemma printable_compact: "list_all printable (item_sep compact @ key_sep compact)"
  by (simp add: compact_def)

lemma split_breaks_printable:
  "list_all printable s \<Longrightarrow> split_breaks acc s = (if acc = [] \<and> s = [] then [] else [rev acc @ s])"
  by (induct s arbitrary: acc) (auto simp: is_line_break_def)

lemma splitlines_printable: "list_all printable s \<Longrightarrow> s \<noteq> [] \<Longrightarrow> splitlines s = [s]"
  by (simp add: splitlines_def split_breaks_printable)

section \<open>Reading an entry back\<close>

definition extras_plain :: "(string \<times> log_value) list \<Rightarrow> bool" where
  "extras_plain extra \<longleftrightarrow> (\<forall>kv \<in> set extra. plain (json_default (snd kv)))"

lemma plain_members_append: "plain_members (xs @ ys) \<longleftrightarrow> plain_members xs \<and> plain_members ys"
  by (induct xs) auto

lemma plain_log_extras: "extras_plain extra \<Longrightarrow> plain_members (log_extras extra)"
proof -
  assume ok: "extras_plain extra"
  have "plain (json_default v)" if "map_of extra k = Some v" for k v
    using ok map_of_SomeD[OF that] by (force simp: extras_plain_def)
  then have "plain_members (concat (map (\<lambda>key. case map_of extra key of None \<Rightarrow> [] |
      Some value \<Rightarrow> if value = Plain JNull then [] else [(key, json_default value)]) ks))" for ks
    by (induct ks) (simp_all add: plain_members_append split: option.split)
  then show ?thesis by (simp only: log_extras_def)
qed

lemma keys_log_extras: "map fst (log_extras extra) = filter (\<lambda>k. map_of extra k \<notin> {None, Some (Plain JNull)}) LOG_KEYS"
proof -
  have "map fst (concat (map (\<lambda>key. case map_of extra key of None \<Rightarrow> [] |
      Some value \<Rightarrow> if value = Plain JNull then [] else [(key, json_default value)]) ks)) =
    filter (\<lambda>k. map_of extra k \<notin> {None, Some (Plain JNull)}) ks" for ks
    by (induct ks) (simp_all split: option.split)
  then show ?thesis by (simp only: log_extras_def)
qed

lemma plain_log_payload:
  assumes "log_payload timestamp correlation r = Inr payload" and "extras_plain (rec_extra r)"
  shows "plain (JObj payload)"
proof -
  let ?K = "fst ` set (log_extras (rec_extra r))"
  have "distinct (map fst (log_extras (rec_extra r)))"
    unfolding keys_log_extras by (rule distinct_filter) (code_simp)
  moreover have "k \<notin> fst ` set (log_extras (rec_extra r))" if "k \<notin> set LOG_KEYS" for k
    using that keys_log_extras[of "rec_extra r"] by (metis filter_is_subset image_set subsetD)
  then have "''timestamp'' \<notin> ?K" "''level'' \<notin> ?K" "''logger'' \<notin> ?K" "''message'' \<notin> ?K" "''correlation_id'' \<notin> ?K" "''exception'' \<notin> ?K"
    by (simp_all add: LOG_KEYS_def)
  ultimately show ?thesis
    using assms plain_log_extras[OF assms(2)]
    by (auto simp: log_payload_def res_bind_eq_Inr plain_members_append split: option.splits)
qed

text \<open>
  C36: A log entry is one line of printable ASCII, whatever the message, the exception text or the
  attributes hold: no line break in any of them can start a second entry. An entry without floats
  reads back as exactly the members of its payload.
\<close>

theorem log_entry_is_one_line:
  assumes "format_record fr timestamp correlation r = Inr line" and "\<And>f. list_all printable (fr f)"
  shows "list_all printable line \<and> splitlines line = [line] \<and>
    (extras_plain (rec_extra r) \<longrightarrow> (\<exists>payload. log_payload timestamp correlation r = Inr payload \<and> loads line = Some (JObj payload)))"
proof -
  obtain payload where p: "log_payload timestamp correlation r = Inr payload" "line = dumps fr compact (JObj payload)"
    using assms(1) by (auto simp: format_record_def res_simps)
  have line: "list_all printable line" unfolding p(2) by (rule printable_dumps(1)[OF _ printable_compact]) (simp add: assms(2))
  moreover have "line \<noteq> []" using p(2) by simp
  ultimately have "splitlines line = [line]" by (rule splitlines_printable)
  moreover have "loads line = Some (JObj payload)" if "extras_plain (rec_extra r)"
    using loads_dumps[OF _ plain_log_payload[OF p(1) that], of compact fr] p(2) by (simp add: ok_sep_def)
  ultimately show ?thesis using line p(1) by blast
qed

definition example_record :: log_record where
  "example_record = \<lparr>rec_levelname = ''ERROR'', rec_logger = ''fleetpulse.worker'', rec_message = Inr [CHR ''a'', CHR 0x0A, CHR ''b''],
     rec_exception = Some [CHR 0x0D, CHR 0x0A], rec_extra = [(''attempt'', Plain (JInt 2)), (''batch_id'', Object ''7'')]\<rparr>"

theorem log_entry_is_one_line_witness:
  "\<exists>line. format_record (\<lambda>_. ''1.5'') ''t'' ''-'' example_record = Inr line \<and> splitlines line = [line] \<and> loads line \<noteq> None"
proof -
  obtain line where line: "format_record (\<lambda>_. ''1.5'') ''t'' ''-'' example_record = Inr line"
    by (simp add: format_record_def log_payload_def example_record_def)
  have "extras_plain (rec_extra example_record)" by (simp add: extras_plain_def example_record_def)
  with log_entry_is_one_line[OF line] line show ?thesis by auto
qed

text \<open>An unknown level is reported only after the handlers have been replaced.\<close>

lemma configure_logging_outcome:
  "root_formatters (snd (configure_logging level lg)) = [''JsonFormatter''] \<and>
   (fst (configure_logging level lg) = Inr () \<longleftrightarrow> map upper_char level \<in> fst ` set level_names)"
  by (auto simp: configure_logging_def Let_def map_of_eq_None_iff split: option.splits dest: map_of_SomeD intro: rev_image_eqI)

end
