(* ===== verification/Spool.thy ===== *)
theory Spool
  imports Examples
begin

text \<open>
  The agent's bounded SQLite spool, \<open>src/fleetpulse/agent/spool.py\<close>. The table \<open>batches\<close> is
  the list of its rows in rowid order; \<open>ORDER BY created_at LIMIT 1\<close> takes the first row, in
  that order, with the least \<open>created_at\<close>. Timestamps are finite floats and enter as arguments
  (\<open>time.time()\<close>). The eviction loop has no bound in the source, so it is a partial function:
  \<^const>\<open>None\<close> means that it does not return.
\<close>

section \<open>State\<close>

record spool_row =
  row_batch_id :: string
  row_payload :: string
  row_payload_bytes :: int
  row_attempts :: int
  row_next_attempt_at :: rat
  row_last_error :: "string option"
  row_created_at :: rat

record BatchSpool =
  rows :: "spool_row list"
  max_batches :: int
  max_bytes :: int

record PendingBatch =
  pending_batch :: TelemetryBatch
  pending_attempts :: int

text \<open>The constructor on an existing database file: the stored rows are kept as they are
  (\<open>CREATE TABLE IF NOT EXISTS\<close>), the bounds come from the arguments.\<close>

definition open_spool :: "spool_row list \<Rightarrow> int \<Rightarrow> int \<Rightarrow> BatchSpool" where
  "open_spool stored maxb maxy = \<lparr>rows = stored, max_batches = maxb, max_bytes = maxy\<rparr>"

section \<open>Operations\<close>

definition spool_count :: "BatchSpool \<Rightarrow> int" where
  "spool_count sp = int (length (rows sp))"

definition total_bytes :: "BatchSpool \<Rightarrow> int" where
  "total_bytes sp = sum_list (map row_payload_bytes (rows sp))"

definition oldest :: "spool_row list \<Rightarrow> spool_row option" where
  "oldest rs = first_max (\<lambda>a b. - row_created_at a < - row_created_at b) rs"

text \<open>\<open>DELETE ... WHERE batch_id = (SELECT ... LIMIT 1)\<close> and its \<open>rowcount\<close>.\<close>

definition delete_oldest :: "spool_row list \<Rightarrow> spool_row list" where
  "delete_oldest rs =
     (case oldest rs of None \<Rightarrow> rs | Some r \<Rightarrow> row_delete row_batch_id (row_batch_id r) rs)"

definition over_bound :: "BatchSpool \<Rightarrow> bool" where
  "over_bound sp \<longleftrightarrow> max_batches sp < spool_count sp \<or> max_bytes sp < total_bytes sp"

partial_function (option) evict :: "BatchSpool \<Rightarrow> nat \<Rightarrow> (BatchSpool \<times> nat) option" where
  "evict sp dropped =
     (if over_bound sp
      then evict (sp\<lparr>rows := delete_oldest (rows sp)\<rparr>)
             (dropped + (length (rows sp) - length (delete_oldest (rows sp))))
      else Some (sp, dropped))"

definition new_row :: "codec \<Rightarrow> rat \<Rightarrow> TelemetryBatch \<Rightarrow> spool_row" where
  "new_row c now b =
     \<lparr>row_batch_id = uuid_str (batch_id b), row_payload = model_dump_json c b,
      row_payload_bytes = int (utf8_len (model_dump_json c b)), row_attempts = 0,
      row_next_attempt_at = 0, row_last_error = None, row_created_at = now\<rparr>"

definition enqueue :: "codec \<Rightarrow> rat \<Rightarrow> TelemetryBatch \<Rightarrow> BatchSpool \<Rightarrow> (BatchSpool \<times> nat) option" where
  "enqueue c now b sp =
     evict (sp\<lparr>rows := fst (row_insert_ignore row_batch_id (new_row c now b) (rows sp))\<rparr>) 0"

definition next_ready :: "codec \<Rightarrow> rat \<Rightarrow> BatchSpool \<Rightarrow> PendingBatch option res" where
  "next_ready c now sp =
     (case oldest (filter (\<lambda>r. row_next_attempt_at r \<le> now) (rows sp)) of
        None \<Rightarrow> Inr None
      | Some r \<Rightarrow> res_bind (model_validate_json c (row_payload r))
          (\<lambda>b. Inr (Some \<lparr>pending_batch = b, pending_attempts = row_attempts r\<rparr>)))"

definition mark_sent :: "uuid \<Rightarrow> BatchSpool \<Rightarrow> BatchSpool" where
  "mark_sent bid sp = sp\<lparr>rows := row_delete row_batch_id (uuid_str bid) (rows sp)\<rparr>"

definition mark_failed :: "uuid \<Rightarrow> string \<Rightarrow> rat \<Rightarrow> BatchSpool \<Rightarrow> BatchSpool" where
  "mark_failed bid err next_at sp =
     sp\<lparr>rows := row_update row_batch_id (uuid_str bid)
        (\<lambda>r. r\<lparr>row_attempts := row_attempts r + 1, row_next_attempt_at := next_at,
               row_last_error := Some (take 1000 err)\<rparr>) (rows sp)\<rparr>"

section \<open>Invariant and helper lemmas\<close>

text \<open>
  Batch ids are unique (the primary key), byte counts are not negative, and every row holds the text
  of a well-formed batch with the row's id.
\<close>

definition row_ok :: "codec \<Rightarrow> spool_row \<Rightarrow> bool" where
  "row_ok c r \<longleftrightarrow> 0 \<le> row_payload_bytes r \<and>
     (\<exists>b. wf_batch b \<and> finite_batch b \<and> row_batch_id r = uuid_str (batch_id b) \<and>
          row_payload r = model_dump_json c b)"

definition spool_inv :: "codec \<Rightarrow> BatchSpool \<Rightarrow> bool" where
  "spool_inv c sp \<longleftrightarrow> keyed row_batch_id (rows sp) \<and> list_all (row_ok c) (rows sp) \<and>
     0 \<le> max_batches sp \<and> 0 \<le> max_bytes sp"

lemma oldest_in: "oldest rs = Some r \<Longrightarrow> r \<in> set rs"
  by (auto simp: oldest_def dest: first_max_in)

lemma oldest_le: "oldest rs = Some r \<Longrightarrow> x \<in> set rs \<Longrightarrow> row_created_at r \<le> row_created_at x"
  using first_max_ge[of "\<lambda>r. - row_created_at r" rs r x] by (simp add: oldest_def)

lemma oldest_None [simp]: "oldest rs = None \<longleftrightarrow> rs = []"
  by (simp add: oldest_def)

lemma delete_oldest_length: "rs \<noteq> [] \<Longrightarrow> length (delete_oldest rs) < length rs"
proof -
  assume "rs \<noteq> []"
  then obtain r where r: "oldest rs = Some r" by (cases "oldest rs") auto
  then have "r \<in> set rs" by (rule oldest_in)
  then have "length (filter (\<lambda>x. row_batch_id x \<noteq> row_batch_id r) rs) < length rs"
    by (intro length_filter_less[of r]) simp_all
  with r show ?thesis by (simp add: delete_oldest_def row_delete_def)
qed

lemma delete_oldest_keyed:
  assumes "keyed row_batch_id rs" and "rs \<noteq> []"
  obtains r where "oldest rs = Some r" and "set (delete_oldest rs) = set rs - {r}"
    and "keyed row_batch_id (delete_oldest rs)" and "length rs = Suc (length (delete_oldest rs))"
proof -
  obtain r where r: "oldest rs = Some r" using assms(2) by (cases "oldest rs") auto
  have del: "delete_oldest rs = row_delete row_batch_id (row_batch_id r) rs"
    by (simp add: delete_oldest_def r)
  have "r \<in> set rs" using r by (rule oldest_in)
  have "set (delete_oldest rs) = set rs - {r}"
    using assms(1) \<open>r \<in> set rs\<close> by (auto simp: del set_row_delete distinct_map inj_on_def)
  moreover have "length rs = Suc (length (delete_oldest rs))"
    using length_row_delete[OF assms(1)] \<open>r \<in> set rs\<close> by (simp add: del)
  ultimately show thesis using that r assms(1) by (simp add: del keyed_row_delete)
qed

lemma sum_list_delete_oldest:
  assumes "keyed row_batch_id rs" and "oldest rs = Some r"
  shows "sum_list (map row_payload_bytes rs) =
         row_payload_bytes r + sum_list (map row_payload_bytes (delete_oldest rs))"
  using sum_list_row_delete[OF assms(1) oldest_in[OF assms(2)]] assms(2) by (simp add: delete_oldest_def)

lemma over_bound_nonempty:
  "over_bound sp \<Longrightarrow> 0 \<le> max_batches sp \<Longrightarrow> 0 \<le> max_bytes sp \<Longrightarrow> rows sp \<noteq> []"
  by (auto simp: over_bound_def spool_count_def total_bytes_def)

section \<open>The eviction loop\<close>

text \<open>
  What a run of the loop did to the rows: it kept a set of rows that meets the bounds, each dropped row
  is at least as old as each kept one, the count is exact, and the last row dropped was dropped
  out of need.
\<close>

definition evicted_ok :: "BatchSpool \<Rightarrow> BatchSpool \<Rightarrow> nat \<Rightarrow> bool" where
  "evicted_ok sp sp' n \<longleftrightarrow>
     set (rows sp') \<subseteq> set (rows sp) \<and> keyed row_batch_id (rows sp') \<and>
     length (rows sp) = length (rows sp') + n \<and>
     max_batches sp' = max_batches sp \<and> max_bytes sp' = max_bytes sp \<and> \<not> over_bound sp' \<and>
     (n = 0 \<longrightarrow> sp' = sp) \<and>
     (0 < n \<longrightarrow> (\<exists>r \<in> set (rows sp) - set (rows sp'). over_bound (sp'\<lparr>rows := r # rows sp'\<rparr>))) \<and>
     (\<forall>d \<in> set (rows sp) - set (rows sp'). \<forall>k \<in> set (rows sp'). row_created_at d \<le> row_created_at k)"

lemma evict_returns:
  assumes "keyed row_batch_id (rows sp)" and "0 \<le> max_batches sp" and "0 \<le> max_bytes sp"
  shows "\<exists>sp' n. evict sp d = Some (sp', d + n) \<and> evicted_ok sp sp' n"
  using assms
proof (induction "length (rows sp)" arbitrary: sp d rule: less_induct)
  case less
  show ?case
  proof (cases "over_bound sp")
    case False
    then show ?thesis using less.prems by (subst evict.simps) (simp add: evicted_ok_def)
  next
    case True
    let ?sp = "sp\<lparr>rows := delete_oldest (rows sp)\<rparr>"
    have ne: "rows sp \<noteq> []" using over_bound_nonempty True less.prems by blast
    obtain r where r: "oldest (rows sp) = Some r" "set (rows ?sp) = set (rows sp) - {r}"
      "keyed row_batch_id (rows ?sp)" "length (rows sp) = Suc (length (rows ?sp))"
      using delete_oldest_keyed[OF less.prems(1) ne] by auto
    obtain sp' n where IH: "evict ?sp (d + 1) = Some (sp', d + 1 + n)" "evicted_ok ?sp sp' n"
      using less.hyps[of ?sp "d + 1"] r less.prems by auto
    have "evict sp d = Some (sp', d + Suc n)"
      using True IH(1) r(4) by (subst evict.simps) simp
    moreover have "evicted_ok sp sp' (Suc n)"
    proof -
      have need: "\<exists>x \<in> set (rows sp) - set (rows sp'). over_bound (sp'\<lparr>rows := x # rows sp'\<rparr>)"
      proof (cases "n = 0")
        case True
        with IH(2) have "sp' = ?sp" by (simp add: evicted_ok_def)
        then have "over_bound (sp'\<lparr>rows := r # rows sp'\<rparr>)" and "r \<notin> set (rows sp')"
          using \<open>over_bound sp\<close> r(2,4) sum_list_delete_oldest[OF less.prems(1) r(1)]
          by (simp_all add: over_bound_def spool_count_def total_bytes_def)
        then show ?thesis using oldest_in[OF r(1)] by blast
      next
        case False
        with IH(2) r(2) show ?thesis by (auto simp: evicted_ok_def)
      qed
      have "row_created_at x \<le> row_created_at k"
        if "x \<in> set (rows sp) - set (rows sp')" and "k \<in> set (rows sp')" for x k
      proof (cases "x = r")
        case True
        have "k \<in> set (rows sp)" using IH(2) r(2) that(2) by (auto simp: evicted_ok_def)
        with True oldest_le[OF r(1)] show ?thesis by simp
      next
        case False
        with IH(2) r(2) that show ?thesis by (auto simp: evicted_ok_def)
      qed
      with need IH(2) r show ?thesis by (auto simp: evicted_ok_def)
    qed
    ultimately show ?thesis by blast
  qed
qed

lemma evict_within: "\<not> over_bound sp \<Longrightarrow> evict sp d = Some (sp, d)"
  by (subst evict.simps) simp

lemma evictD:
  assumes "keyed row_batch_id (rows sp)" and "0 \<le> max_batches sp" and "0 \<le> max_bytes sp"
    and "evict sp d = Some (sp', m)"
  shows "evicted_ok sp sp' (m - d) \<and> d \<le> m"
  using evict_returns[OF assms(1-3), of d] assms(4) by auto

text \<open>With a negative bound and an empty table the loop has nothing to delete and never ends.\<close>

lemma evict_diverges:
  assumes "rows sp = []" and "max_batches sp < 0 \<or> max_bytes sp < 0"
  shows "evict sp d = None"
proof (rule ccontr)
  let ?stuck = "\<lambda>sp. rows sp = [] \<and> (max_batches sp < 0 \<or> max_bytes sp < 0)"
  assume "evict sp d \<noteq> None"
  then obtain res where res: "evict sp d = Some res" by blast
  have "\<not> ?stuck sp"
  proof (rule evict.raw_induct [where P = "\<lambda>sp d res. \<not> ?stuck sp", OF _ res])
    fix ev sp d res
    assume IH: "\<And>sp d res. ev sp d = Some res \<Longrightarrow> \<not> ?stuck sp"
      and eq: "(if over_bound sp then ev (sp\<lparr>rows := delete_oldest (rows sp)\<rparr>)
             (d + (length (rows sp) - length (delete_oldest (rows sp)))) else Some (sp, d)) = Some res"
    show "\<not> ?stuck sp"
    proof
      assume st: "?stuck sp"
      then have "over_bound sp" by (auto simp: over_bound_def spool_count_def total_bytes_def)
      with eq have "\<not> ?stuck (sp\<lparr>rows := delete_oldest (rows sp)\<rparr>)" using IH by metis
      with st show False by (simp add: delete_oldest_def row_delete_def split: option.splits)
    qed
  qed
  with assms show False by blast
qed

section \<open>Operations keep the invariant\<close>

abbreviation inserted :: "codec \<Rightarrow> rat \<Rightarrow> TelemetryBatch \<Rightarrow> BatchSpool \<Rightarrow> BatchSpool" where
  "inserted c now b sp \<equiv>
     sp\<lparr>rows := fst (row_insert_ignore row_batch_id (new_row c now b) (rows sp))\<rparr>"

lemma row_ok_new: "wf_batch b \<Longrightarrow> finite_batch b \<Longrightarrow> row_ok c (new_row c now b)"
  by (auto simp: row_ok_def new_row_def)

lemma set_inserted:
  "set (rows (inserted c now b sp)) \<subseteq> insert (new_row c now b) (set (rows sp))"
  by (auto simp: row_insert_ignore_def)

lemma spool_inv_inserted:
  "spool_inv c sp \<Longrightarrow> wf_batch b \<Longrightarrow> finite_batch b \<Longrightarrow> spool_inv c (inserted c now b sp)"
  using row_ok_new[of b c now] by (auto simp: spool_inv_def row_insert_ignore_def list_all_iff)

lemma spool_inv_evicted: "spool_inv c sp \<Longrightarrow> evicted_ok sp sp' n \<Longrightarrow> spool_inv c sp'"
  by (auto simp: spool_inv_def evicted_ok_def list_all_iff)

lemma enqueue_total:
  assumes "spool_inv c sp" and "wf_batch b" and "finite_batch b"
  shows "\<exists>sp' n. enqueue c now b sp = Some (sp', n) \<and> evicted_ok (inserted c now b sp) sp' n \<and> spool_inv c sp'"
proof -
  have inv: "spool_inv c (inserted c now b sp)" by (rule spool_inv_inserted [OF assms])
  then obtain sp' n where e: "evict (inserted c now b sp) 0 = Some (sp', 0 + n)"
    "evicted_ok (inserted c now b sp) sp' n"
    using evict_returns[of "inserted c now b sp" 0] by (auto simp: spool_inv_def)
  then show ?thesis using spool_inv_evicted[OF inv] by (auto simp: enqueue_def)
qed

lemma spool_inv_mark_sent: "spool_inv c sp \<Longrightarrow> spool_inv c (mark_sent bid sp)"
  by (auto simp: spool_inv_def mark_sent_def keyed_row_delete set_row_delete list_all_iff)

lemma row_ok_failed:
  "row_ok c r \<Longrightarrow> row_ok c (r\<lparr>row_attempts := a, row_next_attempt_at := t, row_last_error := e\<rparr>)"
  by (simp add: row_ok_def)

lemma spool_inv_mark_failed: "spool_inv c sp \<Longrightarrow> spool_inv c (mark_failed bid err t sp)"
  using row_ok_failed by (auto simp: spool_inv_def mark_failed_def map_key_row_update list_all_iff set_row_update)

lemma mark_failed_ids: "map row_batch_id (rows (mark_failed bid err t sp)) = map row_batch_id (rows sp)"
  by (simp add: mark_failed_def map_key_row_update)

lemma next_ready_cases:
  assumes "codec_ok c" and "spool_inv c sp"
  shows "(next_ready c now sp = Inr None \<and> (\<forall>r \<in> set (rows sp). now < row_next_attempt_at r)) \<or>
    (\<exists>r b. r \<in> set (rows sp) \<and> row_next_attempt_at r \<le> now \<and>
       (\<forall>x \<in> set (rows sp). row_next_attempt_at x \<le> now \<longrightarrow> row_created_at r \<le> row_created_at x) \<and>
       wf_batch b \<and> row_batch_id r = uuid_str (batch_id b) \<and> row_payload r = model_dump_json c b \<and>
       next_ready c now sp = Inr (Some \<lparr>pending_batch = b, pending_attempts = row_attempts r\<rparr>))"
proof (cases "oldest (filter (\<lambda>r. row_next_attempt_at r \<le> now) (rows sp))")
  case None
  then have "next_ready c now sp = Inr None" by (simp add: next_ready_def del: oldest_None)
  with None show ?thesis by (auto simp: filter_empty_conv not_le)
next
  case (Some r)
  have r: "r \<in> set (rows sp)" "row_next_attempt_at r \<le> now" using oldest_in[OF Some] by simp_all
  then obtain b where b: "wf_batch b" "finite_batch b" "row_batch_id r = uuid_str (batch_id b)"
    "row_payload r = model_dump_json c b"
    using assms(2) by (auto simp: spool_inv_def list_all_iff row_ok_def)
  then have "next_ready c now sp = Inr (Some \<lparr>pending_batch = b, pending_attempts = row_attempts r\<rparr>)"
    by (simp add: next_ready_def Some model_json_roundtrip[OF assms(1)])
  then show ?thesis using r b oldest_le[OF Some] by auto
qed

section \<open>The interface the agent relies on\<close>

text \<open>
  A spool as its client sees it: the set of batch ids it holds and what each operation does to that
  set. Client lemma: over any sequence of operations no batch disappears unnoticed; everything
  that entered is still held, was reported sent, or was counted as dropped.
\<close>

datatype 'b spool_op = Enq rat 'b | Sent uuid | Failed uuid string rat

locale spool_contract =
  fixes held :: "'s \<Rightarrow> uuid set"
    and id_of :: "'b \<Rightarrow> uuid"
    and enq :: "rat \<Rightarrow> 'b \<Rightarrow> 's \<Rightarrow> ('s \<times> nat) option"
    and sent :: "uuid \<Rightarrow> 's \<Rightarrow> 's"
    and failed :: "uuid \<Rightarrow> string \<Rightarrow> rat \<Rightarrow> 's \<Rightarrow> 's"
    and valid :: "'b \<Rightarrow> bool"
    and invar :: "'s \<Rightarrow> bool"
  assumes held_finite: "invar s \<Longrightarrow> finite (held s)"
    and enq_total: "invar s \<Longrightarrow> valid b \<Longrightarrow> \<exists>s' n. enq t b s = Some (s', n)"
    and enq_invar: "invar s \<Longrightarrow> valid b \<Longrightarrow> enq t b s = Some (s', n) \<Longrightarrow> invar s'"
    and enq_held: "invar s \<Longrightarrow> valid b \<Longrightarrow> enq t b s = Some (s', n) \<Longrightarrow>
           held s' \<subseteq> insert (id_of b) (held s) \<and> card (insert (id_of b) (held s)) = card (held s') + n"
    and sent_invar: "invar s \<Longrightarrow> invar (sent k s)"
    and sent_held: "invar s \<Longrightarrow> held (sent k s) = held s - {k}"
    and failed_invar: "invar s \<Longrightarrow> invar (failed k e t s)"
    and failed_held: "invar s \<Longrightarrow> held (failed k e t s) = held s"
begin

text \<open>A run: the state, and the counts of entered, sent and dropped batches.\<close>

fun run_ops :: "'b spool_op list \<Rightarrow> 's \<times> nat \<times> nat \<times> nat \<Rightarrow> ('s \<times> nat \<times> nat \<times> nat) option" where
  "run_ops [] st = Some st"
| "run_ops (Enq t b # ops) (s, i, q, d) =
     (case enq t b s of
        None \<Rightarrow> None
      | Some (s', n) \<Rightarrow> run_ops ops (s', if id_of b \<in> held s then i else Suc i, q, d + n))"
| "run_ops (Sent k # ops) (s, i, q, d) =
     run_ops ops (sent k s, i, if k \<in> held s then Suc q else q, d)"
| "run_ops (Failed k e t # ops) (s, i, q, d) = run_ops ops (failed k e t s, i, q, d)"

definition op_ok :: "'b spool_op \<Rightarrow> bool" where
  "op_ok x \<longleftrightarrow> (case x of Enq t b \<Rightarrow> valid b | _ \<Rightarrow> True)"

lemma card_sent: "invar s \<Longrightarrow> k \<in> held s \<Longrightarrow> card (held s) = Suc (card (held (sent k s)))"
  using sent_held held_finite card_Suc_Diff1 by metis

lemma run_ops_accounting:
  assumes "invar s" and "list_all op_ok ops"
  shows "\<exists>s' i' q' d'. run_ops ops (s, i, q, d) = Some (s', i', q', d') \<and> invar s' \<and>
    card (held s') + q' + d' + i = card (held s) + q + d + i'"
  using assms
proof (induction ops arbitrary: s i q d)
  case Nil
  then show ?case by simp
next
  case (Cons x ops)
  show ?case
  proof (cases x)
    case (Enq t b)
    then have b: "valid b" using Cons.prems(2) by (simp add: op_ok_def)
    obtain s1 n where e: "enq t b s = Some (s1, n)" using enq_total[OF Cons.prems(1) b] by blast
    let ?i = "if id_of b \<in> held s then i else Suc i"
    obtain s' i' q' d' where IH: "run_ops ops (s1, ?i, q, d + n) = Some (s', i', q', d')" "invar s'"
      "card (held s') + q' + d' + ?i = card (held s1) + q + (d + n) + i'"
      using Cons.IH[OF enq_invar[OF Cons.prems(1) b e], of ?i q "d + n"] Cons.prems(2) by auto
    have "card (insert (id_of b) (held s)) = (if id_of b \<in> held s then card (held s) else Suc (card (held s)))"
      using held_finite[OF Cons.prems(1)] by (simp add: insert_absorb)
    then have "card (held s') + q' + d' + i = card (held s) + q + d + i'"
      using enq_held[OF Cons.prems(1) b e] IH(3) by (cases "id_of b \<in> held s") simp_all
    moreover have "run_ops (x # ops) (s, i, q, d) = run_ops ops (s1, ?i, q, d + n)"
      by (simp add: Enq e)
    ultimately show ?thesis using IH(1,2) by metis
  next
    case (Sent k)
    let ?q = "if k \<in> held s then Suc q else q"
    obtain s' i' q' d' where IH: "run_ops ops (sent k s, i, ?q, d) = Some (s', i', q', d')" "invar s'"
      "card (held s') + q' + d' + i = card (held (sent k s)) + ?q + d + i'"
      using Cons.IH[OF sent_invar[OF Cons.prems(1)], of k i ?q d] Cons.prems(2) by auto
    have "card (held (sent k s)) + ?q = card (held s) + q"
    proof (cases "k \<in> held s")
      case True
      then show ?thesis using card_sent[OF Cons.prems(1) True] by simp
    next
      case False
      then show ?thesis using sent_held[OF Cons.prems(1), of k] by simp
    qed
    then have "card (held s') + q' + d' + i = card (held s) + q + d + i'" using IH(3) by simp
    moreover have "run_ops (x # ops) (s, i, q, d) = run_ops ops (sent k s, i, ?q, d)"
      by (simp add: Sent)
    ultimately show ?thesis using IH(1,2) by metis
  next
    case (Failed k e t)
    then show ?thesis
      using Cons.IH[OF failed_invar[OF Cons.prems(1)], of k e t i q d] failed_held[OF Cons.prems(1), of k e t]
        Cons.prems(2) by auto
  qed
qed

end

section \<open>The SQLite spool meets the interface\<close>

definition spool_ids :: "BatchSpool \<Rightarrow> uuid set" where
  "spool_ids sp = {u. uuid_str u \<in> row_batch_id ` set (rows sp)}"

lemma spool_ids_image:
  assumes "spool_inv c sp"
  shows "uuid_str ` spool_ids sp = row_batch_id ` set (rows sp)"
  using assms by (auto simp: spool_ids_def spool_inv_def list_all_iff row_ok_def image_iff) metis

lemma card_spool_ids:
  assumes "spool_inv c sp"
  shows "finite (spool_ids sp) \<and> card (spool_ids sp) = length (rows sp)"
proof -
  have inj: "inj_on uuid_str (spool_ids sp)" by (auto simp: inj_on_def)
  have "card (row_batch_id ` set (rows sp)) = length (rows sp)"
    using assms distinct_card[of "map row_batch_id (rows sp)"] by (simp add: spool_inv_def)
  then show ?thesis
    using spool_ids_image[OF assms] card_image[OF inj] finite_imageD[OF _ inj] by simp
qed

lemma spool_ids_inserted:
  "spool_ids (inserted c now b sp) = insert (batch_id b) (spool_ids sp)"
  using row_insert_ignore_keys[of row_batch_id "new_row c now b" "rows sp"]
  by (auto simp: spool_ids_def new_row_def)

lemma enqueue_held:
  assumes "spool_inv c sp" and "wf_batch b" and "finite_batch b" and "enqueue c now b sp = Some (sp', n)"
  shows "spool_ids sp' \<subseteq> insert (batch_id b) (spool_ids sp) \<and>
    card (insert (batch_id b) (spool_ids sp)) = card (spool_ids sp') + n"
proof -
  have ok: "evicted_ok (inserted c now b sp) sp' n" "spool_inv c sp'"
    using enqueue_total[OF assms(1-3), of now] assms(4) by auto
  have "spool_ids sp' \<subseteq> spool_ids (inserted c now b sp)"
    using ok(1) by (auto simp: spool_ids_def evicted_ok_def)
  moreover have "card (spool_ids (inserted c now b sp)) = card (spool_ids sp') + n"
    using ok card_spool_ids[OF ok(2)] card_spool_ids[OF spool_inv_inserted[OF assms(1-3), of now]]
    by (simp add: evicted_ok_def)
  ultimately show ?thesis by (simp only: spool_ids_inserted)
qed

lemma mark_sent_ids: "spool_ids (mark_sent bid sp) = spool_ids sp - {bid}"
  by (auto simp: spool_ids_def mark_sent_def set_row_delete)

lemma mark_failed_spool_ids: "spool_ids (mark_failed bid e t sp) = spool_ids sp"
proof -
  have "row_batch_id ` set (rows (mark_failed bid e t sp)) = row_batch_id ` set (rows sp)"
    using mark_failed_ids by (metis list.set_map)
  then show ?thesis by (simp add: spool_ids_def)
qed

abbreviation storable :: "TelemetryBatch \<Rightarrow> bool" where
  "storable b \<equiv> wf_batch b \<and> finite_batch b"

interpretation sqlite: spool_contract spool_ids batch_id "enqueue c" mark_sent mark_failed storable "spool_inv c"
  for c
proof unfold_locales
  fix s :: BatchSpool and b :: TelemetryBatch and t s' n
  show "spool_inv c s \<Longrightarrow> finite (spool_ids s)" using card_spool_ids by blast
  show "spool_inv c s \<Longrightarrow> storable b \<Longrightarrow> \<exists>s' n. enqueue c t b s = Some (s', n)"
    using enqueue_total by blast
  show "spool_inv c s \<Longrightarrow> storable b \<Longrightarrow> enqueue c t b s = Some (s', n) \<Longrightarrow> spool_inv c s'"
    using enqueue_total[of c s b t] by auto
  show "spool_inv c s \<Longrightarrow> storable b \<Longrightarrow> enqueue c t b s = Some (s', n) \<Longrightarrow>
    spool_ids s' \<subseteq> insert (batch_id b) (spool_ids s) \<and>
    card (insert (batch_id b) (spool_ids s)) = card (spool_ids s') + n"
    using enqueue_held by blast
qed (simp_all add: spool_inv_mark_sent spool_inv_mark_failed mark_sent_ids mark_failed_spool_ids)

text \<open>The run of the client lemma, on the spool itself.\<close>

fun spool_run :: "codec \<Rightarrow> TelemetryBatch spool_op list \<Rightarrow> BatchSpool \<times> nat \<times> nat \<times> nat \<Rightarrow>
    (BatchSpool \<times> nat \<times> nat \<times> nat) option" where
  "spool_run c [] st = Some st"
| "spool_run c (Enq t b # ops) (sp, i, q, d) =
     (case enqueue c t b sp of
        None \<Rightarrow> None
      | Some (sp', n) \<Rightarrow> spool_run c ops (sp', if batch_id b \<in> spool_ids sp then i else Suc i, q, d + n))"
| "spool_run c (Sent k # ops) (sp, i, q, d) =
     spool_run c ops (mark_sent k sp, i, if k \<in> spool_ids sp then Suc q else q, d)"
| "spool_run c (Failed k e t # ops) (sp, i, q, d) = spool_run c ops (mark_failed k e t sp, i, q, d)"

definition storable_op :: "TelemetryBatch spool_op \<Rightarrow> bool" where
  "storable_op x \<longleftrightarrow> (case x of Enq t b \<Rightarrow> storable b | _ \<Rightarrow> True)"

lemma spool_run_eq: "spool_run c ops st = sqlite.run_ops c ops st"
proof (induction ops arbitrary: st)
  case Nil
  then show ?case by simp
next
  case (Cons x ops)
  obtain sp i q d where st: "st = (sp, i, q, d)" by (cases st) auto
  show ?case using Cons by (cases x) (simp_all add: st split: option.splits)
qed

lemma storable_op_eq: "storable_op x = sqlite.op_ok x"
  by (simp add: storable_op_def sqlite.op_ok_def)

section \<open>Properties\<close>

text \<open>
  C8: Enqueueing always returns. Afterwards the spool is within both of its bounds, every
  evicted row is at least as old as every surviving one, the last eviction was needed, the reported
  number of dropped batches is exact, and the spool's invariant still holds.
\<close>

theorem enqueue_bounded:
  assumes "spool_inv c sp" and "wf_batch b" and "finite_batch b"
  shows "\<exists>sp' n. enqueue c now b sp = Some (sp', n) \<and> spool_inv c sp' \<and>
    spool_count sp' \<le> max_batches sp \<and> total_bytes sp' \<le> max_bytes sp \<and>
    length (rows sp') + n = length (rows sp) + (if batch_id b \<in> spool_ids sp then 0 else 1) \<and>
    (\<forall>d \<in> set (rows (inserted c now b sp)) - set (rows sp').
       \<forall>k \<in> set (rows sp'). row_created_at d \<le> row_created_at k) \<and>
    (0 < n \<longrightarrow> (\<exists>r \<in> set (rows (inserted c now b sp)) - set (rows sp'). over_bound (sp'\<lparr>rows := r # rows sp'\<rparr>)))"
proof -
  obtain sp' n where e: "enqueue c now b sp = Some (sp', n)" "evicted_ok (inserted c now b sp) sp' n"
    "spool_inv c sp'"
    using enqueue_total[OF assms] by blast
  have "length (rows (inserted c now b sp)) = length (rows sp) + (if batch_id b \<in> spool_ids sp then 0 else 1)"
    by (auto simp: row_insert_ignore_def new_row_def spool_ids_def)
  with e show ?thesis
    by (intro exI[of _ sp'] exI[of _ n]) (auto simp: evicted_ok_def over_bound_def)
qed

theorem enqueue_bounded_witness:
  "\<exists>sp' n. enqueue example_codec 5 (example_batch 1 0 10) (open_spool [] 10 100000) = Some (sp', n) \<and>
     spool_count sp' \<le> 10 \<and> total_bytes sp' \<le> 100000 \<and> length (rows sp') + n = 1"
proof -
  have "spool_inv example_codec (open_spool [] 10 100000)"
    by (simp add: spool_inv_def open_spool_def)
  from enqueue_bounded[OF this wf_example_batch[of 10 1 0] finite_example_batch, of 5]
  show ?thesis by (auto simp: open_spool_def spool_ids_def)
qed

text \<open>
  On a spool that satisfies its invariant, \<open>next_ready\<close> never raises: it returns nothing
  exactly when no batch is due, and otherwise the stored batch of a due row that no other due row
  is older than, with that row's attempt count.
\<close>

theorem next_ready_oldest_due:
  assumes "codec_ok c" and "spool_inv c sp"
  shows "(next_ready c now sp = Inr None \<and> (\<forall>r \<in> set (rows sp). now < row_next_attempt_at r)) \<or>
    (\<exists>r b. r \<in> set (rows sp) \<and> row_next_attempt_at r \<le> now \<and>
       (\<forall>x \<in> set (rows sp). row_next_attempt_at x \<le> now \<longrightarrow> row_created_at r \<le> row_created_at x) \<and>
       wf_batch b \<and> row_batch_id r = uuid_str (batch_id b) \<and> row_payload r = model_dump_json c b \<and>
       next_ready c now sp = Inr (Some \<lparr>pending_batch = b, pending_attempts = row_attempts r\<rparr>))"
  by (rule next_ready_cases [OF assms])

theorem next_ready_oldest_due_witness:
  "\<exists>p. next_ready example_codec 0
     (open_spool [new_row example_codec 7 (example_batch 2 0 10), new_row example_codec 5 (example_batch 1 0 10)] 10 100000)
     = Inr (Some p) \<and> batch_id (pending_batch p) = 1 \<and> pending_attempts p = 0"
proof -
  let ?r1 = "new_row example_codec 7 (example_batch 2 0 10)"
  let ?r2 = "new_row example_codec 5 (example_batch 1 0 10)"
  let ?sp = "open_spool [?r1, ?r2] 10 100000"
  have ids: "row_batch_id ?r1 = uuid_str 2" "row_batch_id ?r2 = uuid_str 1"
    by (simp_all add: new_row_def example_batch_def)
  have "spool_inv example_codec ?sp"
    using row_ok_new[OF wf_example_batch finite_example_batch] ids
    by (simp add: spool_inv_def open_spool_def)
  from next_ready_oldest_due[OF example_codec_ok this, of 0] ids
  show ?thesis by (auto simp: open_spool_def new_row_def example_batch_def)
qed

text \<open>
  C21: Over any sequence of enqueue, sent and failed operations on a valid spool, the sequence
  runs to its end, and the batches accounted for balance: those still held plus those
  acknowledged plus those reported dropped are those initially held plus those newly stored.
\<close>

theorem spool_accounting:
  assumes "spool_inv c sp" and "list_all storable_op ops"
  shows "\<exists>sp' i q d. spool_run c ops (sp, 0, 0, 0) = Some (sp', i, q, d) \<and> spool_inv c sp' \<and>
    length (rows sp') + q + d = length (rows sp) + i"
proof -
  have "list_all (sqlite.op_ok) ops" using assms(2) by (simp add: storable_op_eq list_all_iff)
  from sqlite.run_ops_accounting[OF assms(1) this, of 0 0 0]
  obtain sp' i q d where r: "spool_run c ops (sp, 0, 0, 0) = Some (sp', i, q, d)" "spool_inv c sp'"
    "card (spool_ids sp') + q + d = card (spool_ids sp) + i"
    by (auto simp: spool_run_eq)
  then show ?thesis using card_spool_ids[OF assms(1)] card_spool_ids[OF r(2)] by auto
qed

theorem spool_accounting_witness:
  "\<exists>sp' i q d. spool_run example_codec
      [Enq 1 (example_batch 1 0 10), Failed 1 ''timeout'' 9, Enq 2 (example_batch 2 0 10), Sent 1]
      (open_spool [] 1 100000, 0, 0, 0) = Some (sp', i, q, d) \<and> length (rows sp') + q + d = i"
proof -
  have "spool_inv example_codec (open_spool [] 1 100000)"
    by (simp add: spool_inv_def open_spool_def)
  moreover have "list_all storable_op
      [Enq 1 (example_batch 1 0 10), Failed 1 ''timeout'' 9, Enq 2 (example_batch 2 0 10), Sent 1]"
    using wf_example_batch finite_example_batch by (simp add: storable_op_def)
  ultimately have "\<exists>sp' i q d. spool_run example_codec
      [Enq 1 (example_batch 1 0 10), Failed 1 ''timeout'' 9, Enq 2 (example_batch 2 0 10), Sent 1]
      (open_spool [] 1 100000, 0, 0, 0) = Some (sp', i, q, d) \<and> spool_inv example_codec sp' \<and>
      length (rows sp') + q + d = length (rows (open_spool [] 1 100000)) + i"
    by (rule spool_accounting)
  moreover have "length (rows (open_spool [] 1 100000)) = 0" by (simp add: open_spool_def)
  ultimately show ?thesis by (simp del: spool_run.simps) blast
qed

text \<open>
  A new batch that is by itself larger than the byte bound empties the spool: every older
  batch is evicted first, and then the new one too. Nothing that was waiting survives.
\<close>

theorem oversized_batch_empties_spool:
  assumes "spool_inv c sp" and "wf_batch b" and "finite_batch b" and "batch_id b \<notin> spool_ids sp"
    and "max_bytes sp < int (utf8_len (model_dump_json c b))"
    and "\<forall>r \<in> set (rows sp). row_created_at r < now"
  shows "enqueue c now b sp = Some (sp\<lparr>rows := []\<rparr>, Suc (length (rows sp)))"
proof -
  let ?r = "new_row c now b" and ?sp = "inserted c now b sp"
  obtain sp' n where e: "enqueue c now b sp = Some (sp', n)" "evicted_ok ?sp sp' n" "spool_inv c sp'"
    using enqueue_total[OF assms(1-3)] by blast
  have rows: "rows ?sp = rows sp @ [?r]"
    using assms(4) by (auto simp: row_insert_ignore_def new_row_def spool_ids_def)
  have "?r \<notin> set (rows sp')"
  proof
    assume "?r \<in> set (rows sp')"
    moreover have "\<forall>x \<in> set (map row_payload_bytes (rows sp')). 0 \<le> x"
      using e(3) by (auto simp: spool_inv_def list_all_iff row_ok_def)
    ultimately have "row_payload_bytes ?r \<le> total_bytes sp'"
      unfolding total_bytes_def by (intro member_le_sum_list) auto
    then show False using e(2) assms(5) by (simp add: evicted_ok_def over_bound_def new_row_def)
  qed
  then have out: "?r \<in> set (rows ?sp) - set (rows sp')" using rows by simp
  have False if k: "k \<in> set (rows sp')" for k
  proof -
    have "k \<in> set (rows sp)" using k out rows e(2) by (auto simp: evicted_ok_def)
    then have "row_created_at k < row_created_at ?r" using assms(6) by (simp add: new_row_def)
    moreover have "row_created_at ?r \<le> row_created_at k"
      using out k e(2) unfolding evicted_ok_def by blast
    ultimately show False by simp
  qed
  then have "rows sp' = []" by (cases "rows sp'") auto
  moreover have "sp' = sp\<lparr>rows := rows sp'\<rparr>" using e(2) by (simp add: evicted_ok_def)
  ultimately show ?thesis using e rows by (simp add: evicted_ok_def)
qed

theorem oversized_batch_empties_spool_witness:
  "enqueue example_codec 9 (example_batch 1 0 10)
     (open_spool [new_row example_codec 5 (example_batch 2 0 10)] 10 10) =
   Some (open_spool [] 10 10, 2)"
proof -
  let ?sp = "open_spool [new_row example_codec 5 (example_batch 2 0 10)] 10 10"
  have "spool_inv example_codec ?sp"
    using row_ok_new[OF wf_example_batch finite_example_batch] by (simp add: spool_inv_def open_spool_def)
  moreover have "batch_id (example_batch 1 0 10) \<notin> spool_ids ?sp"
    by (simp add: spool_ids_def open_spool_def new_row_def example_batch_def)
  moreover have "max_bytes ?sp < int (utf8_len (model_dump_json example_codec (example_batch 1 0 10)))"
  proof -
    have "\<exists>u. model_dump_json example_codec (example_batch 1 0 10) = ''{'' @ dump_str ''o'' @ '':[['' @ dump_str ''schema_version'' @ u"
      by (simp add: model_dump_json_def example_codec_def dump_batch_def pair_value_def compact_def)
    then have "10 < length (model_dump_json example_codec (example_batch 1 0 10))"
      by (auto simp: dump_str_def escape_char_def dquote_def bslash_def)
    also have "\<dots> \<le> utf8_len (model_dump_json example_codec (example_batch 1 0 10))"
      by (rule length_le_utf8_len)
    finally show ?thesis by (simp add: open_spool_def)
  qed
  ultimately show ?thesis
    using oversized_batch_empties_spool[OF _ wf_example_batch[of 10 1 0] finite_example_batch, of example_codec ?sp 9]
    by (simp add: open_spool_def new_row_def)
qed

end
