(* ===== verification/Agent.thy ===== *)
theory Agent
  imports Spool
begin

text \<open>
  The agent process: settings and the default agent id (\<open>agent/config.py\<close>), telemetry
  collection (\<open>agent/collector.py\<close>), delivery and retry delays (\<open>agent/client.py\<close>), and the
  collection loop with its final flush (\<open>agent/main.py\<close>).

  What psutil, the clock, the random generator, \<open>uuid4\<close> and the HTTP transport return enters as
  arguments. Rates and delays are finite floats, taken as exact rationals.
\<close>

section \<open>Settings (agent/config.py)\<close>

definition default_agent_id :: "string \<Rightarrow> string" where
  "default_agent_id gethostname =
     (let normalized = take 128 (map (\<lambda>c. if agent_id_char c then c else CHR ''-'') gethostname)
      in if normalized = [] then ''fleetpulse-agent'' else normalized)"

record AgentSettings =
  set_agent_id :: string
  set_hostname :: string
  collection_interval_seconds :: rat
  batch_size :: int
  max_spool_batches :: int
  max_spool_bytes :: int
  request_timeout_seconds :: rat
  retry_base_seconds :: rat
  retry_cap_seconds :: rat
  metrics_port :: int

definition wf_agent_settings :: "AgentSettings \<Rightarrow> bool" where
  "wf_agent_settings s \<longleftrightarrow>
     0 < collection_interval_seconds s \<and> 1 \<le> batch_size s \<and> batch_size s \<le> 100 \<and>
     1 \<le> max_spool_batches s \<and> 1024 \<le> max_spool_bytes s \<and> 0 < request_timeout_seconds s \<and>
     0 < retry_base_seconds s \<and> 0 < retry_cap_seconds s \<and>
     1 \<le> metrics_port s \<and> metrics_port s \<le> 65535"

text \<open>The settings with every variable but the token left at its default.\<close>

definition default_settings :: "string \<Rightarrow> AgentSettings" where
  "default_settings gethostname =
     \<lparr>set_agent_id = default_agent_id gethostname, set_hostname = gethostname,
      collection_interval_seconds = 10, batch_size = 6, max_spool_batches = 1000,
      max_spool_bytes = 64 * 1024 * 1024, request_timeout_seconds = 5, retry_base_seconds = 1,
      retry_cap_seconds = 60, metrics_port = 9103\<rparr>"

section \<open>Collection (agent/collector.py)\<close>

text \<open>
  One entry of \<open>psutil.process_iter\<close>: reading it may be refused, and each of name, CPU and
  memory share may be missing.
\<close>

datatype process_view =
    ProcessGone
  | ProcessInfo int "string option" "pyfloat option" "pyfloat option"

text \<open>\<open>x or default\<close> on an optional float or string: zero and the empty string are falsy too.\<close>

definition float_or_zero :: "pyfloat option \<Rightarrow> pyfloat" where
  "float_or_zero x = (case x of None \<Rightarrow> Fin 0 | Some f \<Rightarrow> if f = Fin 0 then Fin 0 else f)"

definition name_or_unknown :: "string option \<Rightarrow> string" where
  "name_or_unknown n = (case n of None \<Rightarrow> ''unknown'' | Some s \<Rightarrow> if s = [] then ''unknown'' else s)"

text \<open>
  One pass of the loop body. The model constructor raises \<open>ValidationError\<close>, a
  \<open>ValueError\<close>, when a constraint fails; the handler skips the process.
\<close>

definition read_process :: "process_view \<Rightarrow> ProcessTelemetry option" where
  "read_process v =
     (case v of
        ProcessGone \<Rightarrow> None
      | ProcessInfo pid name cpu mem \<Rightarrow>
          (let p = \<lparr>proc_pid = pid, proc_name = take 256 (name_or_unknown name),
                    proc_cpu_percent = fmax (Fin 0) (float_or_zero cpu),
                    proc_memory_percent = fmax (Fin 0) (fmin (Fin 100) (float_or_zero mem))\<rparr>
           in if wf_process p then Some p else None))"

definition process_key :: "ProcessTelemetry \<Rightarrow> pyfloat \<times> pyfloat" where
  "process_key p = (proc_cpu_percent p, proc_memory_percent p)"

text \<open>\<open>list.sort(key=..., reverse=True)\<close> is stable: it sorts the reversed list and reverses it back.\<close>

definition sort_reverse :: "('a \<Rightarrow> 'k::linorder) \<Rightarrow> 'a list \<Rightarrow> 'a list" where
  "sort_reverse k xs = rev (sort_key k (rev xs))"

definition top_processes_of :: "nat \<Rightarrow> process_view list \<Rightarrow> int \<times> ProcessTelemetry list" where
  "top_processes_of limit views =
     (int (length views), take limit (sort_reverse process_key (List.map_filter read_process views)))"

datatype sock_type = SOCK_DGRAM | SOCK_STREAM | SOCK_OTHER
datatype conn_status = CONN_ESTABLISHED | CONN_LISTEN | CONN_OTHER

record io_counters =
  io_bytes_sent :: int
  io_bytes_recv :: int
  io_packets_sent :: int
  io_packets_recv :: int
  io_errin :: int
  io_errout :: int
  io_dropin :: int
  io_dropout :: int

text \<open>The counting loop; the accumulator is (established, listening, other, udp).\<close>

fun count_connections :: "(sock_type \<times> conn_status) list \<Rightarrow> int \<times> int \<times> int \<times> int \<Rightarrow>
    int \<times> int \<times> int \<times> int" where
  "count_connections [] acc = acc"
| "count_connections ((ty, st) # cs) (e, l, x, u) =
     count_connections cs
       (case ty of
          SOCK_DGRAM \<Rightarrow> (e, l, x, u + 1)
        | SOCK_STREAM \<Rightarrow>
            (case st of
               CONN_ESTABLISHED \<Rightarrow> (e + 1, l, x, u)
             | CONN_LISTEN \<Rightarrow> (e, l + 1, x, u)
             | CONN_OTHER \<Rightarrow> (e, l, x + 1, u))
        | SOCK_OTHER \<Rightarrow> (e, l, x, u))"

text \<open>The connection table is \<^const>\<open>None\<close> when reading it is refused.\<close>

definition network_telemetry :: "io_counters \<Rightarrow> (sock_type \<times> conn_status) list option \<Rightarrow> NetworkTelemetry res" where
  "network_telemetry io conns =
     (let (e, l, x, u) = count_connections (case conns of None \<Rightarrow> [] | Some cs \<Rightarrow> cs) (0, 0, 0, 0);
          n = \<lparr>bytes_sent = io_bytes_sent io, bytes_received = io_bytes_recv io,
               packets_sent = io_packets_sent io, packets_received = io_packets_recv io,
               errors_in = io_errin io, errors_out = io_errout io, drops_in = io_dropin io,
               drops_out = io_dropout io, tcp_established = e, tcp_listening = l, tcp_other = x,
               udp_sockets = u\<rparr>
      in if wf_network n then Inr n else Inl ValidationError)"

record host_facts =
  virtual_memory :: MemoryTelemetry
  disk_usage :: "int \<times> int \<times> int \<times> pyfloat"
  process_iter :: "process_view list"
  getloadavg :: "pyfloat \<times> pyfloat \<times> pyfloat"
  clock_now :: int
  cpu_percent_now :: pyfloat
  net_io_counters :: io_counters
  net_connections :: "(sock_type \<times> conn_status) list option"

definition checked :: "('a \<Rightarrow> bool) \<Rightarrow> 'a \<Rightarrow> 'a res" where
  "checked P x = (if P x then Inr x else Inl ValidationError)"

definition collect_sample :: "host_facts \<Rightarrow> TelemetrySample res" where
  "collect_sample h =
     (let (count, processes) = top_processes_of 10 (process_iter h);
          (l1, l5, l15) = getloadavg h;
          (tot, used, free, pct) = disk_usage h
      in res_bind (checked wf_memory (virtual_memory h)) (\<lambda>mem.
         res_bind (checked wf_disk \<lparr>disk_mount = ''/'', disk_total_bytes = tot, disk_used_bytes = used,
             disk_free_bytes = free, disk_used_percent = pct\<rparr>) (\<lambda>disk.
         res_bind (network_telemetry (net_io_counters h) (net_connections h)) (\<lambda>net.
         checked wf_sample
           \<lparr>observed_at = utc_at (clock_now h), cpu_percent = cpu_percent_now h, load_1m = fmax (Fin 0) l1,
            load_5m = fmax (Fin 0) l5, load_15m = fmax (Fin 0) l15, memory = mem, disks = [disk],
            network = net, process_count = count, top_processes = processes\<rparr>))))"

section \<open>Delivery (agent/client.py)\<close>

text \<open>
  \<open>base * 2 ** n\<close> converts the power to a float, which raises \<open>OverflowError\<close> from
  \<open>2 ** 1024\<close> on. Multiplying by a power of two is exact, or infinite and then above every cap.
\<close>

definition full_jitter_delay :: "int \<Rightarrow> rat \<Rightarrow> rat \<Rightarrow> (rat \<Rightarrow> rat \<Rightarrow> rat) \<Rightarrow> rat res" where
  "full_jitter_delay attempt base cap uniform =
     (let n = nat (max 0 attempt)
      in if 1024 \<le> n then Inl OverflowError
         else Inr (uniform 0 (min cap (base * 2 ^ n))))"

text \<open>A response of the transport: its status code and its body text.\<close>

record http_response =
  http_status :: int
  http_body :: string

record http_request =
  req_path :: string
  req_content :: string
  req_headers :: "(string \<times> string) list"

definition raise_for_status :: "http_response \<Rightarrow> http_response res" where
  "raise_for_status r =
     (if 200 \<le> http_status r \<and> http_status r \<le> 299 then Inr r else Inl (HTTPStatusError (http_status r)))"

definition status_of :: "jval \<Rightarrow> ingestion_status option" where
  "status_of v =
     (if v = JStr ''accepted'' then Some Accepted
      else if v = JStr ''duplicate'' then Some Duplicate else None)"

definition validate_response :: "codec \<Rightarrow> jval \<Rightarrow> IngestionResponse option" where
  "validate_response c v =
     (case v of
        JObj m \<Rightarrow> do {
          bid \<leftarrow> field (map_of m) ''batch_id'' (as_uuid c);
          st \<leftarrow> field (map_of m) ''status'' status_of;
          rid \<leftarrow> field (map_of m) ''request_id'' (as_str c);
          Some \<lparr>resp_batch_id = bid, resp_status = st, resp_request_id = rid\<rparr> }
      | _ \<Rightarrow> None)"

definition send :: "codec \<Rightarrow> string \<Rightarrow> (http_request \<Rightarrow> http_response res) \<Rightarrow> TelemetryBatch \<Rightarrow> IngestionResponse res" where
  "send c token post b =
     res_bind (post \<lparr>req_path = ''/v1/telemetry/batches'', req_content = model_dump_json c b,
        req_headers = [(''Authorization'', ''Bearer '' @ token), (''Content-Type'', ''application/json''),
                       (''X-Request-ID'', uuid_str (batch_id b))]\<rparr>) (\<lambda>r.
     res_bind (raise_for_status r) (\<lambda>r.
     res_bind (res_of JSONDecodeError (loads (http_body r))) (\<lambda>v.
     res_of ValidationError (validate_response c v))))"

section \<open>The collection loop (agent/main.py)\<close>

text \<open>What one pass of the loop reads from the outside, and what it records.\<close>

record tick_env =
  tick_host :: host_facts
  tick_uuid :: uuid
  tick_enqueue_time :: rat
  tick_ready_time :: rat
  tick_post :: "http_request \<Rightarrow> http_response res"
  tick_uniform :: "rat \<Rightarrow> rat \<Rightarrow> rat"
  tick_failed_time :: rat

datatype agent_event =
    BatchSpooled TelemetryBatch
  | SpoolOverflow nat
  | BatchDelivered uuid ingestion_status int
  | BatchDeliveryFailed uuid string int

record agent_state =
  buffer :: "TelemetrySample list"
  spool :: BatchSpool
  events :: "agent_event list"

text \<open>
  A pass ends normally, with an exception that leaves the loop, or not at all (\<^const>\<open>None\<close>,
  the eviction loop of the spool). The exception comes with the state the \<open>finally\<close> block sees.
\<close>

type_synonym agent_result = "(py_error option \<times> agent_state) option"

definition spool_full_batch :: "codec \<Rightarrow> AgentSettings \<Rightarrow> tick_env \<Rightarrow> agent_state \<Rightarrow> agent_result" where
  "spool_full_batch c cfg t st =
     (if batch_size cfg \<le> int (length (buffer st))
      then (case new_batch (tick_uuid t) (set_agent_id cfg) (set_hostname cfg) (buffer st) of
              Inl e \<Rightarrow> Some (Some e, st)
            | Inr b \<Rightarrow>
                (case enqueue c (tick_enqueue_time t) b (spool st) of
                   None \<Rightarrow> None
                 | Some (sp, dropped) \<Rightarrow>
                     Some (None, st\<lparr>buffer := [], spool := sp,
                       events := events st @ BatchSpooled b # (if dropped = 0 then [] else [SpoolOverflow dropped])\<rparr>)))
      else Some (None, st))"

definition deliver_pending :: "codec \<Rightarrow> AgentSettings \<Rightarrow> string \<Rightarrow> tick_env \<Rightarrow> agent_state \<Rightarrow> py_error option \<times> agent_state" where
  "deliver_pending c cfg token t st =
     (case next_ready c (tick_ready_time t) (spool st) of
        Inl e \<Rightarrow> (Some e, st)
      | Inr None \<Rightarrow> (None, st)
      | Inr (Some p) \<Rightarrow>
          (let bid = batch_id (pending_batch p); n = pending_attempts p
           in case send c token (tick_post t) (pending_batch p) of
                Inr r \<Rightarrow> (None, st\<lparr>spool := mark_sent bid (spool st),
                    events := events st @ [BatchDelivered bid (resp_status r) (n + 1)]\<rparr>)
              | Inl e \<Rightarrow>
                  (case full_jitter_delay n (retry_base_seconds cfg) (retry_cap_seconds cfg) (tick_uniform t) of
                     Inl e' \<Rightarrow> (Some e', st)
                   | Inr delay \<Rightarrow> (None, st\<lparr>
                       spool := mark_failed bid (error_name e) (tick_failed_time t + delay) (spool st),
                       events := events st @ [BatchDeliveryFailed bid (error_name e) (n + 1)]\<rparr>))))"

definition agent_tick :: "codec \<Rightarrow> AgentSettings \<Rightarrow> string \<Rightarrow> tick_env \<Rightarrow> agent_state \<Rightarrow> agent_result" where
  "agent_tick c cfg token t st =
     (case collect_sample (tick_host t) of
        Inl e \<Rightarrow> Some (Some e, st)
      | Inr s \<Rightarrow>
          (case spool_full_batch c cfg t (st\<lparr>buffer := buffer st @ [s]\<rparr>) of
             None \<Rightarrow> None
           | Some (Some e, st') \<Rightarrow> Some (Some e, st')
           | Some (None, st') \<Rightarrow> Some (deliver_pending c cfg token t st')))"

text \<open>The loop over the passes made until the stop signal.\<close>

fun agent_loop :: "codec \<Rightarrow> AgentSettings \<Rightarrow> string \<Rightarrow> tick_env list \<Rightarrow> agent_state \<Rightarrow> agent_result" where
  "agent_loop c cfg token [] st = Some (None, st)"
| "agent_loop c cfg token (t # ts) st =
     (case agent_tick c cfg token t st of
        None \<Rightarrow> None
      | Some (Some e, st') \<Rightarrow> Some (Some e, st')
      | Some (None, st') \<Rightarrow> agent_loop c cfg token ts st')"

text \<open>The \<open>finally\<close> block: its own exception replaces the one in flight.\<close>

definition final_flush :: "codec \<Rightarrow> AgentSettings \<Rightarrow> uuid \<Rightarrow> rat \<Rightarrow> py_error option \<times> agent_state \<Rightarrow> agent_result" where
  "final_flush c cfg u now = (\<lambda>(err, st).
     (if buffer st = [] then Some (err, st)
      else case new_batch u (set_agent_id cfg) (set_hostname cfg) (buffer st) of
             Inl e \<Rightarrow> Some (Some e, st)
           | Inr b \<Rightarrow>
               (case enqueue c now b (spool st) of
                  None \<Rightarrow> None
                | Some (sp, dropped) \<Rightarrow> Some (err, st\<lparr>spool := sp\<rparr>))))"

definition agent_run :: "codec \<Rightarrow> AgentSettings \<Rightarrow> string \<Rightarrow> spool_row list \<Rightarrow> tick_env list \<Rightarrow> uuid \<Rightarrow> rat \<Rightarrow> agent_result" where
  "agent_run c cfg token stored ts u now =
     (case agent_loop c cfg token ts
             \<lparr>buffer = [], spool = open_spool stored (max_spool_batches cfg) (max_spool_bytes cfg), events = []\<rparr> of
        None \<Rightarrow> None
      | Some r \<Rightarrow> final_flush c cfg u now r)"

section \<open>Collection: helper lemmas\<close>

lemma set_sort_reverse [simp]: "set (sort_reverse k xs) = set xs"
  by (simp add: sort_reverse_def)

lemma mset_sort_reverse [simp]: "mset (sort_reverse k xs) = mset xs"
  by (simp add: sort_reverse_def)

lemma sorted_sort_reverse: "sorted_wrt (\<lambda>x y. k y \<le> k x) (sort_reverse k xs)"
proof -
  have "sorted (map k (sort_key k (rev xs)))" by simp
  then show ?thesis by (simp add: sort_reverse_def sorted_wrt_rev sorted_wrt_map)
qed

text \<open>Equal keys keep the order they came in.\<close>

lemma filter_sort_reverse: "filter (\<lambda>x. k x = v) (sort_reverse k xs) = filter (\<lambda>x. k x = v) xs"
proof -
  have "filter (\<lambda>x. k x = v) (sort_key k (rev xs)) = filter (\<lambda>x. k x = v) (rev xs)"
    by (rule sort_key_stable)
  then show ?thesis by (simp add: sort_reverse_def rev_filter [symmetric])
qed

lemma read_process_wf: "read_process v = Some p \<Longrightarrow> wf_process p"
  by (auto simp: read_process_def Let_def split: process_view.splits if_splits)

text \<open>The clamping means that a process is skipped only for its pid.\<close>

lemma read_process_info:
  "read_process (ProcessInfo pid name cpu mem) \<noteq> None \<longleftrightarrow> 1 \<le> pid"
proof -
  have "str_len 1 256 (take 256 (name_or_unknown name))"
    by (cases name; cases "the name") (auto simp: str_len_def name_or_unknown_def)
  then show ?thesis
    using clamp_percentage[of "float_or_zero mem"] fmax_zero_nonneg[of "float_or_zero cpu"]
    by (auto simp: read_process_def wf_process_def Let_def percentage_def non_negative_float_def)
qed

lemma map_filter_list_all: "(\<And>x y. f x = Some y \<Longrightarrow> P y) \<Longrightarrow> list_all P (List.map_filter f xs)"
  by (induction xs) (auto simp: List.map_filter_def)

lemma top_processes_of_wf: "list_all wf_process (snd (top_processes_of n vs))"
proof -
  have "list_all wf_process (List.map_filter read_process vs)"
    by (rule map_filter_list_all) (rule read_process_wf)
  then show ?thesis
    by (auto simp: top_processes_of_def list_all_iff dest: in_set_takeD)
qed

lemma top_processes_of_length: "length (snd (top_processes_of n vs)) \<le> n"
  by (simp add: top_processes_of_def)

lemma count_connections_nonneg:
  "count_connections cs (e, l, x, u) = (e', l', x', u') \<Longrightarrow> e \<le> e' \<and> l \<le> l' \<and> x \<le> x' \<and> u \<le> u'"
proof (induction cs arbitrary: e l x u)
  case (Cons c cs)
  obtain ty st where c: "c = (ty, st)" by (cases c)
  show ?case
    using Cons.prems by (cases ty; cases st) (auto simp: c dest!: Cons.IH)
qed simp

lemma collect_sample_wf: "collect_sample h = Inr s \<Longrightarrow> wf_sample s"
  by (auto simp: collect_sample_def Let_def res_bind_eq_Inr checked_def
      split: prod.splits if_splits)

lemma collect_sample_readings:
  assumes "collect_sample h = Inr s"
  shows "top_processes s = snd (top_processes_of 10 (process_iter h))"
    and "load_1m s = fmax (Fin 0) (fst (getloadavg h))"
    and "load_5m s = fmax (Fin 0) (fst (snd (getloadavg h)))"
    and "load_15m s = fmax (Fin 0) (snd (snd (getloadavg h)))"
  using assms
  by (auto simp: collect_sample_def split_beta Let_def res_bind_eq_Inr checked_def split: if_splits)

section \<open>When collection succeeds\<close>

text \<open>The readings that are passed through unclamped are in range.\<close>

definition host_ok :: "host_facts \<Rightarrow> bool" where
  "host_ok h \<longleftrightarrow> wf_memory (virtual_memory h) \<and>
     (case disk_usage h of (tot, used, free, pct) \<Rightarrow> 0 \<le> tot \<and> 0 \<le> used \<and> 0 \<le> free \<and> percentage pct) \<and>
     percentage (cpu_percent_now h) \<and>
     (let io = net_io_counters h in list_all (\<lambda>i. 0 \<le> i)
        [io_bytes_sent io, io_bytes_recv io, io_packets_sent io, io_packets_recv io, io_errin io,
         io_errout io, io_dropin io, io_dropout io])"

lemma network_telemetry_ok:
  "(\<exists>n. network_telemetry io conns = Inr n) \<longleftrightarrow>
   list_all (\<lambda>i. 0 \<le> i) [io_bytes_sent io, io_bytes_recv io, io_packets_sent io, io_packets_recv io,
     io_errin io, io_errout io, io_dropin io, io_dropout io]"
proof -
  obtain e l x u where c: "count_connections (case conns of None \<Rightarrow> [] | Some cs \<Rightarrow> cs) (0, 0, 0, 0) = (e, l, x, u)"
    by (metis prod_cases4)
  with count_connections_nonneg[OF c] show ?thesis
    by (simp add: network_telemetry_def wf_network_def non_negative_int_def)
qed

lemma network_telemetry_wf: "network_telemetry io conns = Inr n \<Longrightarrow> wf_network n"
  by (auto simp: network_telemetry_def Let_def split: prod.splits if_splits)

lemma assembled_sample_wf:
  assumes "wf_memory mem" and "wf_disk d" and "wf_network net" and "percentage cpu"
  shows "wf_sample \<lparr>observed_at = utc_at t, cpu_percent = cpu, load_1m = fmax (Fin 0) l1,
    load_5m = fmax (Fin 0) l5, load_15m = fmax (Fin 0) l15, memory = mem, disks = [d], network = net,
    process_count = fst (top_processes_of 10 vs), top_processes = snd (top_processes_of 10 vs)\<rparr>"
  using assms top_processes_of_wf[of 10 vs] top_processes_of_length[of 10 vs]
  by (simp add: wf_sample_def non_negative_float_def fmax_zero_nonneg non_negative_int_def)
     (simp add: top_processes_of_def)

lemma collect_sample_iff: "(\<exists>s. collect_sample h = Inr s) \<longleftrightarrow> host_ok h"
proof -
  obtain tot used free pct where d: "disk_usage h = (tot, used, free, pct)" by (metis prod_cases4)
  obtain l1 l5 l15 where l: "getloadavg h = (l1, l5, l15)" by (metis prod_cases3)
  let ?net = "network_telemetry (net_io_counters h) (net_connections h)"
  let ?d = "\<lparr>disk_mount = ''/'', disk_total_bytes = tot, disk_used_bytes = used,
             disk_free_bytes = free, disk_used_percent = pct\<rparr>"
  let ?s = "\<lambda>net. \<lparr>observed_at = utc_at (clock_now h), cpu_percent = cpu_percent_now h,
    load_1m = fmax (Fin 0) l1, load_5m = fmax (Fin 0) l5, load_15m = fmax (Fin 0) l15,
    memory = virtual_memory h, disks = [?d], network = net,
    process_count = fst (top_processes_of 10 (process_iter h)),
    top_processes = snd (top_processes_of 10 (process_iter h))\<rparr>"
  have eq: "(\<exists>s. collect_sample h = Inr s) \<longleftrightarrow>
      wf_memory (virtual_memory h) \<and> wf_disk ?d \<and> (\<exists>net. ?net = Inr net \<and> wf_sample (?s net))"
    by (auto simp: collect_sample_def d l res_bind_eq_Inr checked_def split_beta)
  have disk: "wf_disk ?d \<longleftrightarrow> 0 \<le> tot \<and> 0 \<le> used \<and> 0 \<le> free \<and> percentage pct"
    by (simp add: wf_disk_def str_len_def non_negative_int_def)
  have "wf_sample (?s net) \<longleftrightarrow> percentage (cpu_percent_now h)"
    if "wf_memory (virtual_memory h)" "wf_disk ?d" "?net = Inr net" for net
    using assembled_sample_wf[OF that(1,2) network_telemetry_wf[OF that(3)]]
    by (auto simp: wf_sample_def)
  then show ?thesis
    using network_telemetry_ok[of "net_io_counters h" "net_connections h"]
    unfolding eq host_ok_def d Let_def prod.case disk by blast
qed

section \<open>One delivery attempt\<close>

lemma full_jitter_delay_range:
  assumes "0 < base" and "0 < cap" and "\<And>b. 0 \<le> b \<Longrightarrow> 0 \<le> uniform 0 b \<and> uniform 0 b \<le> b"
    and "full_jitter_delay n base cap uniform = Inr d"
  shows "0 \<le> d \<and> d \<le> cap"
proof -
  have "0 \<le> min cap (base * 2 ^ nat (max 0 n))" using assms(1,2) by simp
  from assms(3)[OF this] show ?thesis
    using assms(4) by (auto simp: full_jitter_delay_def Let_def split: if_splits)
qed

lemma deliver_pending_inv:
  assumes "codec_ok c" and "spool_inv c (spool st)" and "deliver_pending c cfg token t st = (err, st')"
  shows "spool_inv c (spool st') \<and> buffer st' = buffer st \<and> err \<in> {None, Some OverflowError} \<and>
    (\<exists>ev. events st' = events st @ ev \<and> (\<forall>b. BatchSpooled b \<notin> set ev))"
proof (cases "next_ready c (tick_ready_time t) (spool st)")
  case (Inl e)
  then show ?thesis using next_ready_cases[OF assms(1,2), of "tick_ready_time t"] by auto
next
  case (Inr r)
  then show ?thesis
    using assms(2,3) spool_inv_mark_sent spool_inv_mark_failed
    by (auto simp: deliver_pending_def full_jitter_delay_def Let_def
        split: option.split_asm sum.split_asm if_split_asm)
qed

section \<open>The loop keeps its samples\<close>

definition spooled :: "agent_event list \<Rightarrow> TelemetryBatch list" where
  "spooled evs = List.map_filter (\<lambda>e. case e of BatchSpooled b \<Rightarrow> Some b | _ \<Rightarrow> None) evs"

lemma spooled_append [simp]: "spooled (xs @ ys) = spooled xs @ spooled ys"
  by (simp add: spooled_def List.map_filter_def)

lemma spooled_none: "(\<And>b. BatchSpooled b \<notin> set ev) \<Longrightarrow> spooled ev = []"
proof (induction ev)
  case (Cons e ev)
  then have "\<And>b. BatchSpooled b \<notin> set ev" and "\<And>b. e \<noteq> BatchSpooled b"
    by (metis list.set_intros(2), metis list.set_intros(1))
  with Cons.IH show ?case by (auto simp: spooled_def List.map_filter_def split: agent_event.splits)
qed (simp add: spooled_def List.map_filter_def)

definition carried :: "agent_state \<Rightarrow> TelemetrySample list" where
  "carried st = concat (map samples (spooled (events st))) @ buffer st"

text \<open>The samples that \<open>collect_sample\<close> returned, in order.\<close>

definition collected :: "tick_env list \<Rightarrow> TelemetrySample list" where
  "collected ts = List.map_filter (\<lambda>t. case collect_sample (tick_host t) of Inl e \<Rightarrow> None | Inr s \<Rightarrow> Some s) ts"

definition agent_inv :: "codec \<Rightarrow> AgentSettings \<Rightarrow> agent_state \<Rightarrow> bool" where
  "agent_inv c cfg st \<longleftrightarrow> spool_inv c (spool st) \<and> list_all wf_sample (buffer st) \<and>
     list_all finite_sample (buffer st) \<and> int (length (buffer st)) < batch_size cfg \<and>
     (\<forall>b \<in> set (spooled (events st)). wf_batch b \<and> int (length (samples b)) = batch_size cfg)"

definition identity_ok :: "AgentSettings \<Rightarrow> bool" where
  "identity_ok cfg \<longleftrightarrow> agent_id_ok (set_agent_id cfg) \<and> str_len 1 255 (set_hostname cfg)"

lemma spool_full_batch_ok:
  assumes "wf_agent_settings cfg" and "identity_ok cfg" and "agent_inv c cfg st"
    and "wf_sample s" and "finite_sample s"
  shows "\<exists>st'. spool_full_batch c cfg t (st\<lparr>buffer := buffer st @ [s]\<rparr>) = Some (None, st') \<and>
    agent_inv c cfg st' \<and> carried st' = carried st @ [s]"
proof (cases "batch_size cfg \<le> int (length (buffer st)) + 1")
  case False
  then show ?thesis
    using assms by (auto simp: spool_full_batch_def agent_inv_def carried_def)
next
  case True
  let ?ss = "buffer st @ [s]"
  let ?b = "\<lparr>schema_version = 1, batch_id = tick_uuid t, agent_id = set_agent_id cfg,
             hostname = set_hostname cfg, samples = ?ss\<rparr>"
  have n: "int (length ?ss) = batch_size cfg" using True assms(3) by (simp add: agent_inv_def)
  then have nb: "new_batch (tick_uuid t) (set_agent_id cfg) (set_hostname cfg) ?ss = Inr ?b"
    using assms(1,2) by (simp add: new_batch_def identity_ok_def wf_agent_settings_def)
  have wf: "wf_batch ?b" using nb assms(3,4) by (intro new_batch_wf[OF _ nb]) (simp add: agent_inv_def)
  have fin: "finite_batch ?b" using assms(3,5) by (simp add: finite_batch_def agent_inv_def)
  obtain sp d where e: "enqueue c (tick_enqueue_time t) ?b (spool st) = Some (sp, d)" "spool_inv c sp"
    using enqueue_total[OF _ wf fin, of c "spool st" "tick_enqueue_time t"] assms(3) by (auto simp: agent_inv_def)
  have "spooled [SpoolOverflow d] = []" by (rule spooled_none) simp
  moreover have "spooled [BatchSpooled ?b] = [?b]" by (simp add: spooled_def List.map_filter_def)
  ultimately have sp: "spooled (BatchSpooled ?b # (if d = 0 then [] else [SpoolOverflow d])) = [?b]"
    using spooled_append[of "[BatchSpooled ?b]" "[SpoolOverflow d]"] by simp
  show ?thesis
    using True n nb e wf assms(1,3) sp
    by (auto simp: spool_full_batch_def agent_inv_def carried_def wf_agent_settings_def)
qed

lemma collected_Nil [simp]: "collected [] = []"
  by (simp add: collected_def List.map_filter_def)

lemma collected_Cons: "collect_sample (tick_host t) = Inr s \<Longrightarrow> collected (t # ts) = s # collected ts"
  by (simp add: collected_def List.map_filter_def)

lemma agent_tick_ok:
  assumes "codec_ok c" and "wf_agent_settings cfg" and "identity_ok cfg" and "agent_inv c cfg st"
    and "collect_sample (tick_host t) = Inr s" and "finite_sample s"
  shows "\<exists>err st'. agent_tick c cfg token t st = Some (err, st') \<and> agent_inv c cfg st' \<and>
    carried st' = carried st @ [s] \<and> err \<in> {None, Some OverflowError}"
proof -
  obtain st1 where 1: "spool_full_batch c cfg t (st\<lparr>buffer := buffer st @ [s]\<rparr>) = Some (None, st1)"
    "agent_inv c cfg st1" "carried st1 = carried st @ [s]"
    using spool_full_batch_ok[OF assms(2-4) collect_sample_wf[OF assms(5)] assms(6)] by blast
  obtain err st2 where 2: "deliver_pending c cfg token t st1 = (err, st2)" by fastforce
  have inv: "spool_inv c (spool st1)" using 1(2) by (simp add: agent_inv_def)
  obtain ev where d: "spool_inv c (spool st2)" "buffer st2 = buffer st1" "err \<in> {None, Some OverflowError}"
    "events st2 = events st1 @ ev" "spooled ev = []"
    using deliver_pending_inv[OF assms(1) inv 2] spooled_none by blast
  have "agent_inv c cfg st2" "carried st2 = carried st1"
    using 1(2) d by (simp_all add: agent_inv_def carried_def)
  then show ?thesis using 1 2 d(3) assms(5) by (simp add: agent_tick_def)
qed

lemma agent_loop_ok:
  assumes "codec_ok c" and "wf_agent_settings cfg" and "identity_ok cfg" and "agent_inv c cfg st"
    and "\<forall>t \<in> set ts. \<forall>s. collect_sample (tick_host t) = Inr s \<longrightarrow> finite_sample s"
  shows "\<exists>err st' k. agent_loop c cfg token ts st = Some (err, st') \<and> agent_inv c cfg st' \<and>
    k \<le> length ts \<and> carried st' = carried st @ collected (take k ts) \<and>
    (err = None \<longrightarrow> k = length ts) \<and> err \<in> {None, Some OverflowError, Some ValidationError}"
  using assms(4,5)
proof (induction ts arbitrary: st)
  case Nil
  then show ?case by auto
next
  case (Cons t ts)
  show ?case
  proof (cases "collect_sample (tick_host t)")
    case (Inl e)
    then have "e = ValidationError"
      by (auto simp: collect_sample_def network_telemetry_def checked_def Let_def res_bind_def
          split: prod.splits if_splits sum.splits)
    with Inl show ?thesis
      using Cons.prems by (intro exI[of _ "Some ValidationError"] exI[of _ st] exI[of _ 0]) (simp add: agent_tick_def)
  next
    case (Inr s)
    obtain err st1 where 1: "agent_tick c cfg token t st = Some (err, st1)" "agent_inv c cfg st1"
      "carried st1 = carried st @ [s]" "err \<in> {None, Some OverflowError}"
      using agent_tick_ok[OF assms(1-3) Cons.prems(1) Inr] Cons.prems(2) Inr by fastforce
    show ?thesis
    proof (cases err)
      case None
      obtain err' st' k where 2: "agent_loop c cfg token ts st1 = Some (err', st')" "agent_inv c cfg st'"
        "k \<le> length ts" "carried st' = carried st1 @ collected (take k ts)"
        "err' = None \<longrightarrow> k = length ts" "err' \<in> {None, Some OverflowError, Some ValidationError}"
        using Cons.IH[OF 1(2)] Cons.prems(2) by auto
      then show ?thesis using None 1 collected_Cons[OF Inr, of "take k ts"]
        by (intro exI[of _ err'] exI[of _ st'] exI[of _ "Suc k"]) simp
    next
      case (Some e)
      then show ?thesis using 1 collected_Cons[OF Inr, of "[]"]
        by (intro exI[of _ err] exI[of _ st1] exI[of _ "1"]) auto
    qed
  qed
qed

section \<open>Properties\<close>

lemma agent_inv_start:
  assumes "wf_agent_settings cfg" and "spool_inv c (open_spool stored (max_spool_batches cfg) (max_spool_bytes cfg))"
  shows "agent_inv c cfg
    \<lparr>buffer = [], spool = open_spool stored (max_spool_batches cfg) (max_spool_bytes cfg), events = []\<rparr>"
  using assms by (simp add: agent_inv_def spooled_def List.map_filter_def wf_agent_settings_def)

lemma carried_start [simp]: "carried \<lparr>buffer = [], spool = sp, events = []\<rparr> = []"
  by (simp add: carried_def spooled_def List.map_filter_def)

lemma final_flush_ok:
  assumes "wf_agent_settings cfg" and "identity_ok cfg" and "agent_inv c cfg st"
  shows "\<exists>st'. final_flush c cfg u now (err, st) = Some (err, st') \<and> spool_inv c (spool st') \<and>
    events st' = events st \<and> buffer st' = buffer st \<and>
    (buffer st \<noteq> [] \<longrightarrow> (\<exists>b n. samples b = buffer st \<and> batch_id b = u \<and> wf_batch b \<and>
       enqueue c now b (spool st) = Some (spool st', n)))"
proof (cases "buffer st = []")
  case True
  then show ?thesis using assms(3) by (simp add: final_flush_def agent_inv_def)
next
  case False
  let ?b = "\<lparr>schema_version = 1, batch_id = u, agent_id = set_agent_id cfg,
             hostname = set_hostname cfg, samples = buffer st\<rparr>"
  have "int (length (buffer st)) < 100" using assms(1,3) by (simp add: agent_inv_def wf_agent_settings_def)
  moreover have "0 < length (buffer st)" using False by simp
  ultimately have nb: "new_batch u (set_agent_id cfg) (set_hostname cfg) (buffer st) = Inr ?b"
    using assms(2) by (auto simp: new_batch_def identity_ok_def Suc_le_eq)
  have wf: "wf_batch ?b" using assms(3) by (intro new_batch_wf[OF _ nb]) (simp add: agent_inv_def)
  have fin: "finite_batch ?b" using assms(3) by (simp add: finite_batch_def agent_inv_def)
  obtain sp d where e: "enqueue c now ?b (spool st) = Some (sp, d)" "spool_inv c sp"
    using enqueue_total[OF _ wf fin, of c "spool st" now] assms(3) by (auto simp: agent_inv_def)
  show ?thesis
    using False nb e wf
    by (intro exI[of _ "st\<lparr>spool := sp\<rparr>"] conjI impI exI[of _ ?b] exI[of _ d]) (simp_all add: final_flush_def)
qed


definition example_host :: "int \<Rightarrow> host_facts" where
  "example_host t =
     \<lparr>virtual_memory = \<lparr>mem_total_bytes = 100, mem_available_bytes = 40, mem_used_bytes = 60,
        mem_used_percent = Fin 60\<rparr>,
      disk_usage = (100, 50, 50, Fin 50),
      process_iter = [ProcessInfo 7 (Some ''a'') (Some (Fin 3)) None, ProcessGone, ProcessInfo 0 None None None,
                      ProcessInfo 8 None (Some (Fin 5)) (Some (Fin 200))],
      getloadavg = (Fin 1, Fin 2, Fin 3), clock_now = t, cpu_percent_now = Fin 12,
      net_io_counters = \<lparr>io_bytes_sent = 1, io_bytes_recv = 2, io_packets_sent = 3, io_packets_recv = 4,
        io_errin = 0, io_errout = 0, io_dropin = 0, io_dropout = 0\<rparr>,
      net_connections = Some [(SOCK_STREAM, CONN_LISTEN), (SOCK_DGRAM, CONN_OTHER)]\<rparr>"

definition example_tick :: "int \<Rightarrow> tick_env" where
  "example_tick t =
     \<lparr>tick_host = example_host t, tick_uuid = word_of_int t, tick_enqueue_time = of_int t,
      tick_ready_time = of_int t, tick_post = (\<lambda>r. Inl (ServiceError ''ConnectError'')),
      tick_uniform = (\<lambda>a b. b), tick_failed_time = of_int t\<rparr>"

lemma host_ok_example: "host_ok (example_host t)"
  by (simp add: host_ok_def example_host_def wf_memory_def non_negative_int_def percentage_def)

lemma example_top: "top_processes_of 10 (process_iter (example_host t)) =
  (4, [\<lparr>proc_pid = 8, proc_name = ''unknown'', proc_cpu_percent = Fin 5, proc_memory_percent = Fin 100\<rparr>,
       \<lparr>proc_pid = 7, proc_name = ''a'', proc_cpu_percent = Fin 3, proc_memory_percent = Fin 0\<rparr>])"
  by (simp add: top_processes_of_def example_host_def List.map_filter_def read_process_def
      name_or_unknown_def float_or_zero_def fmax_def fmin_def wf_process_def str_len_def percentage_def
      non_negative_float_def sort_reverse_def process_key_def less_pyfloat_def less_eq_pyfloat_def)

lemma finite_example_tick:
  "\<forall>t \<in> set (map example_tick is). \<forall>s. collect_sample (tick_host t) = Inr s \<longrightarrow> finite_sample s"
  using collect_sample_readings[of "example_host _"]
  by (auto simp: example_tick_def example_top finite_sample_def is_finite_def)
     (simp_all add: example_host_def fmax_def)


text \<open>
  One pass's delivery step on a valid spool. If a batch is due, it is the oldest due one;
  when the request succeeds exactly that batch leaves the spool; when it fails for any reason, and the
  batch has had fewer than 1024 attempts, no batch leaves the spool, its attempt count goes up by one
  and its next attempt is between the failure time and the cap after it. Nothing else is changed.
\<close>

theorem deliver_pending_outcomes:
  assumes "codec_ok c" and "wf_agent_settings cfg" and "spool_inv c (spool st)"
    and "\<And>b. 0 \<le> b \<Longrightarrow> 0 \<le> tick_uniform t 0 b \<and> tick_uniform t 0 b \<le> b"
    and "next_ready c (tick_ready_time t) (spool st) = Inr (Some p)" and "pending_attempts p < 1024"
    and "deliver_pending c cfg token t st = (err, st')"
  shows "err = None \<and> buffer st' = buffer st \<and>
    (case send c token (tick_post t) (pending_batch p) of
       Inr r \<Rightarrow> spool_ids (spool st') = spool_ids (spool st) - {batch_id (pending_batch p)}
     | Inl e \<Rightarrow> \<exists>d. 0 \<le> d \<and> d \<le> retry_cap_seconds cfg \<and> spool_ids (spool st') = spool_ids (spool st) \<and>
         rows (spool st') = map (\<lambda>r. if row_batch_id r = uuid_str (batch_id (pending_batch p))
           then r\<lparr>row_attempts := row_attempts r + 1, row_next_attempt_at := tick_failed_time t + d,
                  row_last_error := Some (take 1000 (error_name e))\<rparr> else r) (rows (spool st)))"
proof (cases "send c token (tick_post t) (pending_batch p)")
  case (Inr r)
  with assms(5,7) show ?thesis by (auto simp: deliver_pending_def Let_def mark_sent_ids)
next
  case (Inl e)
  let ?n = "nat (max 0 (pending_attempts p))"
  let ?u = "tick_uniform t 0 (min (retry_cap_seconds cfg) (retry_base_seconds cfg * 2 ^ ?n))"
  have d: "full_jitter_delay (pending_attempts p) (retry_base_seconds cfg) (retry_cap_seconds cfg)
      (tick_uniform t) = Inr ?u"
    using assms(6) by (simp add: full_jitter_delay_def Let_def)
  have "0 < retry_base_seconds cfg" "0 < retry_cap_seconds cfg"
    using assms(2) by (simp_all add: wf_agent_settings_def)
  then have "0 \<le> ?u \<and> ?u \<le> retry_cap_seconds cfg"
    using full_jitter_delay_range[OF _ _ assms(4) d] by blast
  moreover have "err = None" "buffer st' = buffer st"
    "spool st' = mark_failed (batch_id (pending_batch p)) (error_name e) (tick_failed_time t + ?u) (spool st)"
    using assms(5,7) Inl d by (auto simp: deliver_pending_def Let_def)
  moreover have "rows (mark_failed bid m at_time sp) = map (\<lambda>r. if row_batch_id r = uuid_str bid
      then r\<lparr>row_attempts := row_attempts r + 1, row_next_attempt_at := at_time,
             row_last_error := Some (take 1000 m)\<rparr> else r) (rows sp)" for bid m at_time sp
    by (simp add: mark_failed_def row_update_def)
  ultimately show ?thesis
    using Inl mark_failed_spool_ids by auto
qed

definition example_state :: agent_state where
  "example_state = \<lparr>buffer = [], spool = open_spool [new_row example_codec 5 (example_batch 1 0 10)] 10 100000,
     events = []\<rparr>"

lemma example_state_inv: "spool_inv example_codec (spool example_state)"
  using row_ok_new[OF wf_example_batch finite_example_batch]
  by (simp add: example_state_def spool_inv_def open_spool_def)

lemma example_state_next:
  "next_ready example_codec 7 (spool example_state) =
     Inr (Some \<lparr>pending_batch = example_batch 1 0 10, pending_attempts = 0\<rparr>)"
proof -
  have "model_validate_json example_codec (model_dump_json example_codec (example_batch 1 0 10)) =
      Inr (example_batch 1 0 10)"
    by (rule model_json_roundtrip [OF example_codec_ok wf_example_batch finite_example_batch]) simp_all
  then show ?thesis
    by (simp add: example_state_def open_spool_def next_ready_def new_row_def oldest_def)
qed

theorem deliver_pending_outcomes_witness:
  "\<exists>err st'. deliver_pending example_codec (default_settings ''node'') ''t'' (example_tick 7) example_state =
     (err, st') \<and> err = None \<and> spool_ids (spool st') = {1}"
proof -
  obtain err st' where d: "deliver_pending example_codec (default_settings ''node'') ''t'' (example_tick 7)
      example_state = (err, st')"
    by fastforce
  have "wf_agent_settings (default_settings ''node'')"
    by (simp add: wf_agent_settings_def default_settings_def)
  note f = deliver_pending_outcomes[OF example_codec_ok this example_state_inv _ _ _ d,
      of "\<lparr>pending_batch = example_batch 1 0 10, pending_attempts = 0\<rparr>"]
  have s: "send example_codec ''t'' (tick_post (example_tick 7)) (example_batch 1 0 10) =
      Inl (ServiceError ''ConnectError'')"
    by (simp add: send_def example_tick_def)
  have "spool_ids (spool example_state) = {1}"
    by (auto simp: example_state_def open_spool_def spool_ids_def new_row_def example_batch_def)
  then show ?thesis
    using f d example_state_next s by (auto simp: example_tick_def)
qed

text \<open>
  The retry delay is at least zero and at most both the cap and the exponential step, for
  every attempt count below 1024; from 1024 attempts on, computing it raises \<open>OverflowError\<close>
  instead of returning the cap.
\<close>

theorem full_jitter_delay_bounds:
  assumes "0 < base" and "0 < cap" and "\<And>b. 0 \<le> b \<Longrightarrow> 0 \<le> uniform 0 b \<and> uniform 0 b \<le> b"
  shows "(if attempt < 1024
          then \<exists>d. full_jitter_delay attempt base cap uniform = Inr d \<and> 0 \<le> d \<and> d \<le> cap \<and>
                 d \<le> base * 2 ^ nat attempt
          else full_jitter_delay attempt base cap uniform = Inl OverflowError)"
proof -
  have "nat (max 0 attempt) = nat attempt" and "1024 \<le> nat attempt \<longleftrightarrow> \<not> attempt < 1024" by auto
  moreover have "0 \<le> min cap (base * 2 ^ nat attempt)" using assms(1,2) by simp
  ultimately show ?thesis
    using assms(3)[of "min cap (base * 2 ^ nat attempt)"] by (auto simp: full_jitter_delay_def Let_def)
qed

theorem full_jitter_delay_bounds_witness:
  "(\<exists>d. full_jitter_delay 8 1 60 (\<lambda>a b. b) = Inr d \<and> 0 \<le> d \<and> d \<le> 60) \<and>
   full_jitter_delay 1024 1 60 (\<lambda>a b. b) = Inl OverflowError"
  using full_jitter_delay_bounds[of 1 60 "\<lambda>a b. b" 8] full_jitter_delay_bounds[of 1 60 "\<lambda>a b. b" 1024] by auto

text \<open>
  A batch that has failed 1024 times takes the agent down: its next failed delivery raises out
  of the handler and leaves the stored row as it was, so the restarted agent meets it again.
\<close>

theorem delivery_overflow_stops_agent:
  assumes "next_ready c (tick_ready_time t) (spool st) = Inr (Some p)" and "1024 \<le> pending_attempts p"
    and "send c token (tick_post t) (pending_batch p) = Inl e"
  shows "deliver_pending c cfg token t st = (Some OverflowError, st)"
  using assms by (simp add: deliver_pending_def full_jitter_delay_def Let_def)

theorem delivery_overflow_stops_agent_witness:
  "deliver_pending example_codec (default_settings ''node'') ''t'' (example_tick 7)
     (example_state\<lparr>spool := open_spool [(new_row example_codec 5 (example_batch 1 0 10))\<lparr>row_attempts := 1024\<rparr>] 10 100000\<rparr>) =
   (Some OverflowError, example_state\<lparr>spool := open_spool [(new_row example_codec 5 (example_batch 1 0 10))\<lparr>row_attempts := 1024\<rparr>] 10 100000\<rparr>)"
proof (rule delivery_overflow_stops_agent [where p = "\<lparr>pending_batch = example_batch 1 0 10, pending_attempts = 1024\<rparr>"
      and e = "ServiceError ''ConnectError''"])
  have "model_validate_json example_codec (model_dump_json example_codec (example_batch 1 0 10)) =
      Inr (example_batch 1 0 10)"
    by (rule model_json_roundtrip [OF example_codec_ok wf_example_batch finite_example_batch]) simp_all
  then show "next_ready example_codec (tick_ready_time (example_tick 7))
     (spool (example_state\<lparr>spool := open_spool [(new_row example_codec 5 (example_batch 1 0 10))\<lparr>row_attempts := 1024\<rparr>] 10 100000\<rparr>)) =
     Inr (Some \<lparr>pending_batch = example_batch 1 0 10, pending_attempts = 1024\<rparr>)"
    by (simp add: open_spool_def next_ready_def new_row_def oldest_def example_tick_def)
qed (simp_all add: send_def example_tick_def)

text \<open>
  The reported processes are the top ones: at most the limit of them, in descending
  order of CPU and then memory share, each of them at least as high as every readable process left
  out, with equal ones in the order psutil gave them, and the count is of all processes, readable
  or not.
\<close>

theorem top_processes_are_the_top:
  assumes "top_processes_of limit views = (n, ps)"
  shows "n = int (length views) \<and> length ps = min limit (length (List.map_filter read_process views)) \<and>
    sorted_wrt (\<lambda>x y. process_key y \<le> process_key x) ps \<and>
    (\<exists>rest. mset (ps @ rest) = mset (List.map_filter read_process views) \<and>
       (\<forall>k. filter (\<lambda>p. process_key p = k) (ps @ rest) =
            filter (\<lambda>p. process_key p = k) (List.map_filter read_process views)) \<and>
       (\<forall>p \<in> set ps. \<forall>r \<in> set rest. process_key r \<le> process_key p))"
proof -
  let ?all = "sort_reverse process_key (List.map_filter read_process views)"
  let ?rest = "drop limit ?all"
  have ps: "ps = take limit ?all" and n: "n = int (length views)"
    using assms by (auto simp: top_processes_of_def)
  have all: "ps @ ?rest = ?all" by (simp add: ps)
  have "sorted_wrt (\<lambda>x y. process_key y \<le> process_key x) (ps @ ?rest)"
    unfolding all by (rule sorted_sort_reverse)
  then have sorted: "sorted_wrt (\<lambda>x y. process_key y \<le> process_key x) ps"
    "\<forall>p \<in> set ps. \<forall>r \<in> set ?rest. process_key r \<le> process_key p"
    by (auto simp: sorted_wrt_append)
  have "length ?all = length (List.map_filter read_process views)"
    by (metis mset_sort_reverse size_mset)
  then have "length ps = min limit (length (List.map_filter read_process views))" by (simp add: ps)
  with sorted n show ?thesis
    by (intro conjI exI[of _ ?rest]) (simp_all only: all mset_sort_reverse filter_sort_reverse, auto)
qed

theorem top_processes_are_the_top_witness:
  "\<exists>ps. top_processes_of 10 (process_iter (example_host 0)) = (4, ps) \<and>
     sorted_wrt (\<lambda>x y. process_key y \<le> process_key x) ps \<and> length ps = 2"
  using top_processes_are_the_top[OF example_top[of 0]] example_top[of 0] by simp

text \<open>
  A sample can be collected exactly when the readings the code passes through unclamped are
  in range; then the sample satisfies every constraint of its model. No process listing, load
  average or connection table can make collection fail.
\<close>

theorem collect_sample_total:
  "(\<exists>s. collect_sample h = Inr s \<and> wf_sample s) \<longleftrightarrow> host_ok h"
  using collect_sample_iff[of h] collect_sample_wf by blast

text \<open>
  The default agent id always consists of the allowed characters and has 1 to 128 of them, but
  it satisfies the schema's pattern only when the hostname is empty or starts with an ASCII letter
  or digit.
\<close>

theorem default_agent_id_schema:
  "list_all agent_id_char (default_agent_id h) \<and> str_len 1 128 (default_agent_id h) \<and>
   (agent_id_ok (default_agent_id h) \<longleftrightarrow> h = [] \<or> is_alnum_ascii (hd h))"
proof (cases h)
  case Nil
  then show ?thesis
    by (simp add: default_agent_id_def agent_id_ok_def agent_id_char_def is_alnum_ascii_def str_len_def)
next
  case (Cons ch rest)
  let ?f = "\<lambda>c. if agent_id_char c then c else CHR ''-''"
  have d: "default_agent_id h = ?f ch # take 127 (map ?f rest)"
    by (simp add: default_agent_id_def Cons)
  have ok: "agent_id_char (?f x)" for x by (simp add: agent_id_char_def)
  have "is_alnum_ascii (?f ch) \<longleftrightarrow> is_alnum_ascii ch"
    by (simp add: agent_id_char_def is_alnum_ascii_def)
  moreover have "list_all agent_id_char (take 127 (map ?f rest))"
    by (auto simp: list_all_iff agent_id_char_def dest!: in_set_takeD)
  ultimately show ?thesis
    using ok[of ch] by (simp only: d) (simp add: agent_id_ok_def str_len_def Cons)
qed

end
