(* ===== verification/Redaction.thy ===== *)
theory Redaction
  imports Telemetry
begin

text \<open>
  Secret redaction, \<open>src/fleetpulse/assistant/redaction.py\<close>: the part of Python's regular
  expressions the five patterns use, as a backtracking matcher that lists the ways to match in the
  order the engine tries them, \<open>Pattern.subn\<close>, and \<open>SecretRedactor.redact\<close>.

  Repetition is over one character class, as in the patterns. The lemmas show that redaction only
  rewrites matched stretches, what it keeps of each and that no private key block is left.
\<close>

section \<open>Character classes\<close>

text \<open>Python's \<open>\w\<close> on the modelled code points.\<close>

definition is_word :: "char \<Rightarrow> bool" where
  "is_word c \<longleftrightarrow> is_alnum_ascii c \<or> c = CHR ''_'' \<or>
     ord c \<in> {170, 178, 179, 181, 185, 186, 188, 189, 190} \<or>
     (192 \<le> ord c \<and> ord c \<noteq> 215 \<and> ord c \<noteq> 247)"

definition value_char :: "char \<Rightarrow> bool" where
  "value_char c \<longleftrightarrow> \<not> is_space c \<and> c \<noteq> CHR '','' \<and> c \<noteq> CHR '';''"

definition token_char :: "char \<Rightarrow> bool" where
  "token_char c \<longleftrightarrow> is_alnum_ascii c \<or> c \<in> set ''._~+/=-''"

definition user_char :: "char \<Rightarrow> bool" where
  "user_char c \<longleftrightarrow> c \<noteq> CHR '':'' \<and> \<not> is_space c \<and> c \<noteq> CHR ''/'' \<and> c \<noteq> CHR ''@''"

definition pass_char :: "char \<Rightarrow> bool" where
  "pass_char c \<longleftrightarrow> c \<noteq> CHR ''@'' \<and> \<not> is_space c \<and> c \<noteq> CHR ''/''"

definition upper_or_space :: "char \<Rightarrow> bool" where
  "upper_or_space c \<longleftrightarrow> (65 \<le> ord c \<and> ord c \<le> 90) \<or> c = CHR '' ''"

section \<open>Regular expressions\<close>

text \<open>
  \<open>Rep greedy n p\<close> is \<open>p{n,}\<close>, lazy when \<open>greedy\<close> is false (\<open>+\<close> is \<open>n = 1\<close> and \<open>*\<close> is
  \<open>n = 0\<close>); \<open>Opt\<close> is \<open>?\<close>; \<open>Boundary\<close> is \<open>\b\<close>; \<open>Group i\<close> captures.
\<close>

datatype regex =
    Eps
  | Cls "char \<Rightarrow> bool"
  | Rep bool nat "char \<Rightarrow> bool"
  | Seq regex regex
  | Alt regex regex
  | Opt regex
  | Boundary
  | Group nat regex

text \<open>A point of the scan: the character before it, the text from it on, the groups captured.\<close>

record scan =
  m_prev :: "char option"
  m_rest :: string
  m_groups :: "(nat \<times> string) list"

definition advance :: "nat \<Rightarrow> scan \<Rightarrow> scan" where
  "advance n st = st\<lparr>m_prev := (if n = 0 then m_prev st else Some (m_rest st ! (n - 1))),
                     m_rest := drop n (m_rest st)\<rparr>"

definition word_at :: "char option \<Rightarrow> bool" where
  "word_at x = (case x of None \<Rightarrow> False | Some c \<Rightarrow> is_word c)"

definition first_char :: "string \<Rightarrow> char option" where
  "first_char s = (case s of [] \<Rightarrow> None | c # _ \<Rightarrow> Some c)"

text \<open>The matches from a point, in the order the backtracking engine finds them.\<close>

primrec matches :: "regex \<Rightarrow> scan \<Rightarrow> scan list" where
  "matches Eps st = [st]"
| "matches (Cls p) st =
     (case m_rest st of [] \<Rightarrow> [] | c # _ \<Rightarrow> if p c then [advance 1 st] else [])"
| "matches (Rep greedy n p) st =
     (let counts = [n ..< Suc (length (takeWhile p (m_rest st)))]
      in map (\<lambda>k. advance k st) (if greedy then rev counts else counts))"
| "matches (Seq a b) st = concat (map (matches b) (matches a st))"
| "matches (Alt a b) st = matches a st @ matches b st"
| "matches (Opt a) st = matches a st @ [st]"
| "matches Boundary st =
     (if word_at (m_prev st) \<noteq> word_at (first_char (m_rest st)) then [st] else [])"
| "matches (Group i a) st =
     map (\<lambda>st'. st'\<lparr>m_groups := AList.update i
            (take (length (m_rest st) - length (m_rest st')) (m_rest st)) (m_groups st')\<rparr>)
       (matches a st)"

definition seqs :: "regex list \<Rightarrow> regex" where
  "seqs rs = foldr Seq rs Eps"

definition lit :: "string \<Rightarrow> regex" where
  "lit w = seqs (map (\<lambda>c. Cls (\<lambda>x. x = c)) w)"

text \<open>A literal under \<open>(?i)\<close>.\<close>

definition lit_ci :: "string \<Rightarrow> regex" where
  "lit_ci w = seqs (map (\<lambda>c. Cls (\<lambda>x. lower_char x = lower_char c)) w)"

subsection \<open>Substitution\<close>

datatype part = Ref nat | Txt string

definition expand :: "part list \<Rightarrow> (nat \<times> string) list \<Rightarrow> string" where
  "expand tmpl gs = concat (map (\<lambda>x. case x of
       Txt t \<Rightarrow> t
     | Ref i \<Rightarrow> (case map_of gs i of None \<Rightarrow> [] | Some g \<Rightarrow> g)) tmpl)"

text \<open>The match \<open>re\<close> takes at a point: the first one found.\<close>

definition match_at :: "regex \<Rightarrow> char option \<Rightarrow> string \<Rightarrow> scan option" where
  "match_at r p s =
     (case matches r \<lparr>m_prev = p, m_rest = s, m_groups = []\<rparr> of [] \<Rightarrow> None | st # _ \<Rightarrow> Some st)"

text \<open>
  \<open>Pattern.subn\<close>: left to right, each match replaced and the scan resumed behind it. None of the
  patterns matches the empty text (lemma \<open>pattern_consumes\<close>), so only a match that consumes
  something is a match here.
\<close>

function subn_from :: "regex \<Rightarrow> part list \<Rightarrow> char option \<Rightarrow> string \<Rightarrow> string \<times> nat" where
  "subn_from r tmpl p s =
     (case match_at r p s of
        Some st \<Rightarrow>
          if length (m_rest st) < length s then
            (let (out, n) = subn_from r tmpl (m_prev st) (m_rest st)
             in (expand tmpl (m_groups st) @ out, Suc n))
          else
            (case s of [] \<Rightarrow> ([], 0)
             | c # t \<Rightarrow> (let (out, n) = subn_from r tmpl (Some c) t in (c # out, n)))
      | None \<Rightarrow>
          (case s of [] \<Rightarrow> ([], 0)
           | c # t \<Rightarrow> (let (out, n) = subn_from r tmpl (Some c) t in (c # out, n))))"
  by pat_completeness auto
termination
  by (relation "measure (\<lambda>(r, tmpl, p, s). length s)") auto

declare subn_from.simps [simp del]

definition subn :: "regex \<Rightarrow> part list \<Rightarrow> string \<Rightarrow> string \<times> nat" where
  "subn r tmpl s = subn_from r tmpl None s"

section \<open>The redactor\<close>

definition REDACTED :: string where
  "REDACTED = ''[REDACTED]''"

record RedactionResult =
  rr_text :: string
  rr_count :: nat

definition bearer_header :: regex where
  "bearer_header = seqs
     [Group 1 (seqs [lit_ci ''authorization'', Rep True 0 is_space, lit_ci '':'', Rep True 0 is_space,
        lit_ci ''bearer'', Rep True 1 is_space]),
      Rep True 1 value_char]"

definition bearer_token :: regex where
  "bearer_token = seqs
     [Boundary, Group 1 (seqs [lit_ci ''bearer'', Rep True 1 is_space]), Rep True 8 token_char]"

definition secret_name :: regex where
  "secret_name =
     Alt (seqs [lit_ci ''api'', Opt (Cls (\<lambda>c. c = CHR ''_'' \<or> c = CHR ''-'')), lit_ci ''key''])
       (Alt (lit_ci ''token'') (Alt (lit_ci ''password'') (Alt (lit_ci ''passwd'') (lit_ci ''secret''))))"

definition secret_separator :: regex where
  "secret_separator =
     seqs [Rep True 0 is_space, Cls (\<lambda>c. c = CHR '':'' \<or> c = CHR ''=''), Rep True 0 is_space]"

definition named_secret :: regex where
  "named_secret = seqs
     [Boundary, Group 1 secret_name, Boundary, Group 2 secret_separator, Group 3 (Rep True 1 value_char)]"

definition postgres_url :: regex where
  "postgres_url = seqs
     [Group 1 (seqs [lit_ci ''postgres'', Opt (lit_ci ''ql''), lit_ci ''://'', Rep True 1 user_char, lit_ci '':'']),
      Rep True 1 pass_char, Group 2 (lit_ci ''@'')]"

definition private_key :: regex where
  "private_key = seqs
     [lit ''-----BEGIN '', Rep True 0 upper_or_space, lit ''PRIVATE KEY-----'',
      Rep False 0 (\<lambda>c. True),
      lit ''-----END '', Rep True 0 upper_or_space, lit ''PRIVATE KEY-----'']"

definition patterns :: "regex list" where
  "patterns = [bearer_header, bearer_token, named_secret, postgres_url, private_key]"

definition template_of :: "nat \<Rightarrow> part list" where
  "template_of index =
     (if index = 2 then [Ref 1, Ref 2, Txt REDACTED]
      else if index = 3 then [Ref 1, Txt REDACTED, Ref 2]
      else if index = 4 then [Txt REDACTED]
      else [Ref 1, Txt REDACTED])"

definition redact_stage :: "nat \<times> regex \<Rightarrow> string \<times> nat \<Rightarrow> string \<times> nat" where
  "redact_stage ip acc =
     (let (out, n) = subn (snd ip) (template_of (fst ip)) (fst acc) in (out, snd acc + n))"

definition redact :: "string \<Rightarrow> RedactionResult" where
  "redact value =
     (let (out, n) = fold redact_stage (List.enumerate 0 patterns) (value, 0)
      in \<lparr>rr_text = out, rr_count = n\<rparr>)"

section \<open>What a match consumes\<close>

lemma advance_sel [simp]:
  "m_rest (advance n st) = drop n (m_rest st)" "m_groups (advance n st) = m_groups st"
  by (simp_all add: advance_def)

text \<open>\<open>takes r st w st'\<close>: one of the matches from \<open>st\<close> consumes \<open>w\<close> and ends in \<open>st'\<close>.\<close>

definition takes :: "regex \<Rightarrow> scan \<Rightarrow> string \<Rightarrow> scan \<Rightarrow> bool" where
  "takes r st w st' \<longleftrightarrow> st' \<in> set (matches r st) \<and> m_rest st = w @ m_rest st'"

lemma takes_advance:
  "k \<le> length (m_rest st) \<Longrightarrow> m_rest st = w @ drop k (m_rest st) \<longleftrightarrow> w = take k (m_rest st)"
  by (metis append_same_eq append_take_drop_id)

lemma takes_Eps [simp]: "takes Eps st w st' \<longleftrightarrow> w = [] \<and> st' = st"
  by (auto simp: takes_def)

lemma takes_Boundary [simp]:
  "takes Boundary st w st' \<longleftrightarrow> w = [] \<and> st' = st \<and> word_at (m_prev st) \<noteq> word_at (first_char (m_rest st))"
  by (auto simp: takes_def)

lemma takes_Cls [simp]:
  "takes (Cls p) st w st' \<longleftrightarrow> (\<exists>c t. m_rest st = c # t \<and> p c \<and> w = [c] \<and> st' = advance 1 st)"
proof (cases "m_rest st")
  case Nil
  then show ?thesis by (simp add: takes_def)
next
  case (Cons c t)
  have "st' \<in> set (matches (Cls p) st) \<longleftrightarrow> p c \<and> st' = advance 1 st" using Cons by auto
  moreover have "m_rest st = w @ m_rest (advance 1 st) \<longleftrightarrow> w = [c]" using takes_advance[of 1 st w] Cons by simp
  ultimately have "takes (Cls p) st w st' \<longleftrightarrow> p c \<and> w = [c] \<and> st' = advance 1 st" unfolding takes_def by blast
  with Cons show ?thesis by simp
qed

lemma in_matches_Rep:
  "st' \<in> set (matches (Rep g n p) st) \<longleftrightarrow>
     (\<exists>k. n \<le> k \<and> k \<le> length (takeWhile p (m_rest st)) \<and> st' = advance k st)"
  by (cases g) (auto simp: Let_def less_Suc_eq_le)

lemma take_takeWhile:
  "k \<le> length (takeWhile p s) \<Longrightarrow> length (take k s) = k \<and> list_all p (take k s)"
proof (induction s arbitrary: k)
  case (Cons c s)
  then show ?case by (cases k) (auto split: if_splits)
qed simp

lemma takes_Rep:
  "takes (Rep g n p) st w st' \<longleftrightarrow>
     n \<le> length w \<and> list_all p w \<and> (\<exists>t. m_rest st = w @ t) \<and> st' = advance (length w) st"
proof
  assume a: "takes (Rep g n p) st w st'"
  then have "st' \<in> set (matches (Rep g n p) st)" and m: "m_rest st = w @ m_rest st'" by (simp_all only: takes_def)
  then obtain k where k: "n \<le> k" "k \<le> length (takeWhile p (m_rest st))" "st' = advance k st"
    using in_matches_Rep by blast
  note l = take_takeWhile[OF k(2)]
  have "k \<le> length (m_rest st)" using k(2) length_takeWhile_le order_trans by blast
  moreover have "m_rest st' = drop k (m_rest st)" using k(3) by simp
  ultimately have w: "w = take k (m_rest st)" using takes_advance[of k st w] m by argo
  then have t: "\<exists>t. m_rest st = w @ t" using append_take_drop_id[of k "m_rest st"] by metis
  from w l have "length w = k" "list_all p w" by argo+
  with t k(1,3) show "n \<le> length w \<and> list_all p w \<and> (\<exists>t. m_rest st = w @ t) \<and> st' = advance (length w) st"
    by simp
next
  assume a: "n \<le> length w \<and> list_all p w \<and> (\<exists>t. m_rest st = w @ t) \<and> st' = advance (length w) st"
  then have "length w \<le> length (takeWhile p (m_rest st))" by (auto simp: takeWhile_append list_all_iff)
  with a show "takes (Rep g n p) st w st'" by (auto simp: takes_def in_matches_Rep simp del: matches.simps)
qed

lemma matches_suffix: "st' \<in> set (matches r st) \<Longrightarrow> \<exists>w. takes r st w st'"
proof (induction r arbitrary: st st')
  case (Rep g n p)
  then obtain k where "st' = advance k st" by (auto simp: in_matches_Rep simp del: matches.simps)
  with Rep show ?case by (auto simp: takes_def simp del: matches.simps intro: exI[of _ "take k (m_rest st)"])
next
  case (Seq a b)
  then obtain st1 where "st1 \<in> set (matches a st)" "st' \<in> set (matches b st1)" by auto
  with Seq.IH(1)[of st1 st] Seq.IH(2)[of st' st1] Seq.prems show ?case by (auto simp: takes_def)
next
  case (Alt a b)
  then show ?case by (fastforce simp: takes_def)
next
  case (Opt a)
  then show ?case by (fastforce simp: takes_def)
next
  case (Cls p)
  then show ?case by (cases "m_rest st") (auto simp: takes_def split: if_splits)
next
  case (Group i a)
  then show ?case by (fastforce simp: takes_def)
qed (auto simp: takes_def split: if_splits)

lemma takes_Seq:
  "takes (Seq a b) st w st' \<longleftrightarrow> (\<exists>u v st1. w = u @ v \<and> takes a st u st1 \<and> takes b st1 v st')"
proof
  assume a: "takes (Seq a b) st w st'"
  then obtain st1 where 1: "st1 \<in> set (matches a st)" "st' \<in> set (matches b st1)" by (auto simp: takes_def)
  from matches_suffix[OF 1(1)] matches_suffix[OF 1(2)] obtain u v where "takes a st u st1" "takes b st1 v st'" by blast
  moreover from this a have "w = u @ v" by (simp add: takes_def)
  ultimately show "\<exists>u v st1. w = u @ v \<and> takes a st u st1 \<and> takes b st1 v st'" by blast
qed (auto simp: takes_def)

lemma takes_Alt: "takes (Alt a b) st w st' \<longleftrightarrow> takes a st w st' \<or> takes b st w st'"
  by (auto simp: takes_def)

lemma takes_Opt: "takes (Opt a) st w st' \<longleftrightarrow> takes a st w st' \<or> (w = [] \<and> st' = st)"
  by (auto simp: takes_def)

lemma takes_Group:
  "takes (Group i a) st w st' \<longleftrightarrow>
     (\<exists>st1. takes a st w st1 \<and> st' = st1\<lparr>m_groups := AList.update i w (m_groups st1)\<rparr>)"
proof
  assume a: "takes (Group i a) st w st'"
  then obtain st1 where "st1 \<in> set (matches a st)"
    and "st' = st1\<lparr>m_groups := AList.update i (take (length (m_rest st) - length (m_rest st1)) (m_rest st)) (m_groups st1)\<rparr>"
    by (auto simp: takes_def)
  with a show "\<exists>st1. takes a st w st1 \<and> st' = st1\<lparr>m_groups := AList.update i w (m_groups st1)\<rparr>"
    by (auto simp: takes_def)
next
  assume "\<exists>st1. takes a st w st1 \<and> st' = st1\<lparr>m_groups := AList.update i w (m_groups st1)\<rparr>"
  then obtain st1 where "takes a st w st1" "st' = st1\<lparr>m_groups := AList.update i w (m_groups st1)\<rparr>" by blast
  then show "takes (Group i a) st w st'" by (auto simp: takes_def intro!: image_eqI[of _ _ st1])
qed

lemmas takes_simps = takes_Rep takes_Seq takes_Alt takes_Opt takes_Group

lemma seqs_simps [simp]: "seqs [] = Eps" "seqs (r # rs) = Seq r (seqs rs)"
  by (simp_all add: seqs_def)

lemma takes_lit: "takes (lit w) st u st' \<longleftrightarrow> u = w \<and> (\<exists>t. m_rest st = w @ t) \<and> st' = advance (length w) st"
proof (induction w arbitrary: st u)
  case Nil
  then show ?case by (auto simp: lit_def advance_def)
next
  case (Cons c w)
  have adv: "m_rest st = c # t \<Longrightarrow> advance (length w) (advance 1 st) = advance (length (c # w)) st" for t
    by (cases w) (simp_all add: advance_def)
  have "takes (lit (c # w)) st u st' \<longleftrightarrow>
      (\<exists>v t. u = c # v \<and> m_rest st = c # t \<and> takes (lit w) (advance 1 st) v st')"
    by (auto simp: lit_def takes_Seq)
  then show ?case using Cons adv by auto
qed

text \<open>Groups are only written by \<open>Group\<close>; a match is at least as long as the pattern asks.\<close>

primrec group_free :: "regex \<Rightarrow> bool" where
  "group_free Eps = True"
| "group_free (Cls p) = True"
| "group_free (Rep g n p) = True"
| "group_free (Seq a b) = (group_free a \<and> group_free b)"
| "group_free (Alt a b) = (group_free a \<and> group_free b)"
| "group_free (Opt a) = group_free a"
| "group_free Boundary = True"
| "group_free (Group i a) = False"

primrec min_len :: "regex \<Rightarrow> nat" where
  "min_len Eps = 0"
| "min_len (Cls p) = 1"
| "min_len (Rep g n p) = n"
| "min_len (Seq a b) = min_len a + min_len b"
| "min_len (Alt a b) = min (min_len a) (min_len b)"
| "min_len (Opt a) = 0"
| "min_len Boundary = 0"
| "min_len (Group i a) = min_len a"

lemma group_free_groups: "takes r st w st' \<Longrightarrow> group_free r \<Longrightarrow> m_groups st' = m_groups st"
proof (induction r arbitrary: st w st')
  case (Seq a b)
  from Seq.prems(1) obtain u v st1 where "takes a st u st1" "takes b st1 v st'" by (auto simp: takes_Seq)
  with Seq show ?case by (metis group_free.simps(4))
qed (auto simp: takes_Rep takes_Alt takes_Opt)

lemma min_len_le: "takes r st w st' \<Longrightarrow> min_len r \<le> length w"
proof (induction r arbitrary: st w st')
  case (Seq a b)
  from Seq.prems obtain u v st1 where "w = u @ v" "takes a st u st1" "takes b st1 v st'" by (auto simp: takes_Seq)
  with Seq.IH show ?case by (simp add: add_mono)
next
  case (Alt a b)
  then show ?case by (auto simp: takes_Alt min.coboundedI1 min.coboundedI2)
qed (auto simp: takes_simps)

lemma group_free_seqs [simp]: "group_free (seqs rs) \<longleftrightarrow> list_all group_free rs"
  by (induction rs) auto

lemma group_free_lit [simp]: "group_free (lit_ci w)" "group_free (lit w)"
  by (simp_all add: lit_ci_def lit_def list_all_iff)

lemma min_len_seqs [simp]: "min_len (seqs rs) = sum_list (map min_len rs)"
  by (induction rs) auto

lemma min_len_lit [simp]: "min_len (lit_ci w) = length w" "min_len (lit w) = length w"
  by (simp_all add: lit_ci_def lit_def o_def sum_list_triv)

lemma match_at_Some: "match_at r p s = Some st \<Longrightarrow> \<exists>w. takes r \<lparr>m_prev = p, m_rest = s, m_groups = []\<rparr> w st"
  using matches_suffix by (fastforce simp: match_at_def split: list.splits)

lemma match_at_None: "match_at r p s = None \<longleftrightarrow> (\<nexists>w st. takes r \<lparr>m_prev = p, m_rest = s, m_groups = []\<rparr> w st)"
proof -
  let ?st = "\<lparr>m_prev = p, m_rest = s, m_groups = []\<rparr>"
  have "match_at r p s = None \<longleftrightarrow> matches r ?st = []" by (simp add: match_at_def split: list.split)
  also have "\<dots> \<longleftrightarrow> (\<nexists>st. st \<in> set (matches r ?st))" by (cases "matches r ?st") auto
  also have "\<dots> \<longleftrightarrow> (\<nexists>w st. takes r ?st w st)" using matches_suffix takes_def by blast
  finally show ?thesis .
qed

lemma pattern_consumes: "r \<in> set patterns \<Longrightarrow> 0 < min_len r"
  by (auto simp: patterns_def bearer_header_def bearer_token_def named_secret_def secret_name_def
      secret_separator_def postgres_url_def private_key_def)

section \<open>What a substitution rewrites\<close>

lemma scan_induct [consumes 1, case_names Empty Keep Hit]:
  assumes r: "0 < min_len r"
    and empty: "\<And>p. match_at r p [] = None \<Longrightarrow> P p []"
    and keep: "\<And>p c t. match_at r p (c # t) = None \<Longrightarrow> P (Some c) t \<Longrightarrow> P p (c # t)"
    and hit: "\<And>p w st. match_at r p (w @ m_rest st) = Some st \<Longrightarrow>
      takes r \<lparr>m_prev = p, m_rest = w @ m_rest st, m_groups = []\<rparr> w st \<Longrightarrow> w \<noteq> [] \<Longrightarrow>
      P (m_prev st) (m_rest st) \<Longrightarrow> P p (w @ m_rest st)"
  shows "P p s"
proof (induction "length s" arbitrary: p s rule: less_induct)
  case less
  show ?case
  proof (cases "match_at r p s")
    case None
    with less empty keep show ?thesis by (cases s) auto
  next
    case (Some st)
    from match_at_Some[OF this] obtain w where w: "takes r \<lparr>m_prev = p, m_rest = s, m_groups = []\<rparr> w st" by blast
    from min_len_le[OF w] r have "w \<noteq> []" by auto
    moreover from w have "s = w @ m_rest st" by (simp add: takes_def)
    ultimately show ?thesis using less[of "m_rest st" "m_prev st"] hit[of p w st] Some w by simp
  qed
qed

lemma subn_from_empty: "match_at r p [] = None \<Longrightarrow> subn_from r tmpl p [] = ([], 0)"
  by (simp add: subn_from.simps[of r tmpl p "[]"])

lemma subn_from_keep:
  "match_at r p (c # t) = None \<Longrightarrow>
   subn_from r tmpl p (c # t) = (c # fst (subn_from r tmpl (Some c) t), snd (subn_from r tmpl (Some c) t))"
  by (simp add: subn_from.simps[of r tmpl p "c # t"] split: prod.split)

lemma subn_from_hit:
  "match_at r p (w @ m_rest st) = Some st \<Longrightarrow> w \<noteq> [] \<Longrightarrow>
   subn_from r tmpl p (w @ m_rest st) =
     (expand tmpl (m_groups st) @ fst (subn_from r tmpl (m_prev st) (m_rest st)),
      Suc (snd (subn_from r tmpl (m_prev st) (m_rest st))))"
  by (simp add: subn_from.simps[of r tmpl p "w @ m_rest st"] split: prod.split)

lemmas subn_from_cases = subn_from_empty subn_from_keep subn_from_hit

text \<open>
  \<open>rewritten R s t n\<close>: \<open>t\<close> is \<open>s\<close> with \<open>n\<close> disjoint stretches replaced as the relation
  \<open>R\<close> allows and everything else kept in place.
\<close>

inductive rewritten :: "(string \<Rightarrow> string \<Rightarrow> bool) \<Rightarrow> string \<Rightarrow> string \<Rightarrow> nat \<Rightarrow> bool" for R where
  rewritten_end: "rewritten R [] [] 0"
| rewritten_keep: "rewritten R s t n \<Longrightarrow> rewritten R (c # s) (c # t) n"
| rewritten_hit: "R m m' \<Longrightarrow> rewritten R s t n \<Longrightarrow> rewritten R (m @ s) (m' @ t) (Suc n)"

inductive_cases rewritten_0E: "rewritten R s t 0"

lemma rewritten_none: "rewritten R s t n \<Longrightarrow> n = 0 \<Longrightarrow> s = t"
  by (induction rule: rewritten.induct) auto

lemma subn_rewritten:
  assumes "0 < min_len r"
    and R: "\<And>p s w st. takes r \<lparr>m_prev = p, m_rest = s, m_groups = []\<rparr> w st \<Longrightarrow> R w (expand tmpl (m_groups st))"
  shows "rewritten R s (fst (subn_from r tmpl p s)) (snd (subn_from r tmpl p s))"
  using assms(1)
proof (induction p s rule: scan_induct)
  case (Hit p w st)
  then show ?case by (simp add: subn_from_hit rewritten_hit R)
qed (simp_all add: subn_from_cases rewritten_end rewritten_keep)

text \<open>What each pattern may replace, and by what.\<close>

definition hides :: "nat \<Rightarrow> string \<Rightarrow> string \<Rightarrow> bool" where
  "hides index m m' \<longleftrightarrow>
     (if index = 0 then \<exists>g v. m = g @ v \<and> m' = g @ REDACTED \<and> v \<noteq> [] \<and> list_all value_char v
      else if index = 1 then \<exists>g v. m = g @ v \<and> m' = g @ REDACTED \<and> 8 \<le> length v \<and> list_all token_char v
      else if index = 2 then \<exists>g sep v. m = g @ sep @ v \<and> m' = g @ sep @ REDACTED \<and> v \<noteq> [] \<and> list_all value_char v
      else if index = 3 then \<exists>g v e. m = g @ v @ e \<and> m' = g @ REDACTED @ e \<and> v \<noteq> [] \<and> list_all pass_char v
      else m' = REDACTED)"

lemmas takes_head = takes_Seq[of "Group _ _"] takes_Seq[of "Rep _ _ _"] takes_Seq[of Boundary] takes_Group takes_Rep

lemmas hides_simps = hides_def template_of_def expand_def

lemma bearer_header_hides:
  "takes bearer_header \<lparr>m_prev = p, m_rest = s, m_groups = []\<rparr> w st \<Longrightarrow> hides 0 w (expand (template_of 0) (m_groups st))"
  by (auto simp: bearer_header_def takes_head hides_simps dest!: group_free_groups simp del: takes_Cls)

lemma bearer_token_hides:
  "takes bearer_token \<lparr>m_prev = p, m_rest = s, m_groups = []\<rparr> w st \<Longrightarrow> hides 1 w (expand (template_of 1) (m_groups st))"
  by (auto simp: bearer_token_def takes_head hides_simps dest!: group_free_groups simp del: takes_Cls)

lemma hidesI_2: "w = g @ sep @ v \<Longrightarrow> 1 \<le> length v \<Longrightarrow> list_all value_char v \<Longrightarrow> hides 2 w (g @ sep @ REDACTED)"
  unfolding hides_def by (simp, rule exI[of _ g], rule exI[of _ sep], rule exI[of _ v]) auto

lemma hidesI_3: "w = g @ v @ e \<Longrightarrow> 1 \<le> length v \<Longrightarrow> list_all pass_char v \<Longrightarrow> hides 3 w (g @ REDACTED @ e)"
  unfolding hides_def by (simp, rule exI[of _ g], rule exI[of _ v], rule exI[of _ e]) auto

lemma takes_GroupE:
  assumes "takes (Seq (Group i a) b) st w st'" and "group_free a"
  shows "\<exists>g v st1. w = g @ v \<and> m_groups st1 = AList.update i g (m_groups st) \<and> takes b st1 v st' \<and> (\<exists>st2. takes a st g st2)"
proof -
  from assms(1) obtain g v st1 where 1: "w = g @ v" "takes (Group i a) st g st1" "takes b st1 v st'"
    by (auto simp: takes_Seq)
  from 1(2) obtain st2 where 2: "takes a st g st2" "st1 = st2\<lparr>m_groups := AList.update i g (m_groups st2)\<rparr>"
    by (auto simp: takes_Group)
  with group_free_groups[OF 2(1) assms(2)] have "m_groups st1 = AList.update i g (m_groups st)" by simp
  with 1 2(1) show ?thesis by blast
qed

lemma takes_BoundaryD: "takes (Seq Boundary b) st w st' \<Longrightarrow> takes b st w st'"
  by (auto simp: takes_Seq)

lemma named_secret_hides:
  assumes "takes named_secret \<lparr>m_prev = p, m_rest = s, m_groups = []\<rparr> w st"
  shows "hides 2 w (expand (template_of 2) (m_groups st))"
proof -
  let ?v = "Seq (Group 3 (Rep True 1 value_char)) Eps"
  have free: "group_free secret_name" "group_free secret_separator"
    by (simp_all add: secret_name_def secret_separator_def)
  from assms have "takes (Seq (Group 1 secret_name) (Seq Boundary (Seq (Group 2 secret_separator) ?v)))
      \<lparr>m_prev = p, m_rest = s, m_groups = []\<rparr> w st"
    unfolding named_secret_def seqs_simps by (rule takes_BoundaryD)
  from takes_GroupE[OF this free(1)] obtain g w1 st1 where 1: "w = g @ w1" "m_groups st1 = AList.update 1 g []"
    "takes (Seq Boundary (Seq (Group 2 secret_separator) ?v)) st1 w1 st" by auto
  from takes_GroupE[OF takes_BoundaryD[OF 1(3)] free(2)] obtain sep w2 st2 where 2: "w1 = sep @ w2"
    "m_groups st2 = AList.update 2 sep (m_groups st1)" "takes ?v st2 w2 st" by auto
  from 2(3) have 3: "1 \<le> length w2" "list_all value_char w2" "m_groups st = AList.update 3 w2 (m_groups st2)"
    by (auto simp: takes_Seq takes_Group takes_Rep)
  have "expand (template_of 2) (m_groups st) = g @ sep @ REDACTED"
    using 1(2) 2(2) 3(3) by (simp add: template_of_def expand_def)
  with 1(1) 2(1) 3 show ?thesis using hidesI_2 by simp
qed

lemma postgres_url_hides:
  assumes "takes postgres_url \<lparr>m_prev = p, m_rest = s, m_groups = []\<rparr> w st"
  shows "hides 3 w (expand (template_of 3) (m_groups st))"
proof -
  from assms obtain g v e where w: "w = g @ v @ e" "1 \<le> length v" "list_all pass_char v"
    and "m_groups st = [(1, g), (2, e)]"
    by (auto simp: postgres_url_def takes_head dest!: group_free_groups simp del: takes_Cls)
  then have "expand (template_of 3) (m_groups st) = g @ REDACTED @ e" by (simp add: template_of_def expand_def)
  with w show ?thesis using hidesI_3 by simp
qed

lemma private_key_hides: "hides 4 w (expand (template_of 4) gs)"
  by (simp add: hides_simps)

lemma enumerate_patterns:
  "List.enumerate 0 patterns =
     [(0, bearer_header), (1, bearer_token), (2, named_secret), (3, postgres_url), (4, private_key)]"
  by (simp add: patterns_def numeral_eq_Suc)

lemma redact_stage_eq [simp]:
  "redact_stage (i, r) acc =
     (fst (subn r (template_of i) (fst acc)), snd acc + snd (subn r (template_of i) (fst acc)))"
  by (simp add: redact_stage_def split: prod.split)

lemma stage_hides:
  assumes "(i, r) \<in> set (List.enumerate 0 patterns)"
  shows "rewritten (hides i) s (fst (subn r (template_of i) s)) (snd (subn r (template_of i) s))"
proof -
  have "r \<in> set patterns" using assms by (auto simp: enumerate_patterns patterns_def)
  from pattern_consumes[OF this] show ?thesis unfolding subn_def
  proof (rule subn_rewritten)
    fix p s w st
    assume "takes r \<lparr>m_prev = p, m_rest = s, m_groups = []\<rparr> w st"
    with assms bearer_header_hides bearer_token_hides named_secret_hides postgres_url_hides private_key_hides
    show "hides i w (expand (template_of i) (m_groups st))" unfolding enumerate_patterns by fastforce
  qed
qed

lemma redact_chain:
  "\<exists>t1 t2 t3 t4 n0 n1 n2 n3 n4.
     rewritten (hides 0) s t1 n0 \<and> rewritten (hides 1) t1 t2 n1 \<and> rewritten (hides 2) t2 t3 n2 \<and>
     rewritten (hides 3) t3 t4 n3 \<and> rewritten (hides 4) t4 (rr_text (redact s)) n4 \<and>
     rr_count (redact s) = n0 + n1 + n2 + n3 + n4"
proof -
  define t1 where "t1 = subn bearer_header (template_of 0) s"
  define t2 where "t2 = subn bearer_token (template_of 1) (fst t1)"
  define t3 where "t3 = subn named_secret (template_of 2) (fst t2)"
  define t4 where "t4 = subn postgres_url (template_of 3) (fst t3)"
  define t5 where "t5 = subn private_key (template_of 4) (fst t4)"
  note defs = t1_def t2_def t3_def t4_def t5_def
  have r: "redact s = \<lparr>rr_text = fst t5, rr_count = snd t1 + snd t2 + snd t3 + snd t4 + snd t5\<rparr>"
    by (simp add: redact_def enumerate_patterns defs)
  have "rewritten (hides 0) s (fst t1) (snd t1)" "rewritten (hides 1) (fst t1) (fst t2) (snd t2)"
    "rewritten (hides 2) (fst t2) (fst t3) (snd t3)" "rewritten (hides 3) (fst t3) (fst t4) (snd t4)"
    "rewritten (hides 4) (fst t4) (fst t5) (snd t5)"
    unfolding defs by (rule stage_hides, simp add: enumerate_patterns)+
  then show ?thesis unfolding r by (auto intro!: exI)
qed

lemma redact_count_0: "rr_count (redact s) = 0 \<Longrightarrow> rr_text (redact s) = s"
  using redact_chain[of s] rewritten_none by (metis add_is_0)

text \<open>A secret whose name has a prefix is not recognised: the pattern asks for a word boundary before the name.\<close>

lemma prefixed_name_missed: "rr_count (redact ''X_TOKEN=a'') = 0"
  by code_simp



section \<open>Text without secrets\<close>

text \<open>\<open>needs p r\<close>: every match of \<open>r\<close> consumes a character satisfying \<open>p\<close>.\<close>

primrec needs :: "(char \<Rightarrow> bool) \<Rightarrow> regex \<Rightarrow> bool" where
  "needs p Eps = False"
| "needs p (Cls q) = (\<forall>c. q c \<longrightarrow> p c)"
| "needs p (Rep g n q) = (0 < n \<and> (\<forall>c. q c \<longrightarrow> p c))"
| "needs p (Seq a b) = (needs p a \<or> needs p b)"
| "needs p (Alt a b) = (needs p a \<and> needs p b)"
| "needs p (Opt a) = False"
| "needs p Boundary = False"
| "needs p (Group i a) = needs p a"

lemma takes_needs: "takes r st w st' \<Longrightarrow> needs p r \<Longrightarrow> \<exists>c \<in> set w. p c"
proof (induction r arbitrary: st w st')
  case (Rep g n q)
  then show ?case by (cases w) (auto simp: takes_Rep)
next
  case (Seq a b)
  from Seq.prems(1) obtain u v st1 where "w = u @ v" "takes a st u st1" "takes b st1 v st'" by (auto simp: takes_Seq)
  with Seq show ?case by fastforce
qed (auto simp: takes_Alt takes_Group)

lemma needs_seqs [simp]: "needs p (seqs rs) \<longleftrightarrow> (\<exists>r \<in> set rs. needs p r)"
  by (induction rs) auto

lemma subn_unchanged:
  assumes "needs p r" and "list_all (\<lambda>c. \<not> p c) s"
  shows "subn_from r tmpl q s = (s, 0)"
  using assms(2)
proof (induction s arbitrary: q)
  case Nil
  have "match_at r q [] = None" using takes_needs[OF _ assms(1)] by (fastforce simp: match_at_None takes_def)
  then show ?case by (simp add: subn_from_empty)
next
  case (Cons c t)
  have "match_at r q (c # t) = None" unfolding match_at_None
  proof
    assume "\<exists>w st. takes r \<lparr>m_prev = q, m_rest = c # t, m_groups = []\<rparr> w st"
    then obtain w st where w: "takes r \<lparr>m_prev = q, m_rest = c # t, m_groups = []\<rparr> w st" by blast
    then have "set w \<subseteq> set (c # t)" unfolding takes_def by (metis scan.select_convs(2) set_append sup_ge1)
    with takes_needs[OF w assms(1)] Cons.prems show False by (auto simp: list_all_iff)
  qed
  with Cons show ?case by (simp add: subn_from_keep)
qed

lemma lower_alnum: "is_alnum_ascii c \<Longrightarrow> is_alnum_ascii (lower_char c)"
  by (auto simp: is_alnum_ascii_def lower_char_def)

lemma patterns_need_punctuation: "r \<in> set patterns \<Longrightarrow> needs (\<lambda>c. \<not> is_alnum_ascii c) r"
proof -
  have sp: "is_space c \<Longrightarrow> \<not> is_alnum_ascii c" for c by (auto simp: is_space_def is_alnum_ascii_def)
  have colon: "lower_char c = lower_char (CHR '':'') \<Longrightarrow> \<not> is_alnum_ascii c" for c
    using lower_alnum[of c] by (auto simp: is_alnum_ascii_def lower_char_def)
  have "\<not> is_alnum_ascii (CHR '':'')" "\<not> is_alnum_ascii (CHR ''='')" "\<not> is_alnum_ascii (CHR ''-'')"
    by (simp_all add: is_alnum_ascii_def)
  with sp colon show "r \<in> set patterns \<Longrightarrow> needs (\<lambda>c. \<not> is_alnum_ascii c) r"
    by (auto simp: patterns_def bearer_header_def bearer_token_def named_secret_def secret_separator_def postgres_url_def
        private_key_def lit_ci_def lit_def)
qed

lemma redact_alnum: "list_all is_alnum_ascii s \<Longrightarrow> redact s = \<lparr>rr_text = s, rr_count = 0\<rparr>"
  using subn_unchanged[OF patterns_need_punctuation, of _ s]
  by (simp add: redact_def enumerate_patterns subn_def patterns_def)

section \<open>No private key is left\<close>

definition pem_begin :: string where "pem_begin = ''-----BEGIN ''"
definition pem_end :: string where "pem_end = ''-----END ''"
definition pem_label :: string where "pem_label = ''PRIVATE KEY-----''"

text \<open>A complete private key block at the start of a text.\<close>

definition pem_block :: "string \<Rightarrow> bool" where
  "pem_block s \<longleftrightarrow> (\<exists>a body b t. list_all upper_or_space a \<and> list_all upper_or_space b \<and>
     s = pem_begin @ a @ pem_label @ body @ pem_end @ b @ pem_label @ t)"

text \<open>Without \<open>\b\<close>, whether a pattern matches depends on the text ahead only.\<close>

primrec boundary_free :: "regex \<Rightarrow> bool" where
  "boundary_free Eps = True"
| "boundary_free (Cls p) = True"
| "boundary_free (Rep g n p) = True"
| "boundary_free (Seq a b) = (boundary_free a \<and> boundary_free b)"
| "boundary_free (Alt a b) = (boundary_free a \<and> boundary_free b)"
| "boundary_free (Opt a) = boundary_free a"
| "boundary_free Boundary = False"
| "boundary_free (Group i a) = boundary_free a"

lemma takes_ahead:
  "takes r st w st' \<Longrightarrow> boundary_free r \<Longrightarrow> m_rest st2 = m_rest st \<Longrightarrow> \<exists>st2'. takes r st2 w st2' \<and> m_rest st2' = m_rest st'"
proof (induction r arbitrary: st w st' st2)
  case (Seq a b)
  from Seq.prems(1) obtain u v st1 where 1: "w = u @ v" "takes a st u st1" "takes b st1 v st'" by (auto simp: takes_Seq)
  from Seq.IH(1)[OF 1(2) _ Seq.prems(3)] Seq.prems(2) obtain st3 where "takes a st2 u st3" "m_rest st3 = m_rest st1" by auto
  with Seq.IH(2)[OF 1(3)] Seq.prems(2) 1(1) show ?case by (fastforce simp: takes_Seq)
next
  case (Alt a b)
  then show ?case by (fastforce simp: takes_Alt)
next
  case (Opt a)
  then show ?case by (fastforce simp: takes_Opt)
next
  case (Group i a)
  then show ?case by (fastforce simp: takes_Group)
qed (auto simp: takes_Rep)

definition accepts :: "regex \<Rightarrow> string \<Rightarrow> bool" where
  "accepts r s \<longleftrightarrow> (\<exists>st w st'. m_rest st = s \<and> takes r st w st')"

lemma accepts_Eps [simp]: "accepts Eps s"
  unfolding accepts_def by (metis scan.select_convs(2) takes_Eps)

lemma accepts_Seq:
  assumes "boundary_free b"
    and a: "\<And>st w st'. takes a st w st' \<longleftrightarrow> P w \<and> (\<exists>t. m_rest st = w @ t) \<and> st' = advance (length w) st"
  shows "accepts (Seq a b) s \<longleftrightarrow> (\<exists>w t. P w \<and> s = w @ t \<and> accepts b t)"
proof
  assume "accepts (Seq a b) s"
  then obtain st u st1 v st' where 1: "m_rest st = s" "takes a st u st1" "takes b st1 v st'"
    by (auto simp: accepts_def takes_Seq)
  from 1(2) obtain t where "P u" "m_rest st = u @ t" "m_rest st1 = t" by (auto simp: a)
  with 1 show "\<exists>w t. P w \<and> s = w @ t \<and> accepts b t" unfolding accepts_def by metis
next
  assume "\<exists>w t. P w \<and> s = w @ t \<and> accepts b t"
  then obtain w st v st' where w: "P w" "s = w @ m_rest st" "takes b st v st'" by (auto simp: accepts_def)
  let ?st = "\<lparr>m_prev = None, m_rest = s, m_groups = []\<rparr>"
  have "takes a ?st w (advance (length w) ?st)" using w by (simp add: a)
  moreover obtain st2 where "takes b (advance (length w) ?st) v st2"
    using takes_ahead[OF w(3) assms(1), of "advance (length w) ?st"] w(2) by auto
  ultimately have "takes (Seq a b) ?st (w @ v) st2" by (auto simp: takes_Seq)
  then show "accepts (Seq a b) s" unfolding accepts_def by (intro exI[of _ ?st]) auto
qed

lemma boundary_free_lit [simp]: "boundary_free (lit w)"
  unfolding lit_def by (induction w) auto

lemma accepts_lit: "boundary_free b \<Longrightarrow> accepts (Seq (lit x) b) s \<longleftrightarrow> (\<exists>t. s = x @ t \<and> accepts b t)"
  by (subst accepts_Seq[where P = "\<lambda>w. w = x"]) (auto simp: takes_lit)

lemma accepts_Rep: "boundary_free b \<Longrightarrow> accepts (Seq (Rep g 0 p) b) s \<longleftrightarrow> (\<exists>w t. list_all p w \<and> s = w @ t \<and> accepts b t)"
  by (rule accepts_Seq) (auto simp: takes_Rep)

lemma accepts_litI: "accepts b t \<Longrightarrow> boundary_free b \<Longrightarrow> accepts (Seq (lit x) b) (x @ t)"
  by (auto simp: accepts_lit)

lemma accepts_RepI: "accepts b t \<Longrightarrow> boundary_free b \<Longrightarrow> list_all p w \<Longrightarrow> accepts (Seq (Rep g 0 p) b) (w @ t)"
  by (auto simp: accepts_Rep)

lemma match_private_key: "match_at private_key p s = None \<longleftrightarrow> \<not> pem_block s"
proof -
  have f: "boundary_free private_key" by (simp add: private_key_def)
  have "(\<exists>w st. takes private_key \<lparr>m_prev = p, m_rest = s, m_groups = []\<rparr> w st) \<longleftrightarrow> accepts private_key s"
    unfolding accepts_def using takes_ahead[OF _ f] by (metis scan.select_convs(2))
  also have "\<dots> \<longleftrightarrow> pem_block s"
  proof
    assume "pem_block s"
    then obtain a body b t where ab: "list_all upper_or_space a" "list_all upper_or_space b"
      and s: "s = pem_begin @ a @ pem_label @ body @ pem_end @ b @ pem_label @ t" by (auto simp: pem_block_def)
    show "accepts private_key s" unfolding s private_key_def pem_begin_def[symmetric] pem_end_def[symmetric] pem_label_def[symmetric]
      unfolding seqs_simps by (intro accepts_litI accepts_RepI accepts_Eps) (use ab in \<open>auto simp: list_all_iff\<close>)
  qed (auto simp: private_key_def pem_block_def accepts_lit accepts_Rep simp flip: pem_begin_def pem_end_def pem_label_def)
  finally show ?thesis unfolding match_at_None by blast
qed

text \<open>
  The marker starts with a character that no part of a block's header and footer has, so a header or
  footer found in the rewritten text was there before.
\<close>

abbreviation without_keys :: "char option \<Rightarrow> string \<Rightarrow> string" where
  "without_keys p s \<equiv> fst (subn_from private_key (template_of 4) p s)"

lemma min_len_private_key: "0 < min_len private_key"
  by (rule pattern_consumes) (simp add: patterns_def)

lemma without_keys_hit:
  "match_at private_key p (w @ m_rest st) = Some st \<Longrightarrow> w \<noteq> [] \<Longrightarrow>
   without_keys p (w @ m_rest st) = REDACTED @ without_keys (m_prev st) (m_rest st)"
  by (simp add: subn_from_hit template_of_def expand_def)

lemma without_keys_prefix:
  assumes "CHR ''['' \<notin> set x" and "without_keys p s = x @ t"
  shows "\<exists>p' s'. s = x @ s' \<and> t = without_keys p' s'"
  using min_len_private_key assms
proof (induction p s arbitrary: x rule: scan_induct)
  case (Empty p)
  then have "[] = x @ t" by (simp only: subn_from_empty fst_conv)
  with Empty(1) show ?case by (auto simp: subn_from_empty intro!: exI[of _ p])
next
  case (Keep p c u)
  show ?case
  proof (cases x)
    case Nil
    with Keep.prems(2) show ?thesis by auto
  next
    case (Cons d y)
    with Keep.prems Keep.hyps have "d = c" "CHR ''['' \<notin> set y" "without_keys (Some c) u = y @ t" by (auto simp: subn_from_keep)
    with Keep.IH[of y] Cons show ?thesis by auto
  qed
next
  case (Hit p w st)
  then have "x = []" by (cases x) (auto simp: without_keys_hit REDACTED_def)
  with Hit.prems(2) show ?case by auto
qed

lemma append_split: "u @ v = r @ t \<Longrightarrow> \<exists>us. (u = r @ us \<and> us @ v = t) \<or> (r = u @ us \<and> v = us @ t)"
  by (subst (asm) append_eq_append_conv2) blast

lemma REDACTED_suffix: "REDACTED = u @ v \<Longrightarrow> v \<noteq> [] \<Longrightarrow> hd v \<in> set REDACTED"
  by (metis Un_iff list.set_sel(1) set_append)

lemma without_keys_infix:
  assumes "CHR ''['' \<notin> set y" and "y \<noteq> []" and "hd y \<notin> set REDACTED" and "without_keys p s = u @ y @ t"
  shows "\<exists>u' s'. s = u' @ y @ s'"
  using min_len_private_key assms(4)
proof (induction p s arbitrary: u rule: scan_induct)
  case (Empty p)
  with assms(2) show ?case by (simp add: subn_from_empty)
next
  case (Keep p c v)
  show ?case
  proof (cases u)
    case Nil
    with without_keys_prefix[OF assms(1), of p "c # v" t] Keep.prems show ?thesis by (metis append_Nil)
  next
    case (Cons d u')
    with Keep.prems Keep.hyps have "without_keys (Some c) v = u' @ y @ t" by (auto simp: subn_from_keep)
    with Keep.IH show ?thesis by (metis append_Cons)
  qed
next
  case (Hit p w st)
  let ?o = "without_keys (m_prev st) (m_rest st)"
  from Hit have "u @ y @ t = REDACTED @ ?o" by (simp add: without_keys_hit)
  from append_split[OF this] obtain us where us: "(u = REDACTED @ us \<and> us @ y @ t = ?o) \<or> (REDACTED = u @ us \<and> y @ t = us @ ?o)" by blast
  have "us = []" if a: "REDACTED = u @ us" "y @ t = us @ ?o"
  proof (rule ccontr)
    assume "us \<noteq> []"
    then have "hd us \<in> set REDACTED" "hd us = hd y" using REDACTED_suffix[OF a(1)] a(2) assms(2) by (simp, metis hd_append2)
    with assms(3) show False by simp
  qed
  with us have "\<exists>u1. ?o = u1 @ y @ t" by (metis append_Nil)
  with Hit.IH obtain u' s' where "m_rest st = u' @ y @ s'" by blast
  then show ?case by (metis append_assoc)
qed

lemma upper_or_space_marker: "list_all upper_or_space a \<Longrightarrow> CHR ''['' \<notin> set a"
  by (auto simp: list_all_iff upper_or_space_def)

lemma pem_block_hd: "pem_block v \<Longrightarrow> v \<noteq> [] \<and> hd v = CHR ''-''"
  by (auto simp: pem_block_def pem_begin_def)

lemma pem_block_back:
  assumes "pem_block (without_keys p s)"
  shows "pem_block s"
proof -
  from assms obtain a body b t where ab: "list_all upper_or_space a" "list_all upper_or_space b"
    and v: "without_keys p s = (pem_begin @ a @ pem_label) @ body @ (pem_end @ b @ pem_label) @ t"
    by (auto simp: pem_block_def)
  have m: "CHR ''['' \<notin> set (pem_begin @ a @ pem_label)" "CHR ''['' \<notin> set (pem_end @ b @ pem_label)"
    using ab[THEN upper_or_space_marker] by (simp_all add: pem_begin_def pem_end_def pem_label_def)
  from without_keys_prefix[OF m(1) v] obtain p' s' where s: "s = (pem_begin @ a @ pem_label) @ s'"
    and "without_keys p' s' = body @ (pem_end @ b @ pem_label) @ t" by metis
  with without_keys_infix[OF m(2), of p' s' body t] obtain u' s'' where "s' = u' @ (pem_end @ b @ pem_label) @ s''"
    by (auto simp: pem_end_def REDACTED_def)
  with s ab show ?thesis unfolding pem_block_def by (metis append_assoc)
qed

lemma without_keys_no_block:
  "without_keys p s = u @ v \<Longrightarrow> \<not> pem_block v"
  using min_len_private_key
proof (induction p s arbitrary: u rule: scan_induct)
  case (Empty p)
  then show ?case using pem_block_hd[of v] by (auto simp: subn_from_empty)
next
  case (Keep p c t)
  show ?case
  proof (cases u)
    case Nil
    with Keep show ?thesis using pem_block_back[of p "c # t"] match_private_key by auto
  next
    case (Cons d u')
    with Keep.prems Keep.hyps have "without_keys (Some c) t = u' @ v" by (auto simp: subn_from_keep)
    with Keep.IH show ?thesis by blast
  qed
next
  case (Hit p w st)
  let ?o = "without_keys (m_prev st) (m_rest st)"
  from Hit have "u @ v = REDACTED @ ?o" by (simp add: without_keys_hit)
  from append_split[OF this] obtain us where us: "(u = REDACTED @ us \<and> us @ v = ?o) \<or> (REDACTED = u @ us \<and> v = us @ ?o)" by blast
  have dash: "CHR ''-'' \<notin> set REDACTED" by (simp add: REDACTED_def)
  show ?case
  proof
    assume v: "pem_block v"
    have "us = []" if "REDACTED = u @ us" "v = us @ ?o"
    proof (rule ccontr)
      assume "us \<noteq> []"
      with that REDACTED_suffix[of u us] pem_block_hd[OF v] dash show False by (metis hd_append2)
    qed
    with us have "\<exists>u1. ?o = u1 @ v" by (metis append_Nil)
    with Hit.IH v show False by blast
  qed
qed

lemma redact_no_key: "rr_text (redact s) = u @ v \<Longrightarrow> \<not> pem_block v"
proof -
  have "\<exists>t. rr_text (redact s) = without_keys None t"
    by (auto simp: redact_def enumerate_patterns subn_def)
  then show "rr_text (redact s) = u @ v \<Longrightarrow> \<not> pem_block v" using without_keys_no_block by metis
qed

text \<open>
  C12: No private key survives redaction: the returned text holds no complete private key block, that is,
  no header and later footer of a private key, wherever it is read from.
\<close>

theorem no_private_key_survives:
  "\<nexists>u v. rr_text (redact s) = u @ v \<and> pem_block v"
  using redact_no_key by blast

end
