(* ===== verification/Assistant.thy ===== *)
theory Assistant
  imports Analysis Api
begin

text \<open>
  The assistant service, \<open>src/fleetpulse/assistant/service.py\<close>, and its two routes, \<open>app.py\<close>:
  redaction of what goes to the provider and of what comes back, citation checking, abstention, the
  bounded registry of proposals and the single human review of each.

  The provider is an argument (a name and a function that may raise anything), as are the fresh UUIDs
  and the clock. The registry is touched only inside the lock, at the end of \<open>analyze\<close> and in
  \<open>review\<close>, so a run of the service is a sequence of these calls.
\<close>

section \<open>State\<close>

type_synonym proposal_key = "string \<times> string"

record AssistantService =
  sv_registry_limit :: int
  sv_proposals :: "(proposal_key \<times> ReviewReceipt option) list"

definition new_service :: "int \<Rightarrow> AssistantService" where
  "new_service limit = \<lparr>sv_registry_limit = limit, sv_proposals = []\<rparr>"

type_synonym redactor = "string \<Rightarrow> RedactionResult"
type_synonym ask = "string \<Rightarrow> EvidenceItem list \<Rightarrow> ProviderAnalysis res"

section \<open>Redaction of evidence and of provider output\<close>

definition evidence_item :: "redactor \<Rightarrow> nat \<times> EvidenceInput \<Rightarrow> EvidenceItem" where
  "evidence_item red ix =
     \<lparr>ev_id = ''E'' @ show_nat (fst ix), ev_source = rr_text (red (ei_source (snd ix))),
      ev_content = rr_text (red (ei_content (snd ix))), ev_observed_at = ei_observed_at (snd ix)\<rparr>"

definition evidence_count :: "redactor \<Rightarrow> EvidenceInput \<Rightarrow> nat" where
  "evidence_count red x = rr_count (red (ei_source x)) + rr_count (red (ei_content x))"

definition prepare_evidence :: "redactor \<Rightarrow> EvidenceInput list \<Rightarrow> EvidenceItem list \<times> nat" where
  "prepare_evidence red inputs =
     foldl (\<lambda>(evidence, n) ix. (evidence @ [evidence_item red ix], n + evidence_count red (snd ix))) ([], 0)
       (List.enumerate 1 inputs)"

fun redact_value :: "redactor \<Rightarrow> jval \<Rightarrow> jval \<times> nat"
  and redact_items :: "redactor \<Rightarrow> jval list \<Rightarrow> jval list \<times> nat"
  and redact_members :: "redactor \<Rightarrow> (string \<times> jval) list \<Rightarrow> (string \<times> jval) list \<times> nat" where
  "redact_value red (JStr s) = (JStr (rr_text (red s)), rr_count (red s))"
| "redact_value red (JList xs) = (let (ys, n) = redact_items red xs in (JList ys, n))"
| "redact_value red (JObj m) = (let (ys, n) = redact_members red m in (JObj ys, n))"
| "redact_value red v = (v, 0)"
| "redact_items red [] = ([], 0)"
| "redact_items red (x # xs) =
     (let (y, a) = redact_value red x; (ys, b) = redact_items red xs in (y # ys, a + b))"
| "redact_members red [] = ([], 0)"
| "redact_members red ((k, x) # m) =
     (let (y, a) = redact_value red x; (ys, b) = redact_members red m in ((k, y) # ys, a + b))"

definition redact_provider_output :: "model_codec \<Rightarrow> redactor \<Rightarrow> ProviderAnalysis \<Rightarrow> (ProviderAnalysis \<times> nat) res" where
  "redact_provider_output k red out =
     (let (v, n) = redact_value red (dump_analysis out)
      in res_bind (res_of ValidationError (validate_analysis k v)) (\<lambda>a. Inr (a, n)))"

section \<open>Citations\<close>

definition cited :: "ProviderAnalysis \<Rightarrow> string list" where
  "cited out = concat (map cl_citations (pa_claims out)) @ concat (map pr_citations (pa_remediations out))"

definition citation_error :: "ProviderAnalysis \<Rightarrow> EvidenceItem list \<Rightarrow> string option" where
  "citation_error out evidence =
     (let valid = map ev_id evidence
      in if pa_abstained out then
           (if pa_claims out \<noteq> [] \<or> pa_remediations out \<noteq> []
            then Some ''Abstaining provider output contained claims or remediations.'' else None)
         else if pa_claims out = [] then Some ''Provider supplied no supported claims.''
         else (let unknown = sort (remdups (filter (\<lambda>c. c \<notin> set valid) (cited out)))
               in if unknown \<noteq> []
                  then Some (''Provider cited unknown evidence identifiers: '' @ join_with '', '' unknown @ ''.'')
                  else None))"

section \<open>The registry\<close>

text \<open>
  The eviction loop: the oldest entry goes while there are too many. With a negative limit the
  emptied dict raises \<open>StopIteration\<close>, which leaves a coroutine as a \<open>RuntimeError\<close>.
\<close>

fun evict_oldest :: "int \<Rightarrow> (proposal_key \<times> ReviewReceipt option) list \<Rightarrow>
    unit res \<times> (proposal_key \<times> ReviewReceipt option) list" where
  "evict_oldest limit [] =
     (if limit < 0 then Inl (RuntimeError ''coroutine raised StopIteration'') else Inr (), [])"
| "evict_oldest limit (e # es) = (if int (length (e # es)) > limit then evict_oldest limit es else (Inr (), e # es))"

definition register :: "string \<Rightarrow> RemediationProposal list \<Rightarrow> AssistantService \<Rightarrow> unit res \<times> AssistantService" where
  "register analysis_id proposals sv =
     (let added = foldl (\<lambda>d p. AList.update (analysis_id, rp_id p) None d) (sv_proposals sv) proposals;
          (r, kept) = evict_oldest (sv_registry_limit sv) added
      in (r, sv\<lparr>sv_proposals := kept\<rparr>))"

section \<open>Analysis and review\<close>

definition abstention :: "string \<Rightarrow> string \<Rightarrow> EvidenceItem list \<Rightarrow> nat \<Rightarrow> string \<Rightarrow> AnalysisResponse" where
  "abstention name analysis_id evidence n reason =
     \<lparr>ar_analysis_id = analysis_id, ar_provider = name,
      ar_summary = ''The assistant abstained; inspect the evidence manually.'', ar_evidence = evidence,
      ar_claims = [], ar_proposals = [], ar_abstained = True, ar_reason = Some reason,
      ar_redaction_count = n, ar_safety = default_boundary\<rparr>"

definition new_proposal :: "nat \<times> ProviderRemediation \<Rightarrow> RemediationProposal res" where
  "new_proposal ix =
     (let p = \<lparr>pr_action = pr_action (snd ix), pr_rationale = pr_rationale (snd ix), pr_citations = pr_citations (snd ix),
               rp_id = ''proposal-'' @ show_nat (fst ix), rp_approval_status = ''requires_human_approval''\<rparr>
      in if wf_remediation p then Inr p else Inl ValidationError)"

definition analyze ::
  "model_codec \<Rightarrow> redactor \<Rightarrow> string \<Rightarrow> ask \<Rightarrow> uuid \<Rightarrow> AnalysisRequest \<Rightarrow> AssistantService \<Rightarrow>
   AnalysisResponse res \<times> AssistantService" where
  "analyze k red name ask fresh request sv =
     (let analysis_id = ''analysis-'' @ uuid_str fresh;
          (evidence, n0) = prepare_evidence red (rq_evidence request);
          question = red (rq_question request);
          n1 = n0 + rr_count question
      in if evidence = [] then (Inr (abstention name analysis_id evidence n1 ''No evidence was supplied.''), sv)
         else
           (case res_bind (ask (rr_text question) evidence) (redact_provider_output k red) of
              Inl e \<Rightarrow> (Inr (abstention name analysis_id evidence n1
                  (''Provider output was unavailable or invalid ('' @ error_name e @ '').'')), sv)
            | Inr (safe, n2) \<Rightarrow>
                (case citation_error safe evidence of
                   Some reason \<Rightarrow> (Inr (abstention name analysis_id evidence (n1 + n2) reason), sv)
                 | None \<Rightarrow>
                     (case map_res new_proposal (List.enumerate 1 (pa_remediations safe)) of
                        Inl e \<Rightarrow> (Inl e, sv)
                      | Inr proposals \<Rightarrow>
                          (case register analysis_id proposals sv of
                             (Inl e, sv') \<Rightarrow> (Inl e, sv')
                           | (Inr _, sv') \<Rightarrow>
                               (Inr \<lparr>ar_analysis_id = analysis_id, ar_provider = name, ar_summary = pa_summary safe,
                                     ar_evidence = evidence, ar_claims = pa_claims safe, ar_proposals = proposals,
                                     ar_abstained = pa_abstained safe, ar_reason = pa_reason safe,
                                     ar_redaction_count = n1 + n2, ar_safety = default_boundary\<rparr>, sv'))))))"

definition review :: "uuid \<Rightarrow> datetime \<Rightarrow> ReviewRequest \<Rightarrow> AssistantService \<Rightarrow> ReviewReceipt res \<times> AssistantService" where
  "review fresh now request sv =
     (let key = (rv_analysis_id request, rv_proposal_id request)
      in case map_of (sv_proposals sv) key of
           None \<Rightarrow> (Inl (UnknownProposalError ''analysis/proposal pair was not generated here''), sv)
         | Some (Some _) \<Rightarrow> (Inl (DuplicateReviewError ''proposal already has a recorded decision''), sv)
         | Some None \<Rightarrow>
             (let receipt = \<lparr>rc_review_id = ''review-'' @ uuid_str fresh, rc_analysis_id = rv_analysis_id request,
                    rc_proposal_id = rv_proposal_id request, rc_reviewer = rv_reviewer request,
                    rc_decision = rv_decision request, rc_rationale = rv_rationale request,
                    rc_reviewed_at = now, rc_execution_available = False\<rparr>
              in (Inr receipt, sv\<lparr>sv_proposals := AList.update key (Some receipt) (sv_proposals sv)\<rparr>)))"

section \<open>Routes (app.py)\<close>

definition readyz :: "AssistantSettings \<Rightarrow> (string \<times> string) list" where
  "readyz s = [(''status'', ''ready''), (''provider'', provider_text (st_provider s)), (''authority'', ''read-only'')]"

definition analyze_route ::
  "model_codec \<Rightarrow> string \<Rightarrow> ask \<Rightarrow> uuid \<Rightarrow> jval \<Rightarrow> AssistantService \<Rightarrow> AnalysisResponse res \<times> AssistantService" where
  "analyze_route k name ask fresh payload sv =
     (case validate_request k payload of
        None \<Rightarrow> (Inl ValidationError, sv)
      | Some request \<Rightarrow> analyze k redact name ask fresh request sv)"

definition review_route ::
  "model_codec \<Rightarrow> uuid \<Rightarrow> datetime \<Rightarrow> jval \<Rightarrow> AssistantService \<Rightarrow> ReviewReceipt res \<times> AssistantService" where
  "review_route k fresh now payload sv =
     (case validate_review k payload of
        None \<Rightarrow> (Inl ValidationError, sv)
      | Some request \<Rightarrow>
          (case review fresh now request sv of
             (Inl (UnknownProposalError m), sv') \<Rightarrow> (Inl (HTTPException 404 m), sv')
           | (Inl (DuplicateReviewError m), sv') \<Rightarrow> (Inl (HTTPException 409 m), sv')
           | (r, sv') \<Rightarrow> (r, sv')))"

section \<open>What the service relies on of a redactor\<close>

lemma redact_value_unchanged_if:
  "\<forall>s. rr_count (red s) = 0 \<longrightarrow> rr_text (red s) = s \<Longrightarrow> snd (redact_value red v) = 0 \<Longrightarrow> fst (redact_value red v) = v"
  "\<forall>s. rr_count (red s) = 0 \<longrightarrow> rr_text (red s) = s \<Longrightarrow> snd (redact_items red xs) = 0 \<Longrightarrow> fst (redact_items red xs) = xs"
  "\<forall>s. rr_count (red s) = 0 \<longrightarrow> rr_text (red s) = s \<Longrightarrow> snd (redact_members red m) = 0 \<Longrightarrow> fst (redact_members red m) = m"
  by (induction red v and red xs and red m rule: redact_value_redact_items_redact_members.induct)
    (auto split: prod.splits)

text \<open>A redactor that counts its substitutions, and leaves plain letters and digits alone.\<close>

locale text_redactor =
  fixes red :: redactor
  assumes counted: "rr_count (red s) = 0 \<Longrightarrow> rr_text (red s) = s"
    and plain_kept: "list_all is_alnum_ascii s \<Longrightarrow> red s = \<lparr>rr_text = s, rr_count = 0\<rparr>"
begin

lemma redact_value_unchanged:
  "snd (redact_value red v) = 0 \<Longrightarrow> fst (redact_value red v) = v"
  using counted by (intro redact_value_unchanged_if(1)) auto

lemma evidence_id_kept: "red (''E'' @ show_nat n) = \<lparr>rr_text = ''E'' @ show_nat n, rr_count = 0\<rparr>"
proof (rule plain_kept)
  have "is_digit c \<Longrightarrow> is_alnum_ascii c" for c by (simp add: is_digit_def is_alnum_ascii_def)
  with show_nat_digits[of n] show "list_all is_alnum_ascii (''E'' @ show_nat n)"
    by (auto simp: list_all_iff is_alnum_ascii_def)
qed

lemma citations_kept: "set cs \<subseteq> range (\<lambda>n. ''E'' @ show_nat n) \<Longrightarrow> map (\<lambda>s. rr_text (red s)) cs = cs"
  using evidence_id_kept by (induction cs) auto

end

interpretation secret_redactor: text_redactor redact
proof
  fix s
  show "rr_count (redact s) = 0 \<Longrightarrow> rr_text (redact s) = s"
    by (rule redact_count_0)
  show "list_all is_alnum_ascii s \<Longrightarrow> redact s = \<lparr>rr_text = s, rr_count = 0\<rparr>"
    by (rule redact_alnum)
qed

section \<open>Redacting the provider's output, field by field\<close>

definition redact_claim :: "redactor \<Rightarrow> Claim \<Rightarrow> Claim" where
  "redact_claim red c = \<lparr>cl_text = rr_text (red (cl_text c)), cl_citations = map (\<lambda>s. rr_text (red s)) (cl_citations c)\<rparr>"

definition redact_remediation :: "redactor \<Rightarrow> ProviderRemediation \<Rightarrow> ProviderRemediation" where
  "redact_remediation red r = \<lparr>pr_action = rr_text (red (pr_action r)), pr_rationale = rr_text (red (pr_rationale r)),
     pr_citations = map (\<lambda>s. rr_text (red s)) (pr_citations r)\<rparr>"

definition redact_analysis :: "redactor \<Rightarrow> ProviderAnalysis \<Rightarrow> ProviderAnalysis" where
  "redact_analysis red a =
     \<lparr>pa_summary = rr_text (red (pa_summary a)), pa_claims = map (redact_claim red) (pa_claims a),
      pa_remediations = map (redact_remediation red) (pa_remediations a), pa_abstained = pa_abstained a,
      pa_reason = map_option (\<lambda>s. rr_text (red s)) (pa_reason a)\<rparr>"

definition analysis_strings :: "ProviderAnalysis \<Rightarrow> string list" where
  "analysis_strings a = pa_summary a # concat (map (\<lambda>c. cl_text c # cl_citations c) (pa_claims a)) @
     concat (map (\<lambda>r. pr_action r # pr_rationale r # pr_citations r) (pa_remediations a)) @
     (case pa_reason a of None \<Rightarrow> [] | Some r \<Rightarrow> [r])"

abbreviation total_count :: "redactor \<Rightarrow> string list \<Rightarrow> nat" where
  "total_count red xs \<equiv> sum_list (map (\<lambda>s. rr_count (red s)) xs)"

lemma sum_list_concat_map: "sum_list (map f (concat (map g xs))) = sum_list (map (\<lambda>x. sum_list (map f (g x))) xs)"
  by (induction xs) auto

lemma redact_items_map:
  "(\<And>x. x \<in> set xs \<Longrightarrow> redact_value red (f x) = (g x, h x)) \<Longrightarrow>
   redact_items red (map f xs) = (map g xs, sum_list (map h xs))"
  by (induction xs) auto

lemma redact_strings: "redact_items red (map JStr cs) = (map JStr (map (\<lambda>s. rr_text (red s)) cs), total_count red cs)"
  by (subst redact_items_map[where g = "\<lambda>s. JStr (rr_text (red s))" and h = "\<lambda>s. rr_count (red s)"]) auto

lemma redact_dump_claim:
  "redact_value red (dump_claim c) = (dump_claim (redact_claim red c), total_count red (cl_text c # cl_citations c))"
  by (simp add: dump_claim_def redact_claim_def redact_strings)

lemma redact_dump_remediation:
  "redact_value red (dump_remediation r) =
     (dump_remediation (redact_remediation red r), total_count red (pr_action r # pr_rationale r # pr_citations r))"
  by (simp add: dump_remediation_def redact_remediation_def redact_strings add.assoc)

lemma redact_dump_analysis:
  "redact_value red (dump_analysis a) = (dump_analysis (redact_analysis red a), total_count red (analysis_strings a))"
proof -
  have c: "redact_items red (map dump_claim cs) =
      (map dump_claim (map (redact_claim red) cs), total_count red (concat (map (\<lambda>c. cl_text c # cl_citations c) cs)))" for cs
    by (subst redact_items_map[OF redact_dump_claim]) (simp_all add: sum_list_concat_map)
  have r: "redact_items red (map dump_remediation rs) =
      (map dump_remediation (map (redact_remediation red) rs),
       total_count red (concat (map (\<lambda>r. pr_action r # pr_rationale r # pr_citations r) rs)))" for rs
    by (subst redact_items_map[OF redact_dump_remediation]) (simp_all add: sum_list_concat_map)
  show ?thesis
    by (cases "pa_reason a") (simp_all add: dump_analysis_def redact_analysis_def analysis_strings_def c r)
qed

text \<open>Whatever the reader accepts of a written value is that value.\<close>

lemma list_of_dump:
  assumes "list_of lo hi f (JList (map g xs)) = Some ys" and "\<And>x y. f (g x) = Some y \<Longrightarrow> y = x"
  shows "ys = xs"
proof -
  from assms(1) have "those (map (f \<circ> g) xs) = Some ys" by (auto simp: list_of_def split: if_splits)
  from those_map_Some[OF this] have "list_all2 (\<lambda>x y. y = x) xs ys"
    by (rule list_all2_mono) (use assms(2) in auto)
  then show ?thesis by (simp add: list_all2_conv_all_nth list_eq_iff_nth_eq)
qed

lemma validate_claim_dumpD: "model_codec_ok k \<Longrightarrow> validate_claim k (dump_claim c) = Some d \<Longrightarrow> d = c"
  by (auto simp: validate_claim_def dump_claim_def object_of_def field_def model_codec_ok_def codec_okD bind_eq_Some_conv
      dest!: list_of_dump)

lemma validate_remediation_dumpD: "model_codec_ok k \<Longrightarrow> validate_remediation k (dump_remediation c) = Some d \<Longrightarrow> d = c"
  by (auto simp: validate_remediation_def dump_remediation_def object_of_def field_def model_codec_ok_def codec_okD
      bind_eq_Some_conv dest!: list_of_dump)

lemma validate_analysis_dumpD:
  assumes "model_codec_ok k" and "validate_analysis k (dump_analysis a) = Some d"
  shows "d = a"
proof -
  let ?c = "list_of 0 50 (validate_claim k) (JList (map dump_claim (pa_claims a)))"
  let ?r = "list_of 0 20 (validate_remediation k) (JList (map dump_remediation (pa_remediations a)))"
  have l: "?c = Some cs \<Longrightarrow> cs = pa_claims a" "?r = Some rs \<Longrightarrow> rs = pa_remediations a" for cs rs
    using list_of_dump validate_claim_dumpD[OF assms(1)] validate_remediation_dumpD[OF assms(1)] by blast+
  from assms show ?thesis
    by (cases "pa_reason a") (auto simp: validate_analysis_def dump_analysis_def object_of_def field_def model_codec_ok_def
        codec_okD bind_eq_Some_conv nullable_def dest!: l)
qed

lemma redact_provider_output_eq:
  assumes "model_codec_ok k"
  shows "redact_provider_output k red out =
    (if wf_analysis (redact_analysis red out) then Inr (redact_analysis red out, total_count red (analysis_strings out))
     else Inl ValidationError)"
proof (cases "validate_analysis k (dump_analysis (redact_analysis red out))")
  case None
  then have "\<not> wf_analysis (redact_analysis red out)" using validate_dump_analysis[OF assms] by fastforce
  with None show ?thesis by (simp add: redact_provider_output_def redact_dump_analysis)
next
  case (Some d)
  then have "d = redact_analysis red out" "wf_analysis d"
    using validate_analysis_dumpD[OF assms] validate_analysis_wf by blast+
  with Some show ?thesis by (simp add: redact_provider_output_def redact_dump_analysis)
qed

text \<open>
  The generic walk over the dumped JSON of the provider's output amounts to redacting every string
  field of it and checking the result against the model's constraints: the output is accepted exactly
  when its redacted form is well formed, the accepted value is that form, and the count is the sum over
  all strings of the output.
\<close>

theorem redact_provider_output_spec:
  assumes "model_codec_ok k"
  shows "redact_provider_output k redact out =
    (if wf_analysis (redact_analysis redact out)
     then Inr (redact_analysis redact out, total_count redact (analysis_strings out))
     else Inl ValidationError)"
  using assms by (rule redact_provider_output_eq)

definition example_model_codec :: model_codec where
  "example_model_codec = \<lparr>scalars = example_codec, as_bool = (\<lambda>v. case v of JBool b \<Rightarrow> Some b | _ \<Rightarrow> None)\<rparr>"

lemma example_model_codec_ok: "model_codec_ok example_model_codec"
  by (simp add: model_codec_ok_def example_model_codec_def example_codec_ok)

definition example_analysis :: ProviderAnalysis where
  "example_analysis = \<lparr>pa_summary = ''ok'', pa_claims = [\<lparr>cl_text = ''up'', cl_citations = [''E1'']\<rparr>],
     pa_remediations = [\<lparr>pr_action = ''look'', pr_rationale = ''why'', pr_citations = [''E1'']\<rparr>],
     pa_abstained = False, pa_reason = None\<rparr>"

lemma example_texts [simp]:
  "redact ''ok'' = \<lparr>rr_text = ''ok'', rr_count = 0\<rparr>" "redact ''up'' = \<lparr>rr_text = ''up'', rr_count = 0\<rparr>"
  "redact ''E1'' = \<lparr>rr_text = ''E1'', rr_count = 0\<rparr>" "redact ''look'' = \<lparr>rr_text = ''look'', rr_count = 0\<rparr>"
  "redact ''why'' = \<lparr>rr_text = ''why'', rr_count = 0\<rparr>"
  by (rule redact_alnum, simp add: is_alnum_ascii_def)+

lemma example_analysis_plain:
  "redact_analysis redact example_analysis = example_analysis" "wf_analysis example_analysis"
  "total_count redact (analysis_strings example_analysis) = 0"
  by (simp_all add: example_analysis_def redact_analysis_def redact_claim_def redact_remediation_def analysis_strings_def
      wf_analysis_def analysis_bounds_def count_between_def str_len_def wf_claim_def wf_remediation_def)

theorem redact_provider_output_spec_witness:
  "redact_provider_output example_model_codec redact example_analysis = Inr (example_analysis, 0)"
  using redact_provider_output_spec[OF example_model_codec_ok, of example_analysis] by (simp add: example_analysis_plain)

section \<open>Analysis fails closed\<close>

lemma prepare_evidence_eq:
  "prepare_evidence red inputs =
     (map (evidence_item red) (List.enumerate 1 inputs), sum_list (map (evidence_count red) inputs))"
proof -
  have "foldl (\<lambda>(evidence, n) ix. (evidence @ [evidence_item red ix], n + evidence_count red (snd ix))) (es, n) (List.enumerate i inputs) =
      (es @ map (evidence_item red) (List.enumerate i inputs), n + sum_list (map (evidence_count red) inputs))" for es n i
    by (induction inputs arbitrary: es n i) auto
  from this[of "[]" 0 1] show ?thesis by (simp add: prepare_evidence_def)
qed

lemma citation_error_None:
  "citation_error out evidence = None \<longleftrightarrow>
     (if pa_abstained out then pa_claims out = [] \<and> pa_remediations out = []
      else pa_claims out \<noteq> [] \<and> set (cited out) \<subseteq> set (map ev_id evidence))"
proof -
  have "sort (remdups (filter (\<lambda>c. c \<notin> set (map ev_id evidence)) (cited out))) = [] \<longleftrightarrow> set (cited out) \<subseteq> set (map ev_id evidence)"
    by (auto simp: filter_empty_conv simp flip: set_empty)
  then show ?thesis by (auto simp: citation_error_def Let_def)
qed

text \<open>The proposal made of the remediation at a position.\<close>

definition proposal_at :: "nat \<times> ProviderRemediation \<Rightarrow> RemediationProposal" where
  "proposal_at ix =
     \<lparr>pr_action = pr_action (snd ix), pr_rationale = pr_rationale (snd ix), pr_citations = pr_citations (snd ix),
      rp_id = ''proposal-'' @ show_nat (fst ix), rp_approval_status = ''requires_human_approval''\<rparr>"

lemma new_proposal_wf: "wf_remediation (snd ix) \<Longrightarrow> new_proposal ix = Inr (proposal_at ix)"
  by (simp add: new_proposal_def proposal_at_def wf_remediation_def Let_def)

lemma map_res_proposals:
  "list_all wf_remediation rs \<Longrightarrow> map_res new_proposal (List.enumerate i rs) = Inr (map proposal_at (List.enumerate i rs))"
  by (induction rs arbitrary: i) (auto simp: new_proposal_wf)

lemma evict_oldest_eq: "0 \<le> limit \<Longrightarrow> evict_oldest limit es = (Inr (), drop (length es - nat limit) es)"
  by (induction es) (auto simp: Suc_diff_le nat_le_iff not_less)

lemma register_ok:
  "0 \<le> sv_registry_limit sv \<Longrightarrow> register aid ps sv =
     (let added = foldl (\<lambda>d p. AList.update (aid, rp_id p) None d) (sv_proposals sv) ps
      in (Inr (), sv\<lparr>sv_proposals := drop (length added - nat (sv_registry_limit sv)) added\<rparr>))"
  by (simp add: register_def evict_oldest_eq Let_def)

lemma distinct_proposal_ids: "distinct (map rp_id (map proposal_at (List.enumerate i rs)))"
proof -
  let ?id = "\<lambda>n. ''proposal-'' @ show_nat n"
  have "map rp_id (map proposal_at (List.enumerate i rs)) = map ?id (map fst (List.enumerate i rs))"
    by (simp add: proposal_at_def del: map_fst_enumerate)
  moreover have "inj_on ?id A" for A by (rule inj_onI) (simp add: show_nat_inj)
  ultimately show ?thesis by (simp only: distinct_map map_fst_enumerate distinct_upt)
qed

text \<open>The answer made of a redacted, well-formed and supported output.\<close>

definition accepted_response :: "string \<Rightarrow> string \<Rightarrow> EvidenceItem list \<Rightarrow> nat \<Rightarrow> ProviderAnalysis \<Rightarrow> AnalysisResponse" where
  "accepted_response name aid evidence n safe =
     \<lparr>ar_analysis_id = aid, ar_provider = name, ar_summary = pa_summary safe, ar_evidence = evidence,
      ar_claims = pa_claims safe, ar_proposals = map proposal_at (List.enumerate 1 (pa_remediations safe)),
      ar_abstained = pa_abstained safe, ar_reason = pa_reason safe, ar_redaction_count = n, ar_safety = default_boundary\<rparr>"

lemma analyze_cases:
  assumes k: "model_codec_ok k" and l: "0 \<le> sv_registry_limit sv"
    and a: "analyze k red name ask fresh request sv = (r, sv')"
    and aid: "aid = ''analysis-'' @ uuid_str fresh" and ev: "ev = fst (prepare_evidence red (rq_evidence request))"
  shows "(\<exists>n reason. r = Inr (abstention name aid ev n reason) \<and> sv' = sv) \<or>
    (\<exists>out safe n. ev \<noteq> [] \<and> ask (rr_text (red (rq_question request))) ev = Inr out \<and> safe = redact_analysis red out \<and>
      wf_analysis safe \<and> citation_error safe ev = None \<and> r = Inr (accepted_response name aid ev n safe) \<and>
      sv' = snd (register aid (map proposal_at (List.enumerate 1 (pa_remediations safe))) sv))"
proof -
  obtain n0 where pe: "prepare_evidence red (rq_evidence request) = (ev, n0)" using ev by (metis prod.collapse)
  note a = a[unfolded analyze_def Let_def pe split aid[symmetric]]
  have declined: "\<lbrakk>(Inr (abstention name aid ev n reason), sv) = (r, sv')\<rbrakk> \<Longrightarrow> ?thesis" for n reason by blast
  show ?thesis
  proof (cases "ev = []")
    case True
    with a have "(Inr (abstention name aid ev (n0 + rr_count (red (rq_question request))) ''No evidence was supplied.''), sv) = (r, sv')"
      by simp
    then show ?thesis by (rule declined)
  next
    case False
    show ?thesis
    proof (cases "ask (rr_text (red (rq_question request))) ev")
      case (Inl e)
      with a False have "(Inr (abstention name aid ev (n0 + rr_count (red (rq_question request)))
          (''Provider output was unavailable or invalid ('' @ error_name e @ '').'')), sv) = (r, sv')" by simp
      then show ?thesis by (rule declined)
    next
      case out: (Inr out)
      let ?s = "redact_analysis red out"
      note a = a[unfolded out res_bind_Inr redact_provider_output_eq[OF k]]
      show ?thesis
      proof (cases "wf_analysis ?s")
        case nwf: False
        with a False have "(Inr (abstention name aid ev (n0 + rr_count (red (rq_question request)))
            (''Provider output was unavailable or invalid ('' @ error_name ValidationError @ '').'')), sv) = (r, sv')" by simp
        then show ?thesis by (rule declined)
      next
        case wf: True
        show ?thesis
        proof (cases "citation_error ?s ev")
          case (Some reason)
          with a False wf have "(Inr (abstention name aid ev (n0 + rr_count (red (rq_question request)) +
              total_count red (analysis_strings out)) reason), sv) = (r, sv')" by simp
          then show ?thesis by (rule declined)
        next
          case None
          obtain sv1 where reg: "register aid (map proposal_at (List.enumerate 1 (pa_remediations ?s))) sv = (Inr (), sv1)"
            using register_ok[OF l] by (metis (no_types, lifting))
          have "map_res new_proposal (List.enumerate 1 (pa_remediations ?s)) = Inr (map proposal_at (List.enumerate 1 (pa_remediations ?s)))"
            using wf by (intro map_res_proposals) (simp add: wf_analysis_def)
          with a False wf None reg have "r = Inr (accepted_response name aid ev (n0 + rr_count (red (rq_question request)) +
              total_count red (analysis_strings out)) ?s) \<and> sv' = sv1"
            by (simp add: accepted_response_def)
          with out False wf None reg show ?thesis by auto
        qed
      qed
    qed
  qed
qed

lemma in_proposals:
  "p \<in> set (map proposal_at (List.enumerate i rs)) \<Longrightarrow>
   \<exists>x \<in> set rs. pr_action p = pr_action x \<and> pr_rationale p = pr_rationale x \<and> pr_citations p = pr_citations x \<and>
     rp_approval_status p = ''requires_human_approval''"
  by (induction rs arbitrary: i) (auto simp: proposal_at_def)

text \<open>Claims and remediations that cite something, and only the evidence.\<close>

abbreviation supported :: "EvidenceItem list \<Rightarrow> string list \<Rightarrow> bool" where
  "supported ev cs \<equiv> cs \<noteq> [] \<and> set cs \<subseteq> set (map ev_id ev)"

lemma citations_supported:
  assumes "wf_analysis safe" and "citation_error safe ev = None" and "\<not> pa_abstained safe"
  shows "pa_claims safe \<noteq> [] \<and> (\<forall>x \<in> set (pa_claims safe). supported ev (cl_citations x)) \<and>
    (\<forall>x \<in> set (pa_remediations safe). supported ev (pr_citations x))"
proof -
  from assms(2,3) have c: "pa_claims safe \<noteq> []" "set (cited safe) \<subseteq> set (map ev_id ev)" by (simp_all add: citation_error_None)
  have "cl_citations x \<noteq> [] \<and> set (cl_citations x) \<subseteq> set (cited safe)" if "x \<in> set (pa_claims safe)" for x
    using that assms(1) by (auto simp: wf_analysis_def list_all_iff wf_claim_def count_between_def cited_def)
  moreover have "pr_citations x \<noteq> [] \<and> set (pr_citations x) \<subseteq> set (cited safe)" if "x \<in> set (pa_remediations safe)" for x
    using that assms(1) by (auto simp: wf_analysis_def list_all_iff wf_remediation_def count_between_def cited_def)
  ultimately show ?thesis using c by blast
qed

lemma analyze_guarded:
  assumes "model_codec_ok k" and "0 \<le> sv_registry_limit sv" and "analyze k redact name ask fresh request sv = (r, sv')"
  shows "\<exists>a. r = Inr a \<and> read_only (ar_safety a) \<and> \<not> can_execute (ar_safety a) \<and> approval_required (ar_safety a) \<and>
    ar_evidence a = map (evidence_item redact) (List.enumerate 1 (rq_evidence request)) \<and>
    (if ar_abstained a then ar_claims a = [] \<and> ar_proposals a = []
     else ar_claims a \<noteq> [] \<and>
       (\<forall>c \<in> set (ar_claims a). cl_citations c \<noteq> [] \<and> set (cl_citations c) \<subseteq> set (map ev_id (ar_evidence a))) \<and>
       (\<forall>p \<in> set (ar_proposals a). pr_citations p \<noteq> [] \<and> set (pr_citations p) \<subseteq> set (map ev_id (ar_evidence a)) \<and>
          rp_approval_status p = ''requires_human_approval'') \<and> distinct (map rp_id (ar_proposals a)))"
proof -
  define ev where "ev = fst (prepare_evidence redact (rq_evidence request))"
  then have ev: "ev = map (evidence_item redact) (List.enumerate 1 (rq_evidence request))" by (simp add: prepare_evidence_eq)
  from analyze_cases[OF assms refl ev_def]
  consider (no) n reason where "r = Inr (abstention name (''analysis-'' @ uuid_str fresh) ev n reason)"
    | (yes) n safe where "r = Inr (accepted_response name (''analysis-'' @ uuid_str fresh) ev n safe)" "wf_analysis safe" "citation_error safe ev = None"
    by blast
  then show ?thesis
  proof cases
    case no
    then show ?thesis using ev by (simp add: abstention_def default_boundary_def)
  next
    case yes
    let ?ps = "map proposal_at (List.enumerate 1 (pa_remediations safe))"
    have ab: "pa_abstained safe \<Longrightarrow> pa_claims safe = [] \<and> pa_remediations safe = []" using yes(3) by (simp add: citation_error_None)
    have "supported ev (pr_citations p) \<and> rp_approval_status p = ''requires_human_approval''"
      if "\<not> pa_abstained safe" "p \<in> set ?ps" for p
    proof -
      from in_proposals[OF that(2)] obtain x where "x \<in> set (pa_remediations safe)" "pr_citations p = pr_citations x"
        "rp_approval_status p = ''requires_human_approval''" by blast
      with citations_supported[OF yes(2,3) that(1)] show ?thesis by simp
    qed
    with ab citations_supported[OF yes(2,3)] distinct_proposal_ids[of 1 "pa_remediations safe"] show ?thesis
      unfolding yes(1) ev[symmetric]
      by (intro exI[of _ "accepted_response name (''analysis-'' @ uuid_str fresh) ev n safe"])
        (simp add: accepted_response_def default_boundary_def del: set_map List.map.compositionality)
  qed
qed

text \<open>
  C10: The assistant fails closed. Whatever the provider returns or raises, an analysis yields a response
  with the read-only safety boundary. Either it abstains, with no claims and no proposals, or it has at
  least one claim, every claim and every proposal cites at least one item and only items of the evidence
  that was supplied, and every proposal has its own id and requires human approval.
\<close>

theorem analyze_fails_closed:
  assumes "model_codec_ok k" and "0 \<le> sv_registry_limit sv" and "analyze k redact name ask fresh request sv = (r, sv')"
  shows "\<exists>a. r = Inr a \<and> read_only (ar_safety a) \<and> \<not> can_execute (ar_safety a) \<and> approval_required (ar_safety a) \<and>
    ar_evidence a = map (evidence_item redact) (List.enumerate 1 (rq_evidence request)) \<and>
    (if ar_abstained a then ar_claims a = [] \<and> ar_proposals a = []
     else ar_claims a \<noteq> [] \<and>
       (\<forall>c \<in> set (ar_claims a). cl_citations c \<noteq> [] \<and> set (cl_citations c) \<subseteq> set (map ev_id (ar_evidence a))) \<and>
       (\<forall>p \<in> set (ar_proposals a). pr_citations p \<noteq> [] \<and> set (pr_citations p) \<subseteq> set (map ev_id (ar_evidence a)) \<and>
          rp_approval_status p = ''requires_human_approval'') \<and> distinct (map rp_id (ar_proposals a)))"
  using assms by (rule analyze_guarded)

definition example_request :: AnalysisRequest where
  "example_request = \<lparr>rq_question = ''why'', rq_evidence = [\<lparr>ei_source = ''ok'', ei_content = ''up'', ei_observed_at = None\<rparr>]\<rparr>"

abbreviation example_ask :: ask where
  "example_ask \<equiv> (\<lambda>q ev. Inr example_analysis)"

lemma show_nat_1 [simp]: "show_nat (Suc 0) = ''1''"
  by code_simp

lemma example_analyze:
  assumes "1 \<le> limit"
  shows "analyze example_model_codec redact name example_ask 1 example_request (new_service limit) =
     (Inr (accepted_response name (''analysis-'' @ uuid_str 1)
        [\<lparr>ev_id = ''E1'', ev_source = ''ok'', ev_content = ''up'', ev_observed_at = None\<rparr>] 0 example_analysis),
      \<lparr>sv_registry_limit = limit, sv_proposals = [((''analysis-'' @ uuid_str 1, ''proposal-1''), None)]\<rparr>)"
proof -
  let ?ev = "[\<lparr>ev_id = ''E1'', ev_source = ''ok'', ev_content = ''up'', ev_observed_at = None\<rparr>]"
  have "prepare_evidence redact (rq_evidence example_request) = (?ev, 0)"
    by (simp add: example_request_def prepare_evidence_def evidence_item_def evidence_count_def)
  moreover have "redact (rq_question example_request) = \<lparr>rr_text = ''why'', rr_count = 0\<rparr>" by (simp add: example_request_def)
  moreover have "redact_provider_output example_model_codec redact example_analysis = Inr (example_analysis, 0)"
    by (simp add: redact_provider_output_eq[OF example_model_codec_ok] example_analysis_plain)
  moreover have "citation_error example_analysis ?ev = None" by (simp add: citation_error_None example_analysis_def cited_def)
  moreover have "map_res new_proposal (List.enumerate 1 (pa_remediations example_analysis)) =
      Inr (map proposal_at (List.enumerate 1 (pa_remediations example_analysis)))"
    using example_analysis_plain(2) by (intro map_res_proposals) (simp add: wf_analysis_def)
  moreover have "Suc 0 - nat limit = 0" "0 \<le> limit" using assms by simp_all
  ultimately show ?thesis
    by (simp add: analyze_def register_ok new_service_def accepted_response_def example_analysis_def proposal_at_def Let_def)
qed

theorem analyze_fails_closed_witness:
  "\<exists>a sv'. analyze example_model_codec redact ''offline'' example_ask 1 example_request (new_service 10) = (Inr a, sv') \<and>
     \<not> ar_abstained a \<and> ar_claims a \<noteq> [] \<and> \<not> can_execute (ar_safety a)"
proof -
  have "0 \<le> sv_registry_limit (new_service 10)" by (simp add: new_service_def)
  from analyze_fails_closed[OF example_model_codec_ok this example_analyze[of 10 "''offline''"]] example_analyze[of 10 "''offline''"]
  show ?thesis by (simp add: accepted_response_def example_analysis_def)
qed

text \<open>
  A provider that raises cannot break the service: the exception becomes an abstention that names its
  class, the registry is untouched, and the same holds when the redacted output breaks the output model.
\<close>

theorem provider_failure_abstains:
  assumes "rq_evidence request \<noteq> []"
    and "evidence = map (evidence_item redact) (List.enumerate 1 (rq_evidence request))"
    and "res_bind (ask (rr_text (redact (rq_question request))) evidence) (redact_provider_output k redact) = Inl e"
  shows "\<exists>a. analyze k redact name ask fresh request sv = (Inr a, sv) \<and> ar_abstained a \<and> ar_claims a = [] \<and>
    ar_proposals a = [] \<and> ar_evidence a = evidence \<and>
    ar_reason a = Some (''Provider output was unavailable or invalid ('' @ error_name e @ '').'')"
proof -
  have "evidence \<noteq> []" using assms(1,2) by (cases "rq_evidence request") simp_all
  with assms(2,3) show ?thesis
    by (simp add: analyze_def prepare_evidence_eq abstention_def Let_def)
qed

theorem provider_failure_abstains_witness:
  "\<exists>a. analyze example_model_codec redact ''openai'' (\<lambda>q ev. Inl (ServiceError ''ReadTimeout'')) 1 example_request (new_service 10) =
     (Inr a, new_service 10) \<and> ar_reason a = Some ''Provider output was unavailable or invalid (ReadTimeout).''"
proof -
  have "rq_evidence example_request \<noteq> []" by (simp add: example_request_def)
  from provider_failure_abstains[OF this refl, where ask = "\<lambda>q ev. Inl (ServiceError ''ReadTimeout'')" and k = example_model_codec
      and e = "ServiceError ''ReadTimeout''" and name = "''openai''" and fresh = 1 and sv = "new_service 10"]
  show ?thesis by auto
qed

section \<open>No private key in what is answered\<close>

definition key_free :: "string \<Rightarrow> bool" where
  "key_free t \<longleftrightarrow> (\<nexists>u v. t = u @ v \<and> pem_block v)"

lemma key_free_redact: "key_free (rr_text (redact s))"
  using redact_no_key by (auto simp: key_free_def)

lemma key_free_analysis: "list_all key_free (analysis_strings (redact_analysis redact a))"
  by (auto simp: list_all_iff analysis_strings_def redact_analysis_def redact_claim_def redact_remediation_def key_free_redact
      split: option.splits)

text \<open>The texts of a response: its evidence, summary, claims and proposals.\<close>

definition response_strings :: "AnalysisResponse \<Rightarrow> string list" where
  "response_strings a = ar_summary a # concat (map (\<lambda>e. [ev_source e, ev_content e]) (ar_evidence a)) @
     concat (map (\<lambda>c. cl_text c # cl_citations c) (ar_claims a)) @
     concat (map (\<lambda>p. pr_action p # pr_rationale p # pr_citations p) (ar_proposals a))"

lemma key_free_no_dash: "CHR ''-'' \<notin> set t \<Longrightarrow> key_free t"
  unfolding key_free_def using pem_block_hd by (metis Un_iff list.set_sel(1) set_append)

text \<open>
  No private key reaches the provider or the operator: the question and every evidence text handed to the
  provider, and every evidence text, summary, claim and proposal of the response, are free of complete
  private key blocks, whatever the provider answers. The request reaches the provider only through
  these redacted texts.
\<close>

theorem no_private_key_leaves:
  assumes "model_codec_ok k" and "0 \<le> sv_registry_limit sv" and "analyze k redact name ask fresh request sv = (Inr a, sv')"
    and "evidence = map (evidence_item redact) (List.enumerate 1 (rq_evidence request))"
  shows "key_free (rr_text (redact (rq_question request))) \<and>
    (\<forall>e \<in> set evidence. key_free (ev_source e) \<and> key_free (ev_content e)) \<and> list_all key_free (response_strings a) \<and>
    (\<forall>ask'. ask' (rr_text (redact (rq_question request))) evidence = ask (rr_text (redact (rq_question request))) evidence \<longrightarrow>
       analyze k redact name ask' fresh request sv = (Inr a, sv'))"
proof -
  have pe: "fst (prepare_evidence redact (rq_evidence request)) = evidence" using assms(4) by (simp add: prepare_evidence_eq)
  have ev: "\<forall>e \<in> set evidence. key_free (ev_source e) \<and> key_free (ev_content e)"
    using assms(4) by (auto simp: evidence_item_def key_free_redact)
  have "list_all key_free (response_strings a)"
    using analyze_cases[OF assms(1-3) refl pe[symmetric]]
  proof (elim disjE exE conjE)
    fix n reason
    assume "Inr a = (Inr (abstention name (''analysis-'' @ uuid_str fresh) evidence n reason) :: AnalysisResponse res)"
    then show ?thesis using ev by (auto simp: abstention_def response_strings_def list_all_iff key_free_no_dash)
  next
    fix out safe n
    assume s: "safe = redact_analysis redact out"
      and "Inr a = (Inr (accepted_response name (''analysis-'' @ uuid_str fresh) evidence n safe) :: AnalysisResponse res)"
    then have a: "a = accepted_response name (''analysis-'' @ uuid_str fresh) evidence n safe" by simp
    have p: "\<exists>x \<in> set (pa_remediations safe). pr_action p = pr_action x \<and> pr_rationale p = pr_rationale x \<and> pr_citations p = pr_citations x"
      if "p \<in> set (ar_proposals a)" for p using that in_proposals unfolding a accepted_response_def by fastforce
    show ?thesis using key_free_analysis[of out] ev p
      by (fastforce simp: s[symmetric] a accepted_response_def response_strings_def analysis_strings_def list_all_iff)
  qed
  moreover have "analyze k redact name ask' fresh request sv = (Inr a, sv')"
    if "ask' (rr_text (redact (rq_question request))) evidence = ask (rr_text (redact (rq_question request))) evidence" for ask'
  proof -
    have "analyze k redact name ask' fresh request sv = analyze k redact name ask fresh request sv"
      unfolding analyze_def Let_def prepare_evidence_eq split assms(4)[symmetric] that ..
    with assms(3) show ?thesis by simp
  qed
  ultimately show ?thesis using ev key_free_redact by blast
qed

theorem no_private_key_leaves_witness:
  "\<exists>a sv'. analyze example_model_codec redact ''offline'' example_ask 1 example_request (new_service 10) = (Inr a, sv') \<and>
     list_all key_free (response_strings a)"
proof -
  have "0 \<le> sv_registry_limit (new_service 10)" by (simp add: new_service_def)
  from no_private_key_leaves[OF example_model_codec_ok this example_analyze[of 10 "''offline''"] refl] example_analyze[of 10 "''offline''"]
  show ?thesis by auto
qed

section \<open>The registry and the reviews\<close>

abbreviation receipt_key :: "ReviewReceipt \<Rightarrow> proposal_key" where
  "receipt_key rc \<equiv> (rc_analysis_id rc, rc_proposal_id rc)"

text \<open>
  The runs of one service: the analyses, each with a fresh UUID, and the reviews, in any order. The state
  carries the analysis ids given out and the receipts returned so far.
\<close>

inductive service_run :: "model_codec \<Rightarrow> int \<Rightarrow> AssistantService \<Rightarrow> uuid set \<Rightarrow> ReviewReceipt list \<Rightarrow> bool" for k limit where
  start: "service_run k limit (new_service limit) {} []"
| analyzed: "service_run k limit sv ids rcs \<Longrightarrow> fresh \<notin> ids \<Longrightarrow> analyze k redact name ask fresh request sv = (r, sv') \<Longrightarrow>
    service_run k limit sv' (insert fresh ids) rcs"
| reviewed: "service_run k limit sv ids rcs \<Longrightarrow> review fresh now request sv = (Inr rc, sv') \<Longrightarrow>
    service_run k limit sv' ids (rc # rcs)"
| refused: "service_run k limit sv ids rcs \<Longrightarrow> review fresh now request sv = (Inl e, sv') \<Longrightarrow>
    service_run k limit sv' ids rcs"

definition run_inv :: "int \<Rightarrow> AssistantService \<Rightarrow> uuid set \<Rightarrow> ReviewReceipt list \<Rightarrow> bool" where
  "run_inv limit sv ids rcs \<longleftrightarrow>
     sv_registry_limit sv = limit \<and> distinct (map fst (sv_proposals sv)) \<and> int (length (sv_proposals sv)) \<le> limit \<and>
     (\<forall>key \<in> fst ` set (sv_proposals sv). \<exists>u \<in> ids. fst key = ''analysis-'' @ uuid_str u) \<and>
     (\<forall>rc \<in> set rcs. (\<exists>u \<in> ids. rc_analysis_id rc = ''analysis-'' @ uuid_str u) \<and> \<not> rc_execution_available rc \<and>
        map_of (sv_proposals sv) (receipt_key rc) \<noteq> Some None) \<and>
     distinct (map receipt_key rcs)"

lemma foldl_update_keys:
  "distinct (map fst d) \<Longrightarrow> distinct (map fst (foldl (\<lambda>d p. AList.update (aid, f p) v d) d ps)) \<and>
   fst ` set (foldl (\<lambda>d p. AList.update (aid, f p) v d) d ps) = fst ` set d \<union> (\<lambda>p. (aid, f p)) ` set ps"
  by (induction ps arbitrary: d) (auto simp: distinct_update dom_update)

lemma foldl_update_other:
  "fst key \<noteq> aid \<Longrightarrow> map_of (foldl (\<lambda>d p. AList.update (aid, f p) v d) d ps) key = map_of d key"
  by (induction ps arbitrary: d) (auto simp: update_conv)

lemma map_of_drop:
  assumes "distinct (map fst d)" and "map_of (drop n d) key = Some v"
  shows "map_of d key = Some v"
proof -
  from assms(2) have "(key, v) \<in> set d" by (meson in_set_dropD map_of_SomeD)
  with assms(1) show ?thesis by simp
qed

lemma length_update_mem: "x \<in> fst ` set d \<Longrightarrow> length (AList.update x v d) = length d"
  by (induction d) auto

lemma register_inv:
  assumes inv: "run_inv limit sv ids rcs" and "0 \<le> limit" and fresh: "fresh \<notin> ids"
    and aid: "aid = ''analysis-'' @ uuid_str fresh"
  shows "run_inv limit (snd (register aid ps sv)) (insert fresh ids) rcs"
proof -
  define d where "d = foldl (\<lambda>d p. AList.update (aid, rp_id p) None d) (sv_proposals sv) ps"
  define m where "m = length d - nat limit"
  have keys: "distinct (map fst d)" "fst ` set d = fst ` set (sv_proposals sv) \<union> (\<lambda>p. (aid, rp_id p)) ` set ps"
    using foldl_update_keys[of "sv_proposals sv" aid rp_id None ps] inv by (auto simp: d_def run_inv_def)
  have sv': "snd (register aid ps sv) = sv\<lparr>sv_proposals := drop m d\<rparr>"
    using inv assms(2) register_ok[of sv aid ps] by (simp add: d_def m_def run_inv_def Let_def)
  have old: "map_of (drop m d) (receipt_key rc) \<noteq> Some None" if rc: "rc \<in> set rcs" for rc
  proof -
    from inv rc obtain u where "u \<in> ids" "rc_analysis_id rc = ''analysis-'' @ uuid_str u" by (auto simp: run_inv_def)
    with fresh have "fst (receipt_key rc) \<noteq> aid" by (auto simp: aid)
    then have "map_of d (receipt_key rc) = map_of (sv_proposals sv) (receipt_key rc)" by (simp add: d_def foldl_update_other)
    with inv rc map_of_drop[OF keys(1), of m "receipt_key rc"] show ?thesis by (auto simp: run_inv_def)
  qed
  have len: "int (length (drop m d)) \<le> limit" using assms(2) by (simp add: m_def)
  have ids: "\<exists>u \<in> insert fresh ids. fst key = ''analysis-'' @ uuid_str u" if "key \<in> fst ` set (drop m d)" for key
  proof -
    have "key \<in> fst ` set d" using that set_drop_subset[of m d] by auto
    with keys(2) inv show ?thesis by (auto simp: run_inv_def aid)
  qed
  have "distinct (map fst (drop m d))" using keys(1) by (metis distinct_drop drop_map)
  with inv old len ids sv' show ?thesis by (simp add: run_inv_def)
qed

lemma analyze_inv:
  assumes "model_codec_ok k" and "0 \<le> limit" and inv: "run_inv limit sv ids rcs" and fresh: "fresh \<notin> ids"
    and a: "analyze k redact name ask fresh request sv = (r, sv')"
  shows "run_inv limit sv' (insert fresh ids) rcs"
proof -
  have "0 \<le> sv_registry_limit sv" using inv assms(2) by (simp add: run_inv_def)
  from analyze_cases[OF assms(1) this a refl refl] consider "sv' = sv" | ps where "sv' = snd (register (''analysis-'' @ uuid_str fresh) ps sv)"
    by blast
  then show ?thesis
  proof cases
    case 1
    with inv show ?thesis by (auto simp: run_inv_def)
  next
    case 2
    with register_inv[OF inv assms(2) fresh refl] show ?thesis by simp
  qed
qed

lemma review_accepts:
  assumes "review fresh now request sv = (Inr rc, sv')"
  shows "receipt_key rc = (rv_analysis_id request, rv_proposal_id request) \<and> \<not> rc_execution_available rc \<and>
    map_of (sv_proposals sv) (receipt_key rc) = Some None \<and>
    sv' = sv\<lparr>sv_proposals := AList.update (receipt_key rc) (Some rc) (sv_proposals sv)\<rparr>"
  using assms by (auto simp: review_def Let_def split: option.splits)

lemma review_refuses: "review fresh now request sv = (Inl e, sv') \<Longrightarrow> sv' = sv"
  by (auto simp: review_def Let_def split: option.splits)

lemma review_inv:
  assumes inv: "run_inv limit sv ids rcs" and r: "review fresh now request sv = (Inr rc, sv')"
  shows "run_inv limit sv' ids (rc # rcs)"
proof -
  let ?key = "receipt_key rc" and ?d = "sv_proposals sv"
  note rc = review_accepts[OF r]
  have mem: "?key \<in> fst ` set ?d" using rc by (metis (no_types, lifting) fst_conv image_eqI map_of_SomeD)
  then have keys: "fst ` set (AList.update ?key (Some rc) ?d) = fst ` set ?d" by (simp add: dom_update insert_absorb)
  have dist: "distinct (map fst (AList.update ?key (Some rc) ?d))" using inv by (simp add: run_inv_def distinct_update)
  have len: "length (AList.update ?key (Some rc) ?d) = length ?d"
    using mem by (rule length_update_mem)
  have "?key \<notin> receipt_key ` set rcs" using inv rc by (auto simp: run_inv_def)
  moreover have "\<exists>u \<in> ids. fst ?key = ''analysis-'' @ uuid_str u" using mem inv unfolding run_inv_def by blast
  ultimately show ?thesis using inv rc keys dist len by (auto simp: run_inv_def update_conv)
qed

lemma service_run_inv:
  assumes "service_run k limit sv ids rcs" and "model_codec_ok k" and "0 \<le> limit"
  shows "run_inv limit sv ids rcs"
  using assms(1)
proof (induction rule: service_run.induct)
  case start
  with assms(3) show ?case by (simp add: run_inv_def new_service_def)
next
  case (analyzed sv ids rcs fresh name ask request r sv')
  then show ?case using analyze_inv assms(2,3) by blast
next
  case (reviewed sv ids rcs fresh now request rc sv')
  then show ?case using review_inv by blast
next
  case (refused sv ids rcs fresh now request e sv')
  then show ?case using review_refuses by blast
qed

text \<open>
  C11: Over any run of the service, whatever the provider does and in whatever order analyses and reviews
  come, no proposal gets two decisions, every receipt is for an analysis this service made and offers no
  execution, and the registry never holds more entries than its limit.
\<close>

theorem reviewed_at_most_once:
  assumes "model_codec_ok k" and "0 \<le> limit" and "service_run k limit sv ids rcs"
  shows "distinct (map (\<lambda>rc. (rc_analysis_id rc, rc_proposal_id rc)) rcs) \<and>
    (\<forall>rc \<in> set rcs. \<not> rc_execution_available rc \<and> (\<exists>u \<in> ids. rc_analysis_id rc = ''analysis-'' @ uuid_str u)) \<and>
    int (length (sv_proposals sv)) \<le> limit"
  using service_run_inv[OF assms(3,1,2)] by (auto simp: run_inv_def)

definition example_review :: ReviewRequest where
  "example_review = \<lparr>rv_analysis_id = ''analysis-'' @ uuid_str 1, rv_proposal_id = ''proposal-1'', rv_reviewer = ''ann'',
     rv_decision = ApprovedDecision, rv_rationale = ''fine''\<rparr>"

theorem reviewed_at_most_once_witness:
  "\<exists>sv rc. service_run example_model_codec 10 sv {1} [rc] \<and> rc_decision rc = ApprovedDecision \<and> length (sv_proposals sv) \<le> 10"
proof -
  let ?aid = "''analysis-'' @ uuid_str 1"
  let ?sv = "\<lparr>sv_registry_limit = 10, sv_proposals = [((?aid, ''proposal-1''), None)]\<rparr>"
  have 1: "service_run example_model_codec 10 ?sv {1} []"
    using analyzed[OF start _ example_analyze[of 10 "''offline''"]] by simp
  have "\<exists>rc sv'. review 2 (utc_at 0) example_review ?sv = (Inr rc, sv') \<and> rc_decision rc = ApprovedDecision"
    by (simp add: review_def example_review_def Let_def)
  then obtain rc sv' where "review 2 (utc_at 0) example_review ?sv = (Inr rc, sv')" "rc_decision rc = ApprovedDecision" by blast
  then have "service_run example_model_codec 10 sv' {1} [rc]" "rc_decision rc = ApprovedDecision" using reviewed[OF 1] by blast+
  with reviewed_at_most_once[OF example_model_codec_ok _ this(1)] show ?thesis by force
qed

text \<open>
  The review route: an invalid body is refused with 422, an unknown analysis or proposal with 404, and a
  proposal that already has a decision with 409, none of them changing the registry; otherwise the decision
  is recorded, and from then on every further review of the same proposal is answered with 409.
\<close>

theorem review_route_outcomes:
  "(case validate_review k payload of
      None \<Rightarrow> review_route k fresh now payload sv = (Inl ValidationError, sv) \<and> status_of_error ValidationError = 422
    | Some request \<Rightarrow>
        (case map_of (sv_proposals sv) (rv_analysis_id request, rv_proposal_id request) of
           None \<Rightarrow> review_route k fresh now payload sv = (Inl (HTTPException 404 ''analysis/proposal pair was not generated here''), sv)
         | Some (Some old) \<Rightarrow> review_route k fresh now payload sv = (Inl (HTTPException 409 ''proposal already has a recorded decision''), sv)
         | Some None \<Rightarrow> \<exists>rc sv'. review_route k fresh now payload sv = (Inr rc, sv') \<and> rc_decision rc = rv_decision request \<and>
             rc_reviewer rc = rv_reviewer request \<and> \<not> rc_execution_available rc \<and>
             map_of (sv_proposals sv') (rv_analysis_id request, rv_proposal_id request) = Some (Some rc) \<and>
             review_route k fresh2 now2 payload sv' = (Inl (HTTPException 409 ''proposal already has a recorded decision''), sv')))"
  by (auto simp: review_route_def review_def status_of_error_def update_conv Let_def split: option.split)

end
