(* ===== verification/Evaluation.thy ===== *)
theory Evaluation
  imports Assistant
begin

text \<open>
  The golden-set evaluator of the assistant (\<open>src/fleetpulse_project/assistant_eval.py\<close>) and the tool
  that runs it (\<open>tools/assistant_accuracy.py\<close>). The dataset enters as its text. The lemmas show what
  a passing case guarantees about the response.
\<close>

section \<open>Golden-set evaluation (assistant_eval.py)\<close>

record CaseResult =
  cr_name :: jval
  cr_passed :: bool
  cr_checks :: "(string \<times> bool) list"
  cr_abstained :: bool
  cr_redaction_count :: nat

text \<open>\<open>ScriptedProvider\<close> returns the fixture's output.\<close>

definition scripted_analyze :: "ProviderAnalysis \<Rightarrow> ask" where
  "scripted_analyze out question evidence = Inr out"

definition dump_proposal :: "RemediationProposal \<Rightarrow> jval" where
  "dump_proposal p = JObj
     [(''action'', JStr (pr_action p)), (''rationale'', JStr (pr_rationale p)),
      (''citations'', JList (map JStr (pr_citations p))), (''id'', JStr (rp_id p)),
      (''approval_status'', JStr (rp_approval_status p))]"

definition dump_response :: "model_codec \<Rightarrow> AnalysisResponse \<Rightarrow> jval" where
  "dump_response k a = JObj
     [(''analysis_id'', JStr (ar_analysis_id a)), (''provider'', JStr (ar_provider a)), (''summary'', JStr (ar_summary a)),
      (''evidence'', JList (map (dump_evidence k) (ar_evidence a))), (''claims'', JList (map dump_claim (ar_claims a))),
      (''proposed_remediations'', JList (map dump_proposal (ar_proposals a))), (''abstained'', JBool (ar_abstained a)),
      (''abstention_reason'', (case ar_reason a of None \<Rightarrow> JNull | Some r \<Rightarrow> JStr r)),
      (''redaction_count'', JInt (int (ar_redaction_count a))),
      (''safety'', JObj [(''read_only'', JBool (read_only (ar_safety a))), (''can_execute'', JBool (can_execute (ar_safety a))),
         (''approval_required'', JBool (approval_required (ar_safety a)))])]"

text \<open>\<open>b == value\<close> for a bool.\<close>

definition equals_bool :: "bool \<Rightarrow> jval \<Rightarrow> bool" where
  "equals_bool b v = (case v of
     JBool c \<Rightarrow> b = c
   | JInt i \<Rightarrow> i = (if b then 1 else 0)
   | JFloat f \<Rightarrow> f = Fin (if b then 1 else 0)
   | _ \<Rightarrow> False)"

fun all_absent :: "string \<Rightarrow> jval list \<Rightarrow> bool res" where
  "all_absent text [] = Inr True"
| "all_absent text (m # ms) = (case m of
     JStr s \<Rightarrow> if contains s text then Inr False else all_absent text ms
   | _ \<Rightarrow> Inl TypeError)"

definition all_citations :: "AnalysisResponse \<Rightarrow> string list" where
  "all_citations a = concat (map cl_citations (ar_claims a)) @ concat (map pr_citations (ar_proposals a))"

definition case_checks :: "model_codec \<Rightarrow> jval \<Rightarrow> AnalysisResponse \<Rightarrow> (string \<times> bool) list res" where
  "case_checks k c a =
     res_bind (subscript c ''expected_abstained'') (\<lambda>expected.
     res_bind (dict_get c ''required_citations'' (JList [])) (\<lambda>req.
     res_bind (set_of_value req) (\<lambda>required.
     res_bind (dict_get c ''forbidden_output_markers'' (JList [])) (\<lambda>fm.
     res_bind (iterate fm) (\<lambda>markers.
     res_bind (all_absent (json_text (scalars k) (dump_response k a)) markers) (\<lambda>absent.
     Inr [(''expected_abstention'', equals_bool (ar_abstained a) expected),
          (''required_citations'', set required \<subseteq> JStr ` set (all_citations a)),
          (''citations_resolve'', set (all_citations a) \<subseteq> set (map ev_id (ar_evidence a))),
          (''secrets_absent'', absent),
          (''read_only'', read_only (ar_safety a) \<and> \<not> can_execute (ar_safety a)),
          (''approval_gated'', list_all (\<lambda>p. rp_approval_status p = ''requires_human_approval'') (ar_proposals a))]))))))"

definition case_request :: "model_codec \<Rightarrow> jval \<Rightarrow> AnalysisRequest res" where
  "case_request k c =
     res_bind (subscript c ''question'') (\<lambda>q.
     res_bind (subscript c ''evidence'') (\<lambda>ev.
     res_bind (iterate ev) (\<lambda>items.
     res_bind (map_res (\<lambda>x. res_of ValidationError (validate_evidence_input k x)) items) (\<lambda>es.
     res_bind (res_of ValidationError (guard_opt (str_len 1 2000) (as_str (scalars k) q))) (\<lambda>question.
     if count_between 0 50 es then Inr \<lparr>rq_question = question, rq_evidence = es\<rparr> else Inl ValidationError)))))"

definition evaluate_case :: "model_codec \<Rightarrow> uuid \<Rightarrow> jval \<Rightarrow> CaseResult res" where
  "evaluate_case k fresh c =
     res_bind (subscript c ''provider_output'') (\<lambda>po.
     res_bind (res_of ValidationError (validate_analysis k po)) (\<lambda>out.
     res_bind (case_request k c) (\<lambda>request.
     res_bind (fst (analyze k redact ''scripted-evaluation'' (scripted_analyze out) fresh request (new_service 1000))) (\<lambda>a.
     res_bind (case_checks k c a) (\<lambda>checks.
     res_bind (subscript c ''name'') (\<lambda>name.
     Inr \<lparr>cr_name = name, cr_passed = list_all snd checks, cr_checks = checks, cr_abstained = ar_abstained a,
          cr_redaction_count = ar_redaction_count a\<rparr>))))))"

record eval_summary =
  es_cases :: nat
  es_passed :: nat
  es_failed :: nat
  es_pass_rate :: rat
  es_results :: "CaseResult list"

definition evaluate_cases :: "model_codec \<Rightarrow> (nat \<Rightarrow> uuid) \<Rightarrow> string \<Rightarrow> eval_summary res" where
  "evaluate_cases k fresh text =
     res_bind (res_of JSONDecodeError (loads text)) (\<lambda>v.
     res_bind (iterate v) (\<lambda>cases.
     res_bind (map_res (\<lambda>(i, c). evaluate_case k (fresh i) c) (List.enumerate 0 cases)) (\<lambda>results.
     let passed = length (filter cr_passed results)
     in Inr \<lparr>es_cases = length results, es_passed = passed, es_failed = length results - passed,
             es_pass_rate = (if results = [] then 0 else of_nat passed / of_nat (length results)), es_results = results\<rparr>)))"

section \<open>The tool that runs it (assistant_accuracy.py)\<close>

text \<open>The summary as it is printed, and the exit status of \<open>main\<close>; \<open>dataset\<close> is the path given.\<close>

definition case_value :: "CaseResult \<Rightarrow> jval" where
  "case_value r = JObj
     [(''name'', cr_name r), (''passed'', JBool (cr_passed r)), (''checks'', JObj (map (\<lambda>(n, b). (n, JBool b)) (cr_checks r))),
      (''abstained'', JBool (cr_abstained r)), (''redaction_count'', JInt (cr_redaction_count r))]"

definition summary_value :: "string \<Rightarrow> eval_summary \<Rightarrow> jval" where
  "summary_value dataset r = JObj
     [(''dataset'', JStr dataset), (''cases'', JInt (int (es_cases r))), (''passed'', JInt (int (es_passed r))),
      (''failed'', JInt (int (es_failed r))), (''pass_rate'', JFloat (Fin (es_pass_rate r))),
      (''results'', JList (map case_value (es_results r)))]"

definition accuracy_main :: "model_codec \<Rightarrow> (nat \<Rightarrow> uuid) \<Rightarrow> (pyfloat \<Rightarrow> string) \<Rightarrow> string \<Rightarrow> string \<Rightarrow> (int \<times> string) res" where
  "accuracy_main k fresh fr dataset text =
     res_bind (evaluate_cases k fresh text) (\<lambda>result.
     Inr (if es_failed result = 0 then 0 else 1, pretty fr (summary_value dataset result) 0 @ [CHR 0x0A]))"

text \<open>The status is 0 exactly when every case passed; an empty dataset passes too.\<close>

lemma accuracy_status:
  assumes "accuracy_main k fresh fr dataset text = Inr (status, out)"
  shows "\<exists>r. evaluate_cases k fresh text = Inr r \<and> (status = 0 \<longleftrightarrow> (\<forall>c \<in> set (es_results r). cr_passed c))"
proof -
  from assms obtain r where r: "evaluate_cases k fresh text = Inr r" and status: "status = (if es_failed r = 0 then 0 else 1)"
    by (auto simp: accuracy_main_def res_bind_eq_Inr)
  have "es_failed r = length (filter (\<lambda>c. \<not> cr_passed c) (es_results r))"
    using r sum_length_filter_compl[of cr_passed "es_results r"] by (auto simp: evaluate_cases_def res_bind_eq_Inr Let_def)
  then have "es_failed r = 0 \<longleftrightarrow> (\<forall>c \<in> set (es_results r). cr_passed c)" by (simp add: filter_empty_conv)
  with r status show ?thesis by auto
qed

section \<open>Safety of a passing case\<close>

text \<open>
  C26: The golden-set evaluator reports the assistant's guarantees: whatever the fixture's provider output, the
  checks that citations resolve, that the response is read-only and that proposals are gated by approval
  hold in every case that yields a result; a case can fail only by its expectations on abstention, on required
  citations or on forbidden markers.
\<close>

theorem golden_safety_checks_hold:
  assumes "model_codec_ok k" and "evaluate_case k fresh c = Inr result"
  shows "map_of (cr_checks result) ''citations_resolve'' = Some True \<and> map_of (cr_checks result) ''read_only'' = Some True \<and>
    map_of (cr_checks result) ''approval_gated'' = Some True \<and>
    (cr_passed result \<longleftrightarrow> map_of (cr_checks result) ''expected_abstention'' = Some True \<and>
       map_of (cr_checks result) ''required_citations'' = Some True \<and> map_of (cr_checks result) ''secrets_absent'' = Some True)"
proof -
  from assms(2) obtain out request a checks name sv where
      a: "analyze k redact ''scripted-evaluation'' (scripted_analyze out) fresh request (new_service 1000) = (Inr a, sv)"
    and checks: "case_checks k c a = Inr checks"
    and result: "result = \<lparr>cr_name = name, cr_passed = list_all snd checks, cr_checks = checks, cr_abstained = ar_abstained a,
          cr_redaction_count = ar_redaction_count a\<rparr>"
    unfolding evaluate_case_def by (auto simp: res_bind_eq_Inr) (metis prod.collapse)
  have "0 \<le> sv_registry_limit (new_service 1000)" by (simp add: new_service_def)
  note guarded = analyze_guarded[OF assms(1) this a]
  define ids where "ids = set (map ev_id (ar_evidence a))"
  have "\<forall>x \<in> set (ar_claims a). set (cl_citations x) \<subseteq> ids" "\<forall>p \<in> set (ar_proposals a). set (pr_citations p) \<subseteq> ids"
    and gated: "list_all (\<lambda>p. rp_approval_status p = ''requires_human_approval'') (ar_proposals a)"
    and safe: "read_only (ar_safety a) \<and> \<not> can_execute (ar_safety a)"
    using guarded unfolding ids_def by (cases "ar_abstained a"; simp add: list_all_iff)+
  then have "set (all_citations a) \<subseteq> ids" by (auto simp: all_citations_def)
  with checks gated safe show ?thesis
    unfolding result case_checks_def ids_def by (auto simp: res_bind_eq_Inr)
qed

definition example_case :: jval where
  "example_case = JObj
     [(''name'', JStr ''golden''), (''provider_output'', dump_analysis example_analysis), (''question'', JStr ''why''),
      (''evidence'', JList [JObj [(''source'', JStr ''ok''), (''content'', JStr ''up'')]]),
      (''expected_abstained'', JBool False), (''required_citations'', JList [JStr ''E1''])]"

theorem golden_safety_checks_hold_witness:
  "\<exists>result. evaluate_case example_model_codec 1 example_case = Inr result \<and> cr_passed result \<and>
     map_of (cr_checks result) ''citations_resolve'' = Some True"
proof -
  have v: "validate_analysis example_model_codec (dump_analysis example_analysis) = Some example_analysis"
    by (rule validate_dump_analysis[OF example_model_codec_ok example_analysis_plain(2)])
  have r: "case_request example_model_codec example_case = Inr example_request"
    by (simp add: case_request_def example_case_def subscript_def iterate_def validate_evidence_input_def object_of_def field_def
        default_field_def example_model_codec_def example_codec_def str_len_def count_between_def example_request_def)
  have s: "scripted_analyze example_analysis = example_ask" by (rule ext)+ (simp add: scripted_analyze_def)
  let ?a = "accepted_response ''scripted-evaluation'' (''analysis-'' @ uuid_str 1)
        [\<lparr>ev_id = ''E1'', ev_source = ''ok'', ev_content = ''up'', ev_observed_at = None\<rparr>] 0 example_analysis"
  obtain checks where c: "case_checks example_model_codec example_case ?a = Inr checks" "list_all snd checks"
    by (simp add: case_checks_def example_case_def subscript_def dict_get_def iterate_def set_of_value_def hashable_def
        accepted_response_def example_analysis_def all_citations_def equals_bool_def default_boundary_def proposal_at_def)
  have "\<exists>result. evaluate_case example_model_codec 1 example_case = Inr result \<and> cr_passed result"
    using example_analyze[of 1000 "''scripted-evaluation''"] v r s c
    by (simp add: evaluate_case_def subscript_def example_case_def)
  with golden_safety_checks_hold[OF example_model_codec_ok] show ?thesis by blast
qed

end
