(* ===== verification/Performance.thy ===== *)
theory Performance
  imports Agent
begin

text \<open>
  The evidence helpers of \<open>src/fleetpulse_project\<close>: parsing and aggregation of performance
  measurements (\<open>performance.py\<close>) and the nearest-rank percentile (\<open>reliability.py\<close>).

  Files enter as their text. Sums, products and means of floats are exact, as everywhere in this
  development, except in the percentile, where rounding decides the rank and is an argument. \<open>str(x)\<close>
  of a value that is not a string is an argument.
\<close>

section \<open>Performance evidence (performance.py)\<close>

definition BYTE_UNITS :: "(string \<times> int) list" where
  "BYTE_UNITS = [(''B'', 1), (''KB'', 1000), (''MB'', 1000 ^ 2), (''GB'', 1000 ^ 3), (''KIB'', 1024), (''MIB'', 1024 ^ 2),
     (''GIB'', 1024 ^ 3)]"

definition parse_percent :: "string \<Rightarrow> pyfloat res" where
  "parse_percent value = float_of_text (removesuffix ''%'' (strip value))"

definition parse_bytes :: "string \<Rightarrow> int res" where
  "parse_bytes value =
     (let text = filter (\<lambda>c. c \<noteq> CHR '' '') (map upper_char (strip value))
      in case find (\<lambda>u. ends_with (fst u) text) (sort_reverse (\<lambda>u. length (fst u)) BYTE_UNITS) of
           None \<Rightarrow> Inl (ValueError (''unsupported byte value: '' @ value))
         | Some (unit, n) \<Rightarrow>
             res_bind (float_of_text (take (length text - length unit) text)) (\<lambda>x. py_round (fscale (of_int n) x)))"

definition k6_metrics :: "jval \<Rightarrow> (string \<times> pyfloat) list res" where
  "k6_metrics summary =
     res_bind (subscript summary ''metrics'') (\<lambda>metrics.
     res_bind (subscript metrics ''http_req_duration'') (\<lambda>duration.
     res_bind (subscript metrics ''http_reqs'') (\<lambda>requests.
     res_bind (subscript metrics ''http_req_failed'') (\<lambda>failures.
     res_bind (subscript metrics ''iterations'') (\<lambda>iterations.
     res_bind (dict_get duration ''values'' duration) (\<lambda>duration.
     res_bind (dict_get requests ''values'' requests) (\<lambda>requests.
     res_bind (dict_get failures ''values'' failures) (\<lambda>failures.
     res_bind (dict_get iterations ''values'' iterations) (\<lambda>iterations.
     map_res (\<lambda>(k, v, f). res_bind (subscript v f) (\<lambda>x. res_bind (py_float x) (\<lambda>y. Inr (k, y))))
       [(''requests'', requests, ''count''), (''throughput_rps'', requests, ''rate''), (''iterations'', iterations, ''count''),
        (''p50_ms'', duration, ''med''), (''p95_ms'', duration, ''p(95)''), (''p99_ms'', duration, ''p(99)''),
        (''error_rate'', failures,
           (case failures of JObj m \<Rightarrow> if map_of m ''rate'' \<noteq> None then ''rate'' else ''value'' | _ \<Rightarrow> ''value''))])))))))))"

text \<open>The samples of a file: per service, per sample id, the records.\<close>

type_synonym samples = "(string \<times> (int \<times> jval list) list) list"

definition add_to :: "'k \<Rightarrow> 'v \<Rightarrow> ('k \<times> 'v list) list \<Rightarrow> ('k \<times> 'v list) list" where
  "add_to k v d = AList.update k ((case map_of d k of None \<Rightarrow> [] | Some vs \<Rightarrow> vs) @ [v]) d"

definition read_sample :: "(jval \<Rightarrow> string) \<Rightarrow> nat \<times> string \<Rightarrow> samples \<Rightarrow> samples res" where
  "read_sample py_str ix d =
     (if strip (snd ix) = [] then Inr d
      else res_bind (res_of JSONDecodeError (loads (snd ix))) (\<lambda>rec.
           res_bind (dict_get rec ''sample_id'' (JInt (int (fst ix)))) (\<lambda>sid.
           res_bind (py_int sid) (\<lambda>sample_id.
           res_bind (subscript rec ''service'') (\<lambda>svc.
           Inr (AList.update (py_str svc)
             (add_to sample_id rec (case map_of d (py_str svc) of None \<Rightarrow> [] | Some b \<Rightarrow> b)) d))))))"

fun read_samples :: "(jval \<Rightarrow> string) \<Rightarrow> (nat \<times> string) list \<Rightarrow> samples \<Rightarrow> samples res" where
  "read_samples py_str [] d = Inr d"
| "read_samples py_str (l # ls) d = res_bind (read_sample py_str l d) (read_samples py_str ls)"

definition batch_totals :: "string \<Rightarrow> (int \<times> jval list) list \<Rightarrow> pyfloat list res" where
  "batch_totals f batches =
     map_res (\<lambda>(sid, recs). res_bind (map_res (\<lambda>r. res_bind (subscript r f) py_float) recs) (\<lambda>xs. Inr (fsum xs))) batches"

definition greatest :: "pyfloat list \<Rightarrow> pyfloat res" where
  "greatest xs = res_of (ValueError ''max() iterable argument is empty'') (first_max flt xs)"

definition service_metrics :: "string \<times> (int \<times> jval list) list \<Rightarrow> (string \<times> (string \<times> pyfloat) list) res" where
  "service_metrics sb =
     res_bind (batch_totals ''cpu_percent'' (snd sb)) (\<lambda>cpu.
     res_bind (batch_totals ''memory_bytes'' (snd sb)) (\<lambda>memory.
     res_bind (greatest cpu) (\<lambda>cpu_max.
     res_bind (greatest memory) (\<lambda>memory_max.
     Inr (fst sb, [(''cpu_median_percent'', median cpu), (''cpu_max_percent'', cpu_max),
        (''memory_max_bytes'', memory_max), (''samples'', Fin (of_nat (length (snd sb))))])))))"

definition resource_metrics :: "(jval \<Rightarrow> string) \<Rightarrow> string option \<Rightarrow> (string \<times> (string \<times> pyfloat) list) list res" where
  "resource_metrics py_str file =
     (case file of
        None \<Rightarrow> Inr []
      | Some text \<Rightarrow>
          res_bind (read_samples py_str (List.enumerate 0 (splitlines text)) []) (\<lambda>d. map_res service_metrics (sort_key fst d)))"

definition base_fields :: "string list" where
  "base_fields = [''requests'', ''throughput_rps'', ''p50_ms'', ''p95_ms'', ''p99_ms'', ''error_rate'', ''cache_hit_rate'',
     ''accepted_events'', ''worker_throughput_eps'', ''initial_backlog'', ''peak_backlog'', ''drain_seconds'']"

definition is_number :: "jval \<Rightarrow> bool" where
  "is_number v = (case v of JInt _ \<Rightarrow> True | JFloat _ \<Rightarrow> True | JBool _ \<Rightarrow> True | _ \<Rightarrow> False)"

definition aggregate_fields :: "(string \<times> jval) list list \<Rightarrow> string list" where
  "aggregate_fields results = sort (remdups (base_fields @
     concat (map (\<lambda>r. map fst (filter (\<lambda>kv. starts_with ''resource_'' (fst kv) \<and> is_number (snd kv)) r)) results)))"

fun group_results :: "(jval \<Rightarrow> string) \<Rightarrow> (string \<times> jval) list list \<Rightarrow> (string \<times> (string \<times> jval) list list) list \<Rightarrow>
    (string \<times> (string \<times> jval) list list) list res" where
  "group_results py_str [] d = Inr d"
| "group_results py_str (r # rs) d =
     res_bind (subscript (JObj r) ''experiment'') (\<lambda>e.
     res_bind (subscript (JObj r) ''configuration'') (\<lambda>c.
     group_results py_str rs (add_to (py_str e @ '':'' @ py_str c) r d)))"

definition observed_values :: "string \<Rightarrow> (string \<times> jval) list list \<Rightarrow> pyfloat list res" where
  "observed_values f recs =
     map_res (\<lambda>r. py_float (case map_of r f of Some v \<Rightarrow> v | None \<Rightarrow> JNull))
       (filter (\<lambda>r. map_of r f \<noteq> None \<and> map_of r f \<noteq> Some JNull) recs)"

definition aggregate_group :: "string list \<Rightarrow> string \<times> (string \<times> jval) list list \<Rightarrow> (string \<times> (string \<times> pyfloat) list) res" where
  "aggregate_group names kr =
     res_bind (map_res (\<lambda>f. res_bind (observed_values f (snd kr)) (\<lambda>xs. Inr (f, xs))) names) (\<lambda>fs.
     Inr (fst kr, (''repetitions'', Fin (of_nat (length (snd kr)))) #
       map (\<lambda>(f, xs). (f, median xs)) (filter (\<lambda>(f, xs). xs \<noteq> []) fs)))"

definition aggregate_results :: "(jval \<Rightarrow> string) \<Rightarrow> (string \<times> jval) list list \<Rightarrow> (string \<times> (string \<times> pyfloat) list) list res" where
  "aggregate_results py_str results =
     res_bind (group_results py_str results []) (\<lambda>grouped.
     map_res (aggregate_group (aggregate_fields results)) (sort_key fst grouped))"

section \<open>Nearest-rank percentile (reliability.py)\<close>

definition percentile_rank :: "(rat \<Rightarrow> rat) \<Rightarrow> rat \<Rightarrow> nat \<Rightarrow> int" where
  "percentile_rank rnd p n = \<lceil>rnd (rnd (p / 100) * of_nat n)\<rceil>"

definition nearest_rank_percentile :: "(rat \<Rightarrow> rat) \<Rightarrow> pyfloat list \<Rightarrow> pyfloat \<Rightarrow> pyfloat res" where
  "nearest_rank_percentile rnd values percentile =
     (if values = [] then Inl (ValueError ''at least one value is required'')
      else case percentile of
        Fin p \<Rightarrow>
          if \<not> (0 < p \<and> p \<le> 100) then Inl (ValueError ''percentile must be greater than 0 and at most 100'')
          else py_index (sort values) (percentile_rank rnd p (length values) - 1)
      | _ \<Rightarrow> Inl (ValueError ''percentile must be greater than 0 and at most 100''))"

section \<open>Theorems\<close>

lemma sort_nth_le:
  fixes xs :: "'a::linorder list"
  assumes "k < length xs"
  shows "Suc k \<le> length (filter (\<lambda>x. x \<le> sort xs ! k) xs)" "length xs - k \<le> length (filter (\<lambda>x. sort xs ! k \<le> x) xs)"
proof -
  let ?s = "sort xs"
  have m: "length (filter P xs) = length (filter P ?s)" for P
    by (metis filter_sort length_sort)
  have split: "filter P ?s = filter P (take n ?s) @ filter P (drop n ?s)" for P n
    by (metis append_take_drop_id filter_append)
  have "\<forall>x \<in> set (take (Suc k) ?s). x \<le> ?s ! k"
    using assms by (auto simp: in_set_conv_nth sorted_nth_mono)
  then have "filter (\<lambda>x. x \<le> ?s ! k) (take (Suc k) ?s) = take (Suc k) ?s" by (simp add: filter_True)
  with assms show "Suc k \<le> length (filter (\<lambda>x. x \<le> ?s ! k) xs)"
    unfolding m by (simp add: split[of _ "Suc k"])
  have "\<forall>x \<in> set (drop k ?s). ?s ! k \<le> x"
    using assms by (auto simp: in_set_conv_nth sorted_nth_mono)
  then have "filter (\<lambda>x. ?s ! k \<le> x) (drop k ?s) = drop k ?s" by (simp add: filter_True)
  with assms show "length xs - k \<le> length (filter (\<lambda>x. ?s ! k \<le> x) xs)"
    unfolding m by (simp add: split[of _ k])
qed

text \<open>
  The nearest-rank percentile returns an observed value: for any rounding of the two float operations
  that is monotone, keeps integers and does not underflow, no index error can occur, and the value
  returned has at least \<open>rank\<close> values up to it and at least \<open>n - rank + 1\<close> values from it on, the rank
  lying between 1 and the number of values. Empty input and percentiles outside (0, 100] are refused.
\<close>

theorem nearest_rank_observed:
  assumes "mono rnd" and "\<And>m. m \<le> length values \<Longrightarrow> rnd (of_nat m) = of_nat m" and "\<And>x. 0 < x \<Longrightarrow> 0 < rnd x"
    and "values \<noteq> []" and "0 < p" and "p \<le> 100"
  shows "\<exists>v rank. nearest_rank_percentile rnd values (Fin p) = Inr v \<and> v \<in> set values \<and>
    int rank = percentile_rank rnd p (length values) \<and> 1 \<le> rank \<and> rank \<le> length values \<and>
    rank \<le> length (filter (\<lambda>x. x \<le> v) values) \<and> length values - rank < length (filter (\<lambda>x. v \<le> x) values)"
proof -
  let ?n = "length values" and ?y = "rnd (rnd (p / 100) * of_nat (length values))"
  have n: "0 < ?n" using assms(4) by simp
  have "rnd (p / 100) \<le> 1" using monoD[OF assms(1), of "p / 100" 1] assms(2)[of 1] assms(6) n by simp
  then have "rnd (p / 100) * of_nat ?n \<le> of_nat ?n" by (simp add: mult_left_le_one_le mult_left_le mult.commute)
  then have up: "?y \<le> of_nat ?n" using monoD[OF assms(1)] assms(2)[of ?n] by fastforce
  have "0 < rnd (p / 100) * of_nat ?n" using assms(3)[of "p / 100"] assms(5) n by simp
  then have pos: "0 < ?y" by (rule assms(3))
  define rank where "rank = nat \<lceil>?y\<rceil>"
  have "0 < \<lceil>?y\<rceil>" "\<lceil>?y\<rceil> \<le> int ?n" using pos up by (simp_all add: ceiling_le_iff)
  then have rank: "1 \<le> rank" "rank \<le> ?n" "int rank = percentile_rank rnd p ?n"
    unfolding rank_def percentile_rank_def by linarith+
  then have i: "rank - 1 < ?n" "nat (percentile_rank rnd p ?n - 1) = rank - 1" using n by auto
  let ?v = "sort values ! (rank - 1)"
  have "nearest_rank_percentile rnd values (Fin p) = Inr ?v"
    using assms(4-6) rank i by (auto simp: nearest_rank_percentile_def py_index_def Let_def)
  moreover have "?v \<in> set values" using i(1) by (metis length_sort nth_mem set_sort)
  ultimately show ?thesis using rank sort_nth_le[OF i(1)] by (intro exI[of _ ?v] exI[of _ rank]) auto
qed

theorem nearest_rank_observed_witness:
  "\<exists>v. nearest_rank_percentile id [Fin 5, Fin 1, Fin 3, Fin 2, Fin 4] (Fin 95) = Inr v \<and> v \<in> set [Fin 5, Fin 1, Fin 3, Fin 2, Fin 4]"
  using nearest_rank_observed[of id "[Fin 5, Fin 1, Fin 3, Fin 2, Fin 4]" 95] by (auto simp: mono_def)

text \<open>
  The double nearest to a positive number, with 53 significant bits and ties to even. With it the rank of the 28th percentile
  of 25 values is 8, although 28 % of 25 is exactly 7.
\<close>

definition pow2 :: "int \<Rightarrow> rat" where
  "pow2 e = (if e < 0 then 1 / 2 ^ nat (- e) else 2 ^ nat e)"

definition double_of :: "rat \<Rightarrow> rat \<Rightarrow> bool" where
  "double_of x y \<longleftrightarrow> (\<exists>e. pow2 e \<le> x \<and> x < pow2 (e + 1) \<and> y = of_int (round_half_even (x / pow2 (e - 52))) * pow2 (e - 52))"

lemma percentile_rank_rounds_up:
  assumes "rnd (28 / 100) = 5044031582654956 / 2 ^ 54" and "rnd (5044031582654956 / 2 ^ 54 * 25) = 7881299347898369 / 2 ^ 50"
  shows "double_of (28 / 100) (rnd (28 / 100)) \<and> double_of (rnd (28 / 100) * 25) (rnd (rnd (28 / 100) * 25)) \<and>
    percentile_rank rnd 28 25 = 8 \<and> percentile_rank id 28 25 = 7"
proof -
  have r1: "round_half_even (28 / 100 * 2 ^ 54) = 5044031582654956"
  proof -
    have "\<lfloor>28 / 100 * 2 ^ 54 :: rat\<rfloor> = 5044031582654955" by (simp add: floor_eq_iff)
    then show ?thesis by (simp add: round_half_even_def Let_def)
  qed
  have r2: "round_half_even (5044031582654956 / 2 ^ 54 * 25 * 2 ^ 50) = 7881299347898369"
  proof -
    have "\<lfloor>5044031582654956 / 2 ^ 54 * 25 * 2 ^ 50 :: rat\<rfloor> = 7881299347898368" by (simp add: floor_eq_iff)
    then show ?thesis by (simp add: round_half_even_def Let_def)
  qed
  have "double_of (28 / 100) (rnd (28 / 100))"
    unfolding double_of_def assms(1) using r1 by (intro exI[of _ "-2"]) (simp add: pow2_def)
  moreover have "double_of (rnd (28 / 100) * 25) (rnd (rnd (28 / 100) * 25))"
    unfolding double_of_def assms using r2 by (intro exI[of _ 2]) (simp add: pow2_def)
  moreover have "\<lceil>7881299347898369 / 2 ^ 50 :: rat\<rceil> = 8" by (simp add: ceiling_eq_iff)
  then have "percentile_rank rnd 28 25 = 8" unfolding percentile_rank_def of_nat_numeral assms .
  moreover have "percentile_rank id 28 25 = 7" by (simp add: percentile_rank_def)
  ultimately show ?thesis by blast
qed

end
