(* ===== verification/Script.thy ===== *)
theory Script
  imports Performance
begin

text \<open>
  Programs of the experiment runners and smoke scripts: they run processes, send requests, read the
  clock, sleep and write files, and any of these steps may raise.

  A program maps a state to \<^const>\<open>None\<close> when it does not return, and otherwise to its result, an
  exception or a value, and the state it leaves. The state is the machine (the files and directories
  the scripts write and everything outside, of an arbitrary type) and the script's own object. The
  environment gives the outside's answers; nothing is assumed of them beyond \<open>clock_ok\<close>, the
  documented behaviour of \<open>time.monotonic\<close> and \<open>time.sleep\<close>, from which every polling loop returns.
\<close>

section \<open>Machine and environment\<close>

record 'o machine =
  files :: "(string \<times> string) list"
  dirs :: "string list"
  outside :: 'o

record ('h, 'o) script =
  self :: 'h
  machine :: "'o machine"

record completed =
  returncode :: int
  stdout :: string
  stderr :: string

record call =
  call_method :: string
  call_url :: string
  call_headers :: "(string \<times> string) list"
  call_json :: "jval option"

record 'o env =
  run_process :: "string list \<Rightarrow> (string \<times> string) list \<Rightarrow> 'o machine \<Rightarrow> completed res \<times> 'o machine"
  request :: "call \<Rightarrow> 'o \<Rightarrow> http_response res \<times> 'o"
  monotonic :: "'o \<Rightarrow> rat \<times> 'o"
  sleep :: "rat \<Rightarrow> 'o \<Rightarrow> 'o"
  utc_now :: "'o \<Rightarrow> string \<times> 'o"
  uuid4 :: "'o \<Rightarrow> uuid \<times> 'o"
  token_urlsafe :: "'o \<Rightarrow> string \<times> 'o"
  os_environ :: "(string \<times> string) list"
  which :: "string \<Rightarrow> bool"
  facts :: "(string \<times> jval) list"
  float_text :: "pyfloat \<Rightarrow> string"
  py_str :: "jval \<Rightarrow> string"
  error_text :: "py_error \<Rightarrow> string"
  rounded :: "rat \<Rightarrow> rat"
  root :: string
  gzipped :: "string \<Rightarrow> string"
  sampler_passes :: "string \<Rightarrow> nat"

section \<open>Programs\<close>

type_synonym ('h, 'o, 'a) prog = "('h, 'o) script \<Rightarrow> ('a res \<times> ('h, 'o) script) option"

named_theorems returns_intros \<open>programs that return\<close>
named_theorems prog_simps \<open>what a program that ended without an exception did\<close>

definition ret :: "'a \<Rightarrow> ('h, 'o, 'a) prog" where
  "ret x s = Some (Inr x, s)"

definition raise :: "py_error \<Rightarrow> ('h, 'o, 'a) prog" where
  "raise e s = Some (Inl e, s)"

definition lift_res :: "'a res \<Rightarrow> ('h, 'o, 'a) prog" where
  "lift_res r s = Some (r, s)"

definition pbind :: "('h, 'o, 'a) prog \<Rightarrow> ('a \<Rightarrow> ('h, 'o, 'b) prog) \<Rightarrow> ('h, 'o, 'b) prog" where
  "pbind p f s = (case p s of
     None \<Rightarrow> None
   | Some (Inl e, s') \<Rightarrow> Some (Inl e, s')
   | Some (Inr x, s') \<Rightarrow> f x s')"

definition then_do :: "('h, 'o, 'a) prog \<Rightarrow> ('h, 'o, 'b) prog \<Rightarrow> ('h, 'o, 'b) prog" where
  "then_do p q = pbind p (\<lambda>_. q)"

text \<open>\<open>try: p except: handler\<close> (a handler re-raises what it does not catch) and \<open>try: p finally: q\<close>.\<close>

definition handle :: "('h, 'o, 'a) prog \<Rightarrow> (py_error \<Rightarrow> ('h, 'o, 'a) prog) \<Rightarrow> ('h, 'o, 'a) prog" where
  "handle p h s = (case p s of Some (Inl e, s') \<Rightarrow> h e s' | r \<Rightarrow> r)"

definition finally_do :: "('h, 'o, 'a) prog \<Rightarrow> ('h, 'o, unit) prog \<Rightarrow> ('h, 'o, 'a) prog" where
  "finally_do p q s = (case p s of
     None \<Rightarrow> None
   | Some (r, s') \<Rightarrow> (case q s' of
       None \<Rightarrow> None
     | Some (Inl e, s'') \<Rightarrow> Some (Inl e, s'')
     | Some (Inr _, s'') \<Rightarrow> Some (r, s'')))"

primrec for_each :: "('a \<Rightarrow> ('h, 'o, unit) prog) \<Rightarrow> 'a list \<Rightarrow> ('h, 'o, unit) prog" where
  "for_each f [] = ret ()"
| "for_each f (x # xs) = then_do (f x) (for_each f xs)"

primrec collect :: "('a \<Rightarrow> ('h, 'o, 'b) prog) \<Rightarrow> 'a list \<Rightarrow> ('h, 'o, 'b list) prog" where
  "collect f [] = ret []"
| "collect f (x # xs) = pbind (f x) (\<lambda>y. pbind (collect f xs) (\<lambda>ys. ret (y # ys)))"

text \<open>The script's own object, and the primitive effects.\<close>

definition get_self :: "('h, 'o, 'h) prog" where
  "get_self s = Some (Inr (self s), s)"

definition set_self :: "('h \<Rightarrow> 'h) \<Rightarrow> ('h, 'o, unit) prog" where
  "set_self f s = Some (Inr (), s\<lparr>self := f (self s)\<rparr>)"

definition on_outside :: "('o \<Rightarrow> 'a \<times> 'o) \<Rightarrow> ('h, 'o, 'a) prog" where
  "on_outside f s = (case f (outside (machine s)) of (x, out) \<Rightarrow> Some (Inr x, s\<lparr>machine := (machine s)\<lparr>outside := out\<rparr>\<rparr>))"

definition on_machine :: "('o machine \<Rightarrow> 'a res \<times> 'o machine) \<Rightarrow> ('h, 'o, 'a) prog" where
  "on_machine f s = (case f (machine s) of (r, m) \<Rightarrow> Some (r, s\<lparr>machine := m\<rparr>))"

definition clock :: "'o env \<Rightarrow> ('h, 'o, rat) prog" where
  "clock E = on_outside (monotonic E)"

definition pause :: "'o env \<Rightarrow> rat \<Rightarrow> ('h, 'o, unit) prog" where
  "pause E d = on_outside (\<lambda>out. ((), sleep E d out))"

definition send_call :: "'o env \<Rightarrow> call \<Rightarrow> ('h, 'o, http_response) prog" where
  "send_call E c = pbind (on_outside (request E c)) lift_res"

definition response_json :: "http_response \<Rightarrow> ('h, 'o, jval) prog" where
  "response_json r = lift_res (res_of JSONDecodeError (loads (http_body r)))"

section \<open>Files\<close>

text \<open>A write succeeds when its directory exists; full disks and permissions are not modelled.\<close>

definition parent_dir :: "string \<Rightarrow> string" where
  "parent_dir p = (case split_last (CHR ''/'') p of None \<Rightarrow> ''.'' | Some (d, _) \<Rightarrow> d)"

lemma parent_dir_append [simp]: "CHR ''/'' \<notin> set t \<Longrightarrow> parent_dir (d @ CHR ''/'' # t) = d"
  by (simp add: parent_dir_def split_last_at)

definition in_directory :: "string \<Rightarrow> ('o machine \<Rightarrow> 'o machine) \<Rightarrow> ('h, 'o, unit) prog" where
  "in_directory path f = on_machine (\<lambda>m.
     if parent_dir path \<in> set (dirs m) then (Inr (), f m) else (Inl (ServiceError ''FileNotFoundError''), m))"

definition write_text :: "string \<Rightarrow> string \<Rightarrow> ('h, 'o, unit) prog" where
  "write_text path text = in_directory path (\<lambda>m. m\<lparr>files := AList.update path text (files m)\<rparr>)"

definition append_text :: "string \<Rightarrow> string \<Rightarrow> ('h, 'o, unit) prog" where
  "append_text path text = in_directory path (\<lambda>m. m\<lparr>files := AList.update path
     ((case map_of (files m) path of None \<Rightarrow> [] | Some old \<Rightarrow> old) @ text) (files m)\<rparr>)"

definition read_text :: "string \<Rightarrow> ('h, 'o, string) prog" where
  "read_text path = on_machine (\<lambda>m. (res_of (ServiceError ''FileNotFoundError'') (map_of (files m) path), m))"

definition unlink :: "string \<Rightarrow> ('h, 'o, unit) prog" where
  "unlink path = on_machine (\<lambda>m.
     if path \<in> fst ` set (files m) then (Inr (), m\<lparr>files := AList.delete path (files m)\<rparr>)
     else (Inl (ServiceError ''FileNotFoundError''), m))"

definition path_exists :: "string \<Rightarrow> ('h, 'o, bool) prog" where
  "path_exists path = on_machine (\<lambda>m. (Inr (path \<in> set (dirs m) \<or> path \<in> fst ` set (files m)), m))"

text \<open>The directories above a path, then \<open>mkdir(parents=True, exist_ok=...)\<close>.\<close>

fun ancestors_from :: "string \<Rightarrow> string \<Rightarrow> string list" where
  "ancestors_from seen [] = [seen]"
| "ancestors_from seen (c # r) = (if c = CHR ''/'' \<and> seen \<noteq> [] then seen # ancestors_from (seen @ [c]) r else ancestors_from (seen @ [c]) r)"

definition make_dirs :: "bool \<Rightarrow> string \<Rightarrow> ('h, 'o, unit) prog" where
  "make_dirs exist_ok path = on_machine (\<lambda>m.
     if path \<in> fst ` set (files m) \<or> (path \<in> set (dirs m) \<and> \<not> exist_ok)
     then (Inl (ServiceError ''FileExistsError''), m)
     else (Inr (), m\<lparr>dirs := ancestors_from [] path @ dirs m\<rparr>))"

text \<open>\<open>path.write_text(json.dumps(value, indent=2, sort_keys=True) + newline)\<close>.\<close>

definition write_pretty :: "'o env \<Rightarrow> string \<Rightarrow> jval \<Rightarrow> ('h, 'o, unit) prog" where
  "write_pretty E path v = write_text path (pretty (float_text E) v 0 @ [CHR 0x0A])"

definition json_line :: "'o env \<Rightarrow> (string \<times> jval) list \<Rightarrow> string" where
  "json_line E m = dumps (float_text E) spaced (key_sorted (JObj m)) @ [CHR 0x0A]"

section \<open>HTTP clients\<close>

text \<open>
  \<open>httpx.Client(verify=path)\<close> loads the CA bundle when it is constructed. The exceptions of
  \<open>httpx.HTTPError\<close> and of \<open>OSError\<close> by class name.
\<close>

definition ca_bundle :: "'o env \<Rightarrow> string" where
  "ca_bundle E = root E @ ''/certs/generated/ca.crt''"

definition open_client :: "string \<Rightarrow> ('h, 'o, unit) prog" where
  "open_client verify = pbind (path_exists verify) (\<lambda>b. if b then ret () else raise (ServiceError ''FileNotFoundError''))"

definition http_error :: "py_error \<Rightarrow> bool" where
  "http_error e = (case e of
     HTTPStatusError _ \<Rightarrow> True
   | ServiceError n \<Rightarrow> n \<in> set [''HTTPError'', ''RequestError'', ''TransportError'', ''TimeoutException'', ''ConnectTimeout'',
       ''ReadTimeout'', ''WriteTimeout'', ''PoolTimeout'', ''NetworkError'', ''ConnectError'', ''ReadError'', ''WriteError'',
       ''CloseError'', ''ProtocolError'', ''LocalProtocolError'', ''RemoteProtocolError'', ''ProxyError'',
       ''UnsupportedProtocol'', ''DecodingError'', ''TooManyRedirects'']
   | _ \<Rightarrow> False)"

definition os_error :: "py_error \<Rightarrow> bool" where
  "os_error e = (case e of
     ServiceError n \<Rightarrow> n \<in> set [''OSError'', ''FileNotFoundError'', ''FileExistsError'', ''PermissionError'',
       ''NotADirectoryError'', ''IsADirectoryError'', ''InterruptedError'', ''BlockingIOError'', ''ChildProcessError'',
       ''ConnectionError'', ''BrokenPipeError'', ''ConnectionAbortedError'', ''ConnectionRefusedError'',
       ''ConnectionResetError'', ''ProcessLookupError'', ''TimeoutError'']
   | _ \<Rightarrow> False)"

definition is_success :: "http_response \<Rightarrow> bool" where
  "is_success r \<longleftrightarrow> 200 \<le> http_status r \<and> http_status r \<le> 299"

section \<open>Processes\<close>

text \<open>\<open>subprocess.run(arguments, env=..., check=False)\<close>, and the check of the runners' \<open>command\<close>.\<close>

definition run_checked :: "'o env \<Rightarrow> (string \<times> string) list \<Rightarrow> bool \<Rightarrow> string list \<Rightarrow> ('h, 'o, completed) prog" where
  "run_checked E environ check arguments =
     pbind (on_machine (run_process E arguments environ)) (\<lambda>completed.
     if check \<and> returncode completed \<noteq> 0 then
       raise (RuntimeError (''command failed ('' @ join_with '' '' arguments @ ''):'' @ [CHR 0x0A] @
         join_with [CHR 0x0A] (filter (\<lambda>part. part \<noteq> []) [strip (stdout completed), strip (stderr completed)])))
     else ret completed)"

section \<open>Polling\<close>

text \<open>
  \<open>while time.monotonic() < deadline: ...; time.sleep(d)\<close>. A pass carries a value on (\<^const>\<open>Inl\<close>) or
  ends the loop with a result (\<^const>\<open>Inr\<close>); at the deadline the value carried is the outcome.
\<close>

partial_function (option) poll ::
    "'o env \<Rightarrow> rat \<Rightarrow> rat \<Rightarrow> ('c \<Rightarrow> ('h, 'o, 'c + 'a) prog) \<Rightarrow> 'c \<Rightarrow> ('h, 'o, 'c + 'a) prog" where
  "poll E deadline d step c s =
     (case monotonic E (outside (machine s)) of (t, out) \<Rightarrow>
        let s1 = s\<lparr>machine := (machine s)\<lparr>outside := out\<rparr>\<rparr> in
        if t < deadline then
          (case step c s1 of
             None \<Rightarrow> None
           | Some (Inl e, s2) \<Rightarrow> Some (Inl e, s2)
           | Some (Inr (Inr x), s2) \<Rightarrow> Some (Inr (Inr x), s2)
           | Some (Inr (Inl c'), s2) \<Rightarrow>
               poll E deadline d step c' (s2\<lparr>machine := (machine s2)\<lparr>outside := sleep E d (outside (machine s2))\<rparr>\<rparr>))
        else Some (Inr (Inl c), s1))"

declare poll.simps [code]

section \<open>What the outside promises\<close>

text \<open>The reading of the clock; it never goes back, and sleeping advances it by at least the pause.\<close>

definition now_at :: "'o env \<Rightarrow> 'o \<Rightarrow> rat" where
  "now_at E out = fst (monotonic E out)"

definition clock_ok :: "'o env \<Rightarrow> bool" where
  "clock_ok E \<longleftrightarrow>
     (\<forall>out. now_at E out \<le> now_at E (snd (monotonic E out))) \<and>
     (\<forall>d out. 0 \<le> d \<longrightarrow> now_at E out + d \<le> now_at E (sleep E d out)) \<and>
     (\<forall>c out. now_at E out \<le> now_at E (snd (request E c out))) \<and>
     (\<forall>out. now_at E out \<le> now_at E (snd (utc_now E out))) \<and>
     (\<forall>out. now_at E out \<le> now_at E (snd (uuid4 E out))) \<and>
     (\<forall>out. now_at E out \<le> now_at E (snd (token_urlsafe E out))) \<and>
     (\<forall>a v m. now_at E (outside m) \<le> now_at E (outside (snd (run_process E a v m))))"

definition now :: "'o env \<Rightarrow> ('h, 'o) script \<Rightarrow> rat" where
  "now E s = now_at E (outside (machine s))"

text \<open>A program that returns from every state, with the clock not behind.\<close>

definition returns :: "'o env \<Rightarrow> ('h, 'o, 'a) prog \<Rightarrow> bool" where
  "returns E p \<longleftrightarrow> (\<forall>s. \<exists>r s'. p s = Some (r, s') \<and> now E s \<le> now E s')"

lemma returnsI: "(\<And>s. \<exists>r s'. p s = Some (r, s') \<and> now E s \<le> now E s') \<Longrightarrow> returns E p"
  by (simp add: returns_def)

lemma returnsE:
  assumes "returns E p"
  obtains r s' where "p s = Some (r, s')" and "now E s \<le> now E s'"
  using assms unfolding returns_def by blast

lemma returns_pure [returns_intros]:
  "returns E (ret x)" "returns E (raise e)" "returns E (lift_res r)" "returns E get_self" "returns E (set_self f)"
  by (auto simp: returns_def ret_def raise_def lift_res_def get_self_def set_self_def now_def)

lemma returns_pbind [returns_intros]:
  assumes "returns E p" and "\<And>x. returns E (f x)"
  shows "returns E (pbind p f)"
proof (rule returnsI)
  fix s
  obtain r s' where p: "p s = Some (r, s')" and le: "now E s \<le> now E s'" using assms(1) by (rule returnsE)
  show "\<exists>r s'. pbind p f s = Some (r, s') \<and> now E s \<le> now E s'"
  proof (cases r)
    case (Inl e)
    with p le show ?thesis by (simp add: pbind_def)
  next
    case (Inr x)
    obtain r2 s2 where "f x s' = Some (r2, s2)" and "now E s' \<le> now E s2" using assms(2) by (rule returnsE)
    with Inr p le show ?thesis by (auto simp: pbind_def)
  qed
qed

lemma returns_then_do [returns_intros]: "returns E p \<Longrightarrow> returns E q \<Longrightarrow> returns E (then_do p q)"
  unfolding then_do_def by (rule returns_pbind)

lemma returns_handle [returns_intros]:
  assumes "returns E p" and "\<And>e. returns E (h e)"
  shows "returns E (handle p h)"
proof (rule returnsI)
  fix s
  obtain r s' where p: "p s = Some (r, s')" and le: "now E s \<le> now E s'" using assms(1) by (rule returnsE)
  show "\<exists>r s'. handle p h s = Some (r, s') \<and> now E s \<le> now E s'"
  proof (cases r)
    case (Inl e)
    obtain r2 s2 where "h e s' = Some (r2, s2)" and "now E s' \<le> now E s2" using assms(2) by (rule returnsE)
    with Inl p le show ?thesis by (auto simp: handle_def)
  next
    case (Inr x)
    with p le show ?thesis by (simp add: handle_def)
  qed
qed

lemma returns_finally_do [returns_intros]:
  assumes "returns E p" and "returns E q"
  shows "returns E (finally_do p q)"
proof (rule returnsI)
  fix s
  obtain r s' where p: "p s = Some (r, s')" and le: "now E s \<le> now E s'" using assms(1) by (rule returnsE)
  obtain r2 s2 where q: "q s' = Some (r2, s2)" and le2: "now E s' \<le> now E s2" using assms(2) by (rule returnsE)
  show "\<exists>r s'. finally_do p q s = Some (r, s') \<and> now E s \<le> now E s'"
    using p q le le2 by (cases r2) (auto simp: finally_do_def)
qed

lemma returns_for_each [returns_intros]: "(\<And>x. returns E (f x)) \<Longrightarrow> returns E (for_each f xs)"
  by (induction xs) (auto intro: returns_intros)

lemma returns_collect [returns_intros]: "(\<And>x. returns E (f x)) \<Longrightarrow> returns E (collect f xs)"
  by (induction xs) (auto intro!: returns_intros)

lemma returns_if [returns_intros]: "(c \<Longrightarrow> returns E p) \<Longrightarrow> (\<not> c \<Longrightarrow> returns E q) \<Longrightarrow> returns E (if c then p else q)"
  by simp

lemma returns_case_option [returns_intros]:
  "(m = None \<Longrightarrow> returns E p) \<Longrightarrow> (\<And>x. m = Some x \<Longrightarrow> returns E (q x)) \<Longrightarrow> returns E (case m of None \<Rightarrow> p | Some x \<Rightarrow> q x)"
  by (cases m) auto

lemma returns_case_prod [returns_intros]:
  "(\<And>x y. z = (x, y) \<Longrightarrow> returns E (f x y)) \<Longrightarrow> returns E (case z of (x, y) \<Rightarrow> f x y)"
  by (cases z) auto

lemma returns_case_sum [returns_intros]:
  "(\<And>x. z = Inl x \<Longrightarrow> returns E (f x)) \<Longrightarrow> (\<And>y. z = Inr y \<Longrightarrow> returns E (g y)) \<Longrightarrow>
   returns E (case z of Inl x \<Rightarrow> f x | Inr y \<Rightarrow> g y)"
  by (cases z) auto

lemma returns_Let [returns_intros]: "returns E (f x) \<Longrightarrow> returns E (let y = x in f y)"
  by simp

lemma returns_on_outside:
  assumes "\<And>out. now_at E out \<le> now_at E (snd (f out))"
  shows "returns E (on_outside f)"
proof (rule returnsI)
  fix s
  show "\<exists>r s'. on_outside f s = Some (r, s') \<and> now E s \<le> now E s'"
    using assms[of "outside (machine s)"] by (auto simp: on_outside_def now_def split: prod.split)
qed

lemma returns_on_machine:
  assumes "\<And>m. now_at E (outside m) \<le> now_at E (outside (snd (f m)))"
  shows "returns E (on_machine f)"
proof (rule returnsI)
  fix s
  show "\<exists>r s'. on_machine f s = Some (r, s') \<and> now E s \<le> now E s'"
    using assms[of "machine s"] by (auto simp: on_machine_def now_def split: prod.split)
qed

lemma returns_files [returns_intros]:
  "returns E (write_text p t)" "returns E (append_text p t)" "returns E (read_text p)" "returns E (unlink p)"
  "returns E (path_exists p)" "returns E (make_dirs b p)" "returns E (write_pretty E p v)"
  by (auto simp: write_pretty_def write_text_def append_text_def read_text_def unlink_def path_exists_def make_dirs_def
      in_directory_def intro!: returns_on_machine)

lemma returns_outside [returns_intros]:
  assumes "clock_ok E"
  shows "returns E (clock E)" "returns E (send_call E c)" "returns E (on_outside (utc_now E))"
    "returns E (on_outside (uuid4 E))" "returns E (on_outside (token_urlsafe E))" "returns E (on_machine (run_process E a v))"
  using assms by (auto simp: clock_def send_call_def clock_ok_def intro!: returns_on_outside returns_on_machine returns_intros)

lemma returns_pause [returns_intros]: "clock_ok E \<Longrightarrow> 0 \<le> d \<Longrightarrow> returns E (pause E d)"
  unfolding pause_def clock_ok_def by (rule returns_on_outside) (simp, metis add_increasing2 order_trans le_add_same_cancel1)

lemma returns_run_checked [returns_intros]: "clock_ok E \<Longrightarrow> returns E (run_checked E environ check arguments)"
  unfolding run_checked_def by (intro returns_intros)

lemma returns_open_client [returns_intros]: "returns E (open_client p)"
  unfolding open_client_def by (intro returns_intros)

lemma returns_response_json [returns_intros]: "returns E (response_json r)"
  unfolding response_json_def by (rule returns_intros)

text \<open>Every pass advances the clock by the pause, so the loop makes at most \<open>(deadline - now) / d\<close> passes.\<close>

lemma returns_poll [returns_intros]:
  assumes ok: "clock_ok E" and d: "0 < d" and step: "\<And>c. returns E (step c)"
  shows "returns E (poll E deadline d step c)"
proof (rule returnsI)
  fix s
  show "\<exists>r s'. poll E deadline d step c s = Some (r, s') \<and> now E s \<le> now E s'"
  proof (induction "nat \<lceil>(deadline - now E s) / d\<rceil>" arbitrary: c s rule: less_induct)
    case less
    obtain t out where m: "monotonic E (outside (machine s)) = (t, out)" by fastforce
    then have t: "t = now E s" by (simp add: now_def now_at_def)
    let ?s1 = "s\<lparr>machine := (machine s)\<lparr>outside := out\<rparr>\<rparr>"
    have le1: "now E s \<le> now E ?s1"
      using ok m by (simp add: clock_ok_def now_def) (metis snd_conv)
    show ?case
    proof (cases "t < deadline")
      case False
      with m le1 show ?thesis by (subst poll.simps) simp
    next
      case True
      obtain r s2 where s2: "step c ?s1 = Some (r, s2)" and le2: "now E ?s1 \<le> now E s2"
        using step[of c] by (rule returnsE)
      let ?s3 = "s2\<lparr>machine := (machine s2)\<lparr>outside := sleep E d (outside (machine s2))\<rparr>\<rparr>"
      have le3: "now E s2 + d \<le> now E ?s3" using ok d by (simp add: clock_ok_def now_def)
      with le1 le2 have adv: "now E s + d \<le> now E ?s3" by linarith
      have "(deadline - now E ?s3) / d \<le> (deadline - now E s) / d - 1"
        using divide_right_mono[of "deadline - now E ?s3" "deadline - now E s - d" d] adv d by (simp add: diff_divide_distrib)
      moreover have "0 < (deadline - now E s) / d" using True t d by simp
      ultimately have smaller: "nat \<lceil>(deadline - now E ?s3) / d\<rceil> < nat \<lceil>(deadline - now E s) / d\<rceil>"
        by linarith
      show ?thesis
      proof (cases r)
        case (Inl e)
        with m True s2 le1 le2 show ?thesis by (subst poll.simps) (simp add: Let_def)
      next
        case (Inr v)
        show ?thesis
        proof (cases v)
          case (Inl c')
          obtain r' s' where "poll E deadline d step c' ?s3 = Some (r', s')" and "now E ?s3 \<le> now E s'"
            using less(1)[OF smaller] by blast
          with m True s2 Inr Inl adv d show ?thesis by (subst poll.simps) (simp add: Let_def)
        next
          case (Inr x)
          with \<open>r = Inr v\<close> m True s2 le1 le2 show ?thesis by (subst poll.simps) (simp add: Let_def)
        qed
      qed
    qed
  qed
qed

text \<open>What a program that ended without an exception did, step by step.\<close>

lemma pure_Inr [prog_simps]:
  "ret x s = Some (Inr y, s') \<longleftrightarrow> x = y \<and> s = s'"
  "raise e s = Some (Inr y, s') \<longleftrightarrow> False"
  "lift_res r s = Some (Inr y, s') \<longleftrightarrow> r = Inr y \<and> s = s'"
  by (auto simp: ret_def raise_def lift_res_def)

lemma pbind_Inr [prog_simps]:
  "pbind p f s = Some (Inr y, s'') \<longleftrightarrow> (\<exists>x s'. p s = Some (Inr x, s') \<and> f x s' = Some (Inr y, s''))"
  by (auto simp: pbind_def split: option.splits sum.splits)

lemma then_do_Inr [prog_simps]:
  "then_do p q s = Some (Inr y, s'') \<longleftrightarrow> (\<exists>x s'. p s = Some (Inr x, s') \<and> q s' = Some (Inr y, s''))"
  by (simp add: then_do_def pbind_Inr)

lemma case_sum_prog [prog_simps]:
  "(case z of Inl a \<Rightarrow> f a | Inr b \<Rightarrow> g b) s = Some (Inr y, s') \<longleftrightarrow>
     (\<exists>a. z = Inl a \<and> f a s = Some (Inr y, s')) \<or> (\<exists>b. z = Inr b \<and> g b s = Some (Inr y, s'))"
  by (cases z) auto

lemma if_prog [prog_simps]: "(if c then p else q) s = (if c then p s else q s)"
  by simp

lemma pbind_step: "p s = Some (Inr x, s') \<Longrightarrow> pbind p f s = f x s'"
  by (simp add: pbind_def)

lemma then_do_step: "p s = Some (Inr x, s') \<Longrightarrow> then_do p q s = q s'"
  by (simp add: then_do_def pbind_step)

lemma pbind_ret [simp]: "pbind (ret x) f = f x"
  by (rule ext) (simp add: pbind_def ret_def)

text \<open>Induction over the passes of a loop that returned.\<close>

abbreviation with_outside :: "('h, 'o) script \<Rightarrow> 'o \<Rightarrow> ('h, 'o) script" where
  "with_outside s out \<equiv> s\<lparr>machine := (machine s)\<lparr>outside := out\<rparr>\<rparr>"

lemma poll_induct [consumes 1, case_names Timeout Raise Stop Go]:
  assumes poll: "poll E deadline d step c s = Some (r, s')"
    and "\<And>c s out. P c s (Inr (Inl c)) (with_outside s out)"
    and "\<And>c s out e s'. step c (with_outside s out) = Some (Inl e, s') \<Longrightarrow> P c s (Inl e) s'"
    and "\<And>c s out x s'. step c (with_outside s out) = Some (Inr (Inr x), s') \<Longrightarrow> P c s (Inr (Inr x)) s'"
    and "\<And>c s out c' s2 r s'. step c (with_outside s out) = Some (Inr (Inl c'), s2) \<Longrightarrow>
      P c' (with_outside s2 (sleep E d (outside (machine s2)))) r s' \<Longrightarrow> P c s r s'"
  shows "P c s r s'"
proof -
  let ?rules = "\<lambda>E d step. (\<forall>c s out. P c s (Inr (Inl c)) (with_outside s out)) \<and>
    (\<forall>c s out e s'. step c (with_outside s out) = Some (Inl e, s') \<longrightarrow> P c s (Inl e) s') \<and>
    (\<forall>c s out x s'. step c (with_outside s out) = Some (Inr (Inr x), s') \<longrightarrow> P c s (Inr (Inr x)) s') \<and>
    (\<forall>c s out c' s2 r s'. step c (with_outside s out) = Some (Inr (Inl c'), s2) \<longrightarrow>
      P c' (with_outside s2 (sleep E d (outside (machine s2)))) r s' \<longrightarrow> P c s r s')"
  have "?rules E d step \<longrightarrow> P c s (fst y) (snd y)" if "poll E deadline d step c s = Some y" for y
  proof (rule poll.raw_induct[where P = "\<lambda>E deadline d step c s y. ?rules E d step \<longrightarrow> P c s (fst y) (snd y)", OF _ that], rule impI)
    fix pl E deadline d step c s y
    assume IH: "\<And>E deadline d step c s y. pl E deadline d step c s = Some y \<Longrightarrow> ?rules E d step \<longrightarrow> P c s (fst y) (snd y)"
      and eq: "(case monotonic E (outside (machine s)) of (t, out) \<Rightarrow>
        let s1 = with_outside s out in
        if t < deadline then
          (case step c s1 of
             None \<Rightarrow> None
           | Some (Inl e, s2) \<Rightarrow> Some (Inl e, s2)
           | Some (Inr (Inl c'), s2) \<Rightarrow> pl E deadline d step c' (with_outside s2 (sleep E d (outside (machine s2))))
           | Some (Inr (Inr x), s2) \<Rightarrow> Some (Inr (Inr x), s2))
        else Some (Inr (Inl c), s1)) = Some y"
      and rules: "?rules E d step"
    obtain t out where m: "monotonic E (outside (machine s)) = (t, out)" by fastforce
    show "P c s (fst y) (snd y)"
    proof (cases "t < deadline")
      case False
      with eq m rules show ?thesis by (auto simp: Let_def)
    next
      case True
      with eq m obtain r2 s2 where s2: "step c (with_outside s out) = Some (r2, s2)" by (auto simp: Let_def split: option.splits)
      consider (e) e where "r2 = Inl e" | (x) x where "r2 = Inr (Inr x)" | (c) c' where "r2 = Inr (Inl c')"
        by (metis sum.exhaust)
      then show ?thesis
      proof cases
        case e
        with eq m True s2 have "y = (Inl e, s2)" by (simp add: Let_def)
        with rules s2 e show ?thesis by simp
      next
        case x
        with eq m True s2 have "y = (Inr (Inr x), s2)" by (simp add: Let_def)
        with rules s2 x show ?thesis by simp
      next
        case c
        with eq m True s2 have "pl E deadline d step c' (with_outside s2 (sleep E d (outside (machine s2)))) = Some y"
          by (simp add: Let_def)
        from IH[OF this] rules have "P c' (with_outside s2 (sleep E d (outside (machine s2)))) (fst y) (snd y)" by (rule mp)
        moreover from s2 c have "step c (with_outside s out) = Some (Inr (Inl c'), s2)" by simp
        moreover note conjunct2[OF conjunct2[OF conjunct2[OF rules]]]
        ultimately show ?thesis by blast
      qed
    qed
  qed
  from this[OF poll] assms(2-5) show ?thesis by simp
qed

text \<open>A loop that ends with a result got it from a pass over a value that keeps the invariant.\<close>

lemma poll_done:
  assumes "poll E deadline d step c s = Some (Inr (Inr x), s')" and "I c"
    and step: "\<And>c c' t t'. I c \<Longrightarrow> step c t = Some (Inr (Inl c'), t') \<Longrightarrow> I c'"
  obtains c1 t where "I c1" and "step c1 t = Some (Inr (Inr x), s')"
proof -
  have "r = Inr (Inr x) \<longrightarrow> I c \<longrightarrow> (\<exists>c1 t. I c1 \<and> step c1 t = Some (Inr (Inr x), s'))"
    if "poll E deadline d step c s = Some (r, s')" for r
    using that by (induction rule: poll_induct) (use step in blast)+
  with assms that show thesis by blast
qed

lemma returnsD: "returns E p \<Longrightarrow> p s = Some (r, s') \<Longrightarrow> now E s \<le> now E s'"
  unfolding returns_def by (metis option.inject prod.inject)

lemma clock_Inr [prog_simps]: "clock E s = Some (Inr t, s') \<Longrightarrow> t = now E s"
  by (auto simp: clock_def on_outside_def now_def now_at_def split: prod.splits)

text \<open>An unchecked process: whatever it answers, the machine it leaves is the one after it ran.\<close>

lemma run_unchecked:
  assumes "run_checked E environ False arguments s = Some (r, s')"
  shows "machine s' = snd (run_process E arguments environ (machine s))" and "self s' = self s"
  using assms by (auto simp: run_checked_def pbind_def on_machine_def ret_def split: prod.splits sum.splits option.splits)

lemma on_outside_eq:
  "on_outside f s = Some (Inr (fst (f (outside (machine s)))), s\<lparr>machine := (machine s)\<lparr>outside := snd (f (outside (machine s)))\<rparr>\<rparr>)"
  by (simp add: on_outside_def case_prod_beta)

text \<open>The same step by step reading with the clock.\<close>

lemma pbind_timed:
  "returns E p \<Longrightarrow> pbind p f s = Some (Inr y, s'') \<longleftrightarrow>
     (\<exists>x s'. p s = Some (Inr x, s') \<and> now E s \<le> now E s' \<and> f x s' = Some (Inr y, s''))"
  by (metis pbind_Inr returnsD)

lemma then_do_timed:
  "returns E p \<Longrightarrow> then_do p q s = Some (Inr y, s'') \<longleftrightarrow>
     (\<exists>x s'. p s = Some (Inr x, s') \<and> now E s \<le> now E s' \<and> q s' = Some (Inr y, s''))"
  by (simp add: then_do_def pbind_timed)

text \<open>A machine whose docker does not work and whose services do not answer; its outside is the time.\<close>

definition dead_env :: "rat env" where
  "dead_env = \<lparr>run_process = (\<lambda>a v m. (Inr \<lparr>returncode = (if hd a = ''docker'' then 1 else 0), stdout = [], stderr = []\<rparr>,
        m\<lparr>files := AList.update ''/srv/certs/generated/ca.crt'' [] (files m)\<rparr>)),
     request = (\<lambda>c t. (Inl (ServiceError ''ConnectError''), t)), monotonic = (\<lambda>t. (t, t)), sleep = (\<lambda>d t. t + d),
     utc_now = (\<lambda>t. (''2026-07-17T00:00:00+00:00'', t)), uuid4 = (\<lambda>t. (0, t)), token_urlsafe = (\<lambda>t. (''token'', t)),
     os_environ = [], which = (\<lambda>_. True), facts = [], float_text = (\<lambda>_. []), py_str = (\<lambda>_. []),
     error_text = error_name, rounded = id, root = ''/srv'', gzipped = id, sampler_passes = (\<lambda>_. 0)\<rparr>"

lemma dead_env_clock: "clock_ok dead_env"
  by (simp add: clock_ok_def now_at_def dead_env_def)

section \<open>What a program leaves of its object\<close>

named_theorems keeps_intros \<open>programs that leave a part of the object as it is\<close>

definition keeps :: "('h \<Rightarrow> 'x) \<Rightarrow> ('h, 'o, 'a) prog \<Rightarrow> bool" where
  "keeps f p \<longleftrightarrow> (\<forall>s r s'. p s = Some (r, s') \<longrightarrow> f (self s') = f (self s))"

lemma keepsD: "keeps f p \<Longrightarrow> p s = Some (r, s') \<Longrightarrow> f (self s') = f (self s)"
  by (simp add: keeps_def)

lemma keeps_pure [keeps_intros]: "keeps f (ret x)" "keeps f (raise e)" "keeps f (lift_res r)" "keeps f get_self"
  by (auto simp: keeps_def ret_def raise_def lift_res_def get_self_def)

lemma keeps_set_self [keeps_intros]: "(\<And>h. f (g h) = f h) \<Longrightarrow> keeps f (set_self g)"
  by (simp add: keeps_def set_self_def)

lemma keeps_effects [keeps_intros]: "keeps f (on_outside g)" "keeps f (on_machine k)"
  by (auto simp: keeps_def on_outside_def on_machine_def split: prod.splits)

lemma keeps_pbind [keeps_intros]: "keeps f p \<Longrightarrow> (\<And>x. keeps f (k x)) \<Longrightarrow> keeps f (pbind p k)"
  by (fastforce simp: keeps_def pbind_def split: option.splits sum.splits)

lemma keeps_then_do [keeps_intros]: "keeps f p \<Longrightarrow> keeps f q \<Longrightarrow> keeps f (then_do p q)"
  by (simp add: then_do_def keeps_pbind)

lemma keeps_handle [keeps_intros]: "keeps f p \<Longrightarrow> (\<And>e. keeps f (h e)) \<Longrightarrow> keeps f (handle p h)"
  by (fastforce simp: keeps_def handle_def split: option.splits sum.splits)

lemma keeps_for_each [keeps_intros]: "(\<And>x. keeps f (k x)) \<Longrightarrow> keeps f (for_each k xs)"
  by (induction xs) (auto intro: keeps_intros)

lemma keeps_collect [keeps_intros]: "(\<And>x. keeps f (k x)) \<Longrightarrow> keeps f (collect k xs)"
  by (induction xs) (auto intro!: keeps_intros)

lemma keeps_if [keeps_intros]: "(c \<Longrightarrow> keeps f p) \<Longrightarrow> (\<not> c \<Longrightarrow> keeps f q) \<Longrightarrow> keeps f (if c then p else q)"
  by simp

lemma keeps_case_option [keeps_intros]:
  "keeps f p \<Longrightarrow> (\<And>x. keeps f (q x)) \<Longrightarrow> keeps f (case m of None \<Rightarrow> p | Some x \<Rightarrow> q x)"
  by (cases m) auto

lemma keeps_case_prod [keeps_intros]: "(\<And>x y. keeps f (k x y)) \<Longrightarrow> keeps f (case z of (x, y) \<Rightarrow> k x y)"
  by (cases z) auto

lemma keeps_case_sum [keeps_intros]:
  "(\<And>x. keeps f (p x)) \<Longrightarrow> (\<And>y. keeps f (q y)) \<Longrightarrow> keeps f (case z of Inl x \<Rightarrow> p x | Inr y \<Rightarrow> q y)"
  by (cases z) auto

lemma keeps_Let [keeps_intros]: "keeps f (k x) \<Longrightarrow> keeps f (let y = x in k y)"
  by simp

lemma keeps_library [keeps_intros]:
  "keeps f (clock E)" "keeps f (pause E d)" "keeps f (send_call E c)" "keeps f (response_json hr)" "keeps f (write_text a b)"
  "keeps f (append_text a b)" "keeps f (read_text a)" "keeps f (unlink a)" "keeps f (path_exists a)" "keeps f (make_dirs t a)"
  "keeps f (write_pretty E a j)" "keeps f (open_client a)" "keeps f (run_checked E v t args)"
  unfolding clock_def pause_def send_call_def response_json_def write_text_def append_text_def read_text_def unlink_def
    path_exists_def make_dirs_def write_pretty_def open_client_def run_checked_def in_directory_def
  by (intro keeps_intros)+

lemma keeps_poll [keeps_intros]:
  assumes "\<And>c. keeps f (step c)"
  shows "keeps f (poll E deadline d step c)"
  unfolding keeps_def
proof (intro allI impI)
  fix s r s'
  assume "poll E deadline d step c s = Some (r, s')"
  then show "f (self s') = f (self s)"
    by (induction rule: poll_induct) (auto dest!: keepsD[OF assms])
qed

lemma pbind_kept:
  "keeps f p \<Longrightarrow> pbind p k s = Some (Inr y, s'') \<longleftrightarrow>
     (\<exists>x s'. p s = Some (Inr x, s') \<and> f (self s') = f (self s) \<and> k x s' = Some (Inr y, s''))"
  unfolding pbind_Inr using keepsD[of f p s] by blast

lemma then_do_kept:
  "keeps f p \<Longrightarrow> then_do p q s = Some (Inr y, s'') \<longleftrightarrow>
     (\<exists>x s'. p s = Some (Inr x, s') \<and> f (self s') = f (self s) \<and> q s' = Some (Inr y, s''))"
  by (simp add: then_do_def pbind_kept)

end
