(* ===== verification/Drills.thy ===== *)
theory Drills
  imports Script
begin

text \<open>
  The failure, detection and recovery drills of \<open>tools/reliability_runner.py\<close>, as programs over the
  environment of theory \<open>Script\<close>. The \<open>ReliabilityHarness\<close> is a record; its only attribute that
  changes is \<open>api\<close>, the client that \<open>setup\<close> creates. Durations are exact rationals.

  The lemmas show that a whole run returns whatever the containers and services do, that it always
  takes its environment down, what the report of the Redis drill guarantees and that the telemetry
  the drills send is accepted by the ingestion contract.
\<close>

section \<open>The harness\<close>

record reliability =
  rh_output :: string
  rh_repetitions :: int
  rh_project :: string
  rh_environment :: "(string \<times> string) list"
  rh_token :: string
  rh_timeline :: string
  rh_api :: bool

type_synonym ('o, 'a) drill = "(reliability, 'o, 'a) prog"

definition drill_init :: "'o env \<Rightarrow> string \<Rightarrow> int \<Rightarrow> ('o, unit) drill" where
  "drill_init E out repetitions =
     pbind (on_outside (uuid4 E)) (\<lambda>u.
     pbind (on_outside (token_urlsafe E)) (\<lambda>token.
     pbind (on_outside (token_urlsafe E)) (\<lambda>password.
     set_self (\<lambda>_. \<lparr>rh_output = out, rh_repetitions = repetitions,
       rh_project = ''fleetpulse-p7-'' @ take 8 (filter (\<lambda>c. c \<noteq> CHR ''-'') (uuid_str u)),
       rh_environment = merge_dict (os_environ E)
         [(''FLEETPULSE_AGENT_TOKEN'', token), (''FLEETPULSE_POSTGRES_PASSWORD'', password)],
       rh_token = token, rh_timeline = out @ ''/timeline.jsonl'', rh_api = False\<rparr>))))"

definition drill_command :: "'o env \<Rightarrow> bool \<Rightarrow> string list \<Rightarrow> ('o, completed) drill" where
  "drill_command E check arguments = pbind get_self (\<lambda>h. run_checked E (rh_environment h) check arguments)"

definition drill_compose :: "'o env \<Rightarrow> bool \<Rightarrow> string list \<Rightarrow> ('o, completed) drill" where
  "drill_compose E check arguments =
     pbind get_self (\<lambda>h. drill_command E check ([''docker'', ''compose'', ''-p'', rh_project h] @ arguments))"

definition record_event :: "'o env \<Rightarrow> string \<Rightarrow> (string \<times> jval) list \<Rightarrow> ('o, unit) drill" where
  "record_event E event details =
     pbind get_self (\<lambda>h.
     pbind (on_outside (utc_now E)) (\<lambda>t.
     append_text (rh_timeline h)
       (json_line E (merge_dict [(''recorded_at'', JStr t), (''event'', JStr event)] details))))"

text \<open>A request of the API client, which exists after \<open>setup\<close> created it, and of the Prometheus client.\<close>

definition api_client :: "('o, 'a) drill \<Rightarrow> ('o, 'a) drill" where
  "api_client p = pbind get_self (\<lambda>h. if rh_api h then p else raise (RuntimeError ''API client is not initialized''))"

definition api_call :: "'o env \<Rightarrow> string \<Rightarrow> string \<Rightarrow> (string \<times> string) list \<Rightarrow> jval option \<Rightarrow> ('o, http_response) drill" where
  "api_call E verb path headers body =
     pbind get_self (\<lambda>h.
     send_call E \<lparr>call_method = verb, call_url = ''https://localhost:8443'' @ path,
       call_headers = (''Authorization'', ''Bearer '' @ rh_token h) # headers, call_json = body\<rparr>)"

definition prometheus_get :: "'o env \<Rightarrow> string \<Rightarrow> ('o, http_response) drill" where
  "prometheus_get E path = send_call E \<lparr>call_method = ''GET'', call_url = ''http://localhost:9090'' @ path,
     call_headers = [], call_json = None\<rparr>"

section \<open>Waiting\<close>

definition drill_wait_api :: "'o env \<Rightarrow> rat \<Rightarrow> ('o, unit) drill" where
  "drill_wait_api E timeout = api_client (
     pbind (clock E) (\<lambda>t.
     pbind (poll E (t + timeout) (1 / 4) (\<lambda>last_error.
         handle
           (pbind (api_call E ''GET'' ''/readyz'' [] None) (\<lambda>response.
            then_do (lift_res (raise_for_status response)) (ret (Inr ()))))
           (\<lambda>e. if http_error e \<or> os_error e then ret (Inl (Some e)) else raise e))
       None) (\<lambda>outcome.
     case outcome of
       Inr _ \<Rightarrow> ret ()
     | Inl last_error \<Rightarrow> raise (RuntimeError (''API did not become ready: '' @
         (case last_error of None \<Rightarrow> ''None'' | Some e \<Rightarrow> error_text E e))))))"

definition wait_prometheus :: "'o env \<Rightarrow> ('o, unit) drill" where
  "wait_prometheus E =
     pbind (clock E) (\<lambda>t.
     pbind (poll E (t + 30) (1 / 4) (\<lambda>_.
         handle
           (pbind (prometheus_get E ''/-/ready'') (\<lambda>response.
            then_do (lift_res (raise_for_status response)) (ret (Inr ()))))
           (\<lambda>e. if http_error e then ret (Inl ()) else raise e))
       ()) (\<lambda>outcome.
     case outcome of Inr _ \<Rightarrow> ret () | Inl _ \<Rightarrow> raise (RuntimeError ''Prometheus did not become ready'')))"

definition drill_setup :: "'o env \<Rightarrow> ('o, unit) drill" where
  "drill_setup E =
     pbind get_self (\<lambda>h.
     then_do (make_dirs False (rh_output h)) (
     then_do (drill_command E True [''./scripts/generate_local_tls.sh'']) (
     then_do (open_client (ca_bundle E)) (
     then_do (set_self (\<lambda>h. h\<lparr>rh_api := True\<rparr>)) (
     then_do (drill_compose E True [''build'', ''api'', ''worker'', ''outbox-relay'']) (
     then_do (drill_compose E True [''up'', ''-d'', ''--wait'', ''--wait-timeout'', ''120'', ''postgres'', ''redis'', ''api'',
       ''worker'', ''outbox-relay'', ''nginx'', ''prometheus'', ''alertmanager'']) (
     then_do (drill_wait_api E 60) (
     then_do (wait_prometheus E) (
     record_event E ''environment_ready'' [(''compose_project'', JStr (rh_project h))])))))))))"

definition drill_psql :: "'o env \<Rightarrow> string \<Rightarrow> ('o, string) drill" where
  "drill_psql E sql =
     pbind (drill_compose E True [''exec'', ''-T'', ''postgres'', ''psql'', ''-v'', ''ON_ERROR_STOP=1'', ''-U'', ''fleetpulse'',
       ''-d'', ''fleetpulse'', ''-Atc'', sql]) (\<lambda>completed. ret (strip (stdout completed)))"

text \<open>\<open>int(self.psql(...))\<close>.\<close>

definition psql_int :: "'o env \<Rightarrow> string \<Rightarrow> ('o, int) drill" where
  "psql_int E sql = pbind (drill_psql E sql) (\<lambda>s. lift_res (py_int (JStr s)))"

section \<open>Alerts\<close>

fun find_alert :: "string \<Rightarrow> jval list \<Rightarrow> jval option res" where
  "find_alert alert_name [] = Inr None"
| "find_alert alert_name (alert # alerts) =
     res_bind (subscript alert ''labels'') (\<lambda>labels.
     res_bind (dict_get labels ''alertname'' JNull) (\<lambda>n.
     if n \<noteq> JStr alert_name then find_alert alert_name alerts
     else res_bind (subscript alert ''state'') (\<lambda>state.
       if state = JStr ''firing'' then Inr (Some alert) else find_alert alert_name alerts)))"

definition firing_alert :: "'o env \<Rightarrow> string \<Rightarrow> ('o, jval option) drill" where
  "firing_alert E alert_name =
     pbind (prometheus_get E ''/api/v1/alerts'') (\<lambda>response.
     then_do (lift_res (raise_for_status response)) (
     pbind (response_json response) (\<lambda>payload.
     lift_res (
       res_bind (subscript payload ''data'') (\<lambda>d.
       res_bind (subscript d ''alerts'') (\<lambda>a.
       res_bind (iterate a) (find_alert alert_name)))))))"

abbreviation seconds :: "rat \<Rightarrow> jval" where
  "seconds t \<equiv> JFloat (Fin t)"

definition wait_alert :: "'o env \<Rightarrow> string \<Rightarrow> bool \<Rightarrow> ('o, rat) drill" where
  "wait_alert E alert_name firing =
     pbind (clock E) (\<lambda>started.
     pbind (poll E (started + 90) (1 / 4) (\<lambda>_.
         pbind (firing_alert E alert_name) (\<lambda>alert.
         if (alert \<noteq> None) = firing then
           pbind (clock E) (\<lambda>t.
           then_do (record_event E ''alert_transition''
             [(''alert'', JStr alert_name), (''state'', JStr (if firing then ''firing'' else ''clear'')),
              (''elapsed_seconds'', seconds (t - started)), (''evidence'', (case alert of None \<Rightarrow> JNull | Some a \<Rightarrow> a))])
           (ret (Inr (t - started))))
         else ret (Inl ())))
       ()) (\<lambda>outcome.
     case outcome of
       Inr elapsed \<Rightarrow> ret elapsed
     | Inl _ \<Rightarrow> raise (RuntimeError (alert_name @ '' did not become '' @ (if firing then ''firing'' else ''clear'') @
         '' before timeout''))))"

section \<open>Telemetry\<close>

definition drill_payload :: "string \<Rightarrow> string \<Rightarrow> string \<Rightarrow> int \<Rightarrow> jval" where
  "drill_payload bid agent observed cpu = JObj
     [(''schema_version'', JInt 1), (''batch_id'', JStr bid), (''agent_id'', JStr agent),
      (''hostname'', JStr (agent @ ''-host'')),
      (''samples'', JList [JObj
         [(''observed_at'', JStr observed), (''cpu_percent'', JInt cpu), (''load_1m'', JInt 1), (''load_5m'', JInt 1),
          (''load_15m'', JInt 1),
          (''memory'', JObj [(''total_bytes'', JInt 1024), (''available_bytes'', JInt 512), (''used_bytes'', JInt 512),
             (''used_percent'', JInt 50)]),
          (''disks'', JList [JObj [(''mount'', JStr ''/''), (''total_bytes'', JInt 1024), (''used_bytes'', JInt 512),
             (''free_bytes'', JInt 512), (''used_percent'', JInt 50)]]),
          (''network'', JObj [(''bytes_sent'', JInt 1), (''bytes_received'', JInt 1), (''packets_sent'', JInt 1),
             (''packets_received'', JInt 1), (''errors_in'', JInt 0), (''errors_out'', JInt 0), (''drops_in'', JInt 0),
             (''drops_out'', JInt 0), (''tcp_established'', JInt 1), (''tcp_listening'', JInt 1), (''tcp_other'', JInt 0),
             (''udp_sockets'', JInt 0)]),
          (''process_count'', JInt 1), (''top_processes'', JList [])]])]"

definition drill_telemetry_payload :: "'o env \<Rightarrow> string \<Rightarrow> int \<Rightarrow> ('o, string \<times> jval) drill" where
  "drill_telemetry_payload E agent cpu =
     pbind (on_outside (uuid4 E)) (\<lambda>u.
     pbind (on_outside (utc_now E)) (\<lambda>t. ret (uuid_str u, drill_payload (uuid_str u) agent t cpu)))"

definition post_telemetry :: "'o env \<Rightarrow> string \<Rightarrow> int \<Rightarrow> ('o, string) drill" where
  "post_telemetry E agent cpu = api_client (
     pbind (drill_telemetry_payload E agent cpu) (\<lambda>(bid, payload).
     pbind (api_call E ''POST'' ''/v1/telemetry/batches'' [(''X-Request-ID'', ''phase7-'' @ agent)] (Some payload)) (\<lambda>response.
     then_do (lift_res (raise_for_status response)) (
     pbind (response_json response) (\<lambda>reply.
     pbind (lift_res (subscript reply ''status'')) (\<lambda>status.
     if status \<noteq> JStr ''accepted'' then raise (RuntimeError ''drill telemetry was not newly accepted'')
     else ret bid))))))"

section \<open>The drills\<close>

definition api_outage_drill :: "'o env \<Rightarrow> ('o, jval) drill" where
  "api_outage_drill E =
     then_do (wait_alert E ''FleetPulseAPITargetDown'' False) (
     then_do (drill_compose E True [''stop'', ''api'']) (
     pbind (clock E) (\<lambda>injected.
     then_do (record_event E ''failure_injected'' [(''drill'', JStr ''api_outage''), (''action'', JStr ''api stopped'')]) (
     pbind (wait_alert E ''FleetPulseAPITargetDown'' True) (\<lambda>detection.
     pbind (clock E) (\<lambda>repair_started.
     then_do (drill_compose E True [''up'', ''-d'', ''--wait'', ''--wait-timeout'', ''90'', ''api'']) (
     then_do (drill_wait_api E 60) (
     pbind (clock E) (\<lambda>repaired.
     pbind (clock E) (\<lambda>recovered.
     pbind (wait_alert E ''FleetPulseAPITargetDown'' False) (\<lambda>alert_clear.
     let repair_recovery = repaired - repair_started; total_impact = recovered - injected in
     then_do (record_event E ''recovery_complete''
       [(''drill'', JStr ''api_outage''), (''repair_recovery_seconds'', seconds repair_recovery),
        (''total_impact_seconds'', seconds total_impact)]) (
     ret (JObj
       [(''alert_detection_seconds'', seconds detection), (''repair_recovery_seconds'', seconds repair_recovery),
        (''total_impact_seconds'', seconds total_impact), (''alert_clear_seconds'', seconds alert_clear)])))))))))))))"

text \<open>\<open>any(item["agent_id"] == agent_id for item in incidents)\<close>.\<close>

fun names_agent :: "string \<Rightarrow> jval list \<Rightarrow> bool res" where
  "names_agent agent [] = Inr False"
| "names_agent agent (x # xs) =
     res_bind (subscript x ''agent_id'') (\<lambda>v. if v = JStr agent then Inr True else names_agent agent xs)"

definition wait_incident :: "'o env \<Rightarrow> string \<Rightarrow> ('o, rat) drill" where
  "wait_incident E agent = api_client (
     pbind (clock E) (\<lambda>started.
     pbind (poll E (started + 30) (1 / 10) (\<lambda>_.
         pbind (api_call E ''GET'' ''/v1/incidents'' [] None) (\<lambda>response.
         then_do (lift_res (raise_for_status response)) (
         pbind (response_json response) (\<lambda>incidents.
         pbind (lift_res (res_bind (iterate incidents) (names_agent agent))) (\<lambda>visible.
         if visible then pbind (clock E) (\<lambda>t. ret (Inr (t - started))) else ret (Inl ()))))))
       ()) (\<lambda>outcome.
     case outcome of
       Inr elapsed \<Rightarrow> ret elapsed
     | Inl _ \<Rightarrow> raise (RuntimeError (''incident for '' @ agent @ '' did not become queryable'')))))"

definition incident_trial :: "'o env \<Rightarrow> int \<Rightarrow> ('o, rat \<times> jval) drill" where
  "incident_trial E repetition =
     (let agent = ''phase7-incident-'' @ show_int repetition in
     then_do (wait_alert E ''FleetPulseIncidentDetected'' False) (
     pbind (clock E) (\<lambda>accepted_at.
     then_do (post_telemetry E agent 99) (
     pbind (wait_incident E agent) (\<lambda>visible.
     pbind (wait_alert E ''FleetPulseIncidentDetected'' True) (\<lambda>alert.
     pbind (clock E) (\<lambda>t.
     let end_to_end = t - accepted_at;
         measured = [(''repetition'', JInt repetition), (''incident_visibility_seconds'', seconds visible),
           (''alert_detection_seconds'', seconds alert), (''end_to_end_seconds'', seconds end_to_end)] in
     then_do (record_event E ''incident_detected'' ((''drill'', JStr ''threshold_incident'') # measured)) (
     then_do (wait_alert E ''FleetPulseIncidentDetected'' False) (
     ret (end_to_end, JObj measured))))))))))"

definition incident_drills :: "'o env \<Rightarrow> ('o, jval) drill" where
  "incident_drills E =
     pbind get_self (\<lambda>h.
     pbind (collect (incident_trial E) [1 .. rh_repetitions h]) (\<lambda>trials.
     pbind (lift_res (nearest_rank_percentile (rounded E) (map (\<lambda>(t, _). Fin t) trials) (Fin 95))) (\<lambda>p95.
     ret (JObj [(''trials'', JList (map snd trials)), (''p95_end_to_end_seconds'', JFloat p95), (''target_seconds'', JInt 60)]))))"

definition recovered_sql :: "string \<Rightarrow> string" where
  "recovered_sql bid = ''SELECT count(*) FROM outbox_events o '' @
     ''JOIN processed_events p ON p.event_id = o.event_id '' @
     ''WHERE o.aggregate_id = '' @ [CHR 0x27] @ bid @ [CHR 0x27] @ '' AND o.published_at IS NOT NULL;''"

definition wait_recovered :: "'o env \<Rightarrow> string \<Rightarrow> ('o, int) drill" where
  "wait_recovered E bid =
     pbind (clock E) (\<lambda>t.
     pbind (poll E (t + 60) (1 / 4) (\<lambda>_.
         pbind (psql_int E (recovered_sql bid)) (\<lambda>processed.
         if processed = 1 then ret (Inr processed) else ret (Inl ()))) ()) (\<lambda>outcome.
     case outcome of
       Inr processed \<Rightarrow> ret processed
     | Inl _ \<Rightarrow> raise (RuntimeError ''durable Redis-outage event did not recover'')))"

definition redis_outage_drill :: "'o env \<Rightarrow> ('o, jval) drill" where
  "redis_outage_drill E =
     then_do (wait_alert E ''FleetPulseOutboxFailure'' False) (
     then_do (drill_compose E True [''stop'', ''redis'']) (
     pbind (clock E) (\<lambda>injected.
     then_do (record_event E ''failure_injected'' [(''drill'', JStr ''redis_outage''), (''action'', JStr ''redis stopped'')]) (
     pbind (post_telemetry E ''phase7-redis-outage'' 40) (\<lambda>bid.
     pbind (psql_int E (''SELECT count(*) FROM telemetry_batches WHERE batch_id = '' @ [CHR 0x27] @ bid @ [CHR 0x27] @ '';''))
       (\<lambda>durable_rows.
     if durable_rows \<noteq> 1 then raise (RuntimeError ''telemetry was not durable during Redis outage'')
     else
     pbind (wait_alert E ''FleetPulseOutboxFailure'' True) (\<lambda>detection.
     pbind (clock E) (\<lambda>repair_started.
     then_do (drill_compose E True [''up'', ''-d'', ''--wait'', ''--wait-timeout'', ''60'', ''redis'']) (
     pbind (wait_recovered E bid) (\<lambda>processed.
     pbind (psql_int E (''SELECT count(*) FROM outbox_events WHERE aggregate_id = '' @ [CHR 0x27] @ bid @ [CHR 0x27] @
         '' AND published_at IS NULL;'')) (\<lambda>unpublished.
     pbind (psql_int E ''SELECT count(*) FROM dead_letters;'') (\<lambda>dead_letters.
     if unpublished \<noteq> 0 \<or> dead_letters \<noteq> 0
     then raise (RuntimeError ''Redis recovery left unpublished or dead-lettered drill state'')
     else
     pbind (clock E) (\<lambda>repaired.
     pbind (clock E) (\<lambda>recovered.
     pbind (wait_alert E ''FleetPulseOutboxFailure'' False) (\<lambda>alert_clear.
     let repair_recovery = repaired - repair_started; total_impact = recovered - injected in
     then_do (record_event E ''recovery_complete''
       [(''drill'', JStr ''redis_outage''), (''batch_id'', JStr bid), (''repair_recovery_seconds'', seconds repair_recovery),
        (''total_impact_seconds'', seconds total_impact)]) (
     ret (JObj
       [(''batch_id'', JStr bid), (''durable_rows_during_outage'', JInt durable_rows),
        (''processed_after_recovery'', JInt processed), (''unpublished_after_recovery'', JInt unpublished),
        (''dead_letters_after_recovery'', JInt dead_letters), (''alert_detection_seconds'', seconds detection),
        (''repair_recovery_seconds'', seconds repair_recovery), (''total_impact_seconds'', seconds total_impact),
        (''alert_clear_seconds'', seconds alert_clear)])))))))))))))))))"

section \<open>The run\<close>

definition fact :: "'o env \<Rightarrow> string \<Rightarrow> jval" where
  "fact E k = (case map_of (facts E) k of Some v \<Rightarrow> v | None \<Rightarrow> JNull)"

definition command_output :: "'o env \<Rightarrow> string list \<Rightarrow> ('o, string) drill" where
  "command_output E arguments = pbind (drill_command E True arguments) (\<lambda>completed. ret (strip (stdout completed)))"

definition drill_metadata :: "'o env \<Rightarrow> ('o, jval) drill" where
  "drill_metadata E =
     pbind get_self (\<lambda>h.
     pbind (on_outside (utc_now E)) (\<lambda>t.
     pbind (command_output E [''git'', ''rev-parse'', ''HEAD'']) (\<lambda>commit.
     pbind (command_output E [''git'', ''status'', ''--porcelain'']) (\<lambda>dirty.
     pbind (command_output E [''docker'', ''version'', ''--format'', ''{{.Server.Version}}'']) (\<lambda>version.
     ret (JObj
       [(''recorded_at'', JStr t), (''repository'', JStr (root E)), (''git_commit'', JStr commit),
        (''git_worktree_dirty'', JBool (dirty \<noteq> [])), (''compose_project'', JStr (rh_project h)),
        (''incident_repetitions'', JInt (rh_repetitions h)),
        (''host'', JObj [(''system'', fact E ''system''), (''release'', fact E ''release''), (''machine'', fact E ''machine''),
           (''logical_cpus'', fact E ''logical_cpus'')]),
        (''docker_version'', JStr version),
        (''prometheus_intervals'', JObj [(''scrape_seconds'', JInt 5), (''evaluation_seconds'', JInt 5)]),
        (''credentials'', JStr ''ephemeral and excluded from evidence'')]))))))"

definition capture_runtime :: "'o env \<Rightarrow> ('o, unit) drill" where
  "capture_runtime E =
     pbind get_self (\<lambda>h.
     pbind (drill_compose E False [''ps'', ''-a'']) (\<lambda>ps.
     then_do (write_text (rh_output h @ ''/compose-ps.txt'') (stdout ps)) (
     pbind (drill_compose E False [''logs'', ''--no-color'']) (\<lambda>logs.
     then_do (write_text (rh_output h @ ''/compose-logs.txt'') (stdout logs)) (
     handle
       (pbind (prometheus_get E ''/api/v1/alerts'') (\<lambda>alerts.
        if is_success alerts
        then pbind (response_json alerts) (\<lambda>v. write_pretty E (rh_output h @ ''/final-alerts.json'') v)
        else ret ()))
       (\<lambda>e. if http_error e then record_event E ''final_alert_capture_unavailable'' [] else raise e))))))"

definition run_drills :: "'o env \<Rightarrow> ('o, jval) drill" where
  "run_drills E =
     pbind (api_outage_drill E) (\<lambda>api_outage.
     pbind (incident_drills E) (\<lambda>incidents.
     pbind (redis_outage_drill E) (\<lambda>redis_outage.
     ret (JObj [(''api_outage'', api_outage), (''threshold_incidents'', incidents), (''redis_outage'', redis_outage)]))))"

definition drill_close :: "'o env \<Rightarrow> ('o, unit) drill" where
  "drill_close E =
     finally_do
       (pbind get_self (\<lambda>h. pbind (path_exists (rh_output h)) (\<lambda>b. if b then capture_runtime E else ret ())))
       (then_do (drill_compose E False [''down'', ''--volumes'']) (ret ()))"

text \<open>\<open>main\<close>, with the parsed arguments and the resolved output directory.\<close>

definition drill_body :: "'o env \<Rightarrow> ('o, int) drill" where
  "drill_body E =
     pbind get_self (\<lambda>h.
     then_do
       (handle
         (then_do (drill_setup E) (
          pbind (drill_metadata E) (\<lambda>metadata.
          pbind (run_drills E) (\<lambda>results.
          then_do (write_pretty E (rh_output h @ ''/metadata.json'') metadata) (
          write_pretty E (rh_output h @ ''/results.json'') results)))))
         (\<lambda>e.
          then_do
            (pbind (path_exists (rh_output h)) (\<lambda>b.
             if b then
               pbind (on_outside (utc_now E)) (\<lambda>t.
               write_pretty E (rh_output h @ ''/failure.json'')
                 (JObj [(''failed_at'', JStr t), (''error_type'', JStr (error_name e)), (''message'', JStr (error_text E e))]))
             else ret ()))
            (raise e)))
       (ret 0))"

definition drill_main :: "'o env \<Rightarrow> string \<Rightarrow> int \<Rightarrow> ('o, int) drill" where
  "drill_main E out repetitions =
     (if repetitions < 1 then raise (ValueError ''incident repetitions must be positive'')
      else then_do (drill_init E out repetitions) (finally_do (drill_body E) (drill_close E)))"

section \<open>Every run returns\<close>

lemma returns_drill_init [returns_intros]: "clock_ok E \<Longrightarrow> returns E (drill_init E out n)"
  unfolding drill_init_def by (intro returns_intros) simp_all

lemma returns_drill_command [returns_intros]: "clock_ok E \<Longrightarrow> returns E (drill_command E check arguments)"
  unfolding drill_command_def by (intro returns_intros) simp_all

lemma returns_drill_compose [returns_intros]: "clock_ok E \<Longrightarrow> returns E (drill_compose E check arguments)"
  unfolding drill_compose_def by (intro returns_intros) simp_all

lemma returns_record_event [returns_intros]: "clock_ok E \<Longrightarrow> returns E (record_event E event details)"
  unfolding record_event_def by (intro returns_intros) simp_all

lemma returns_api_call [returns_intros]: "clock_ok E \<Longrightarrow> returns E (api_call E verb path headers body)"
  unfolding api_call_def by (intro returns_intros) simp_all

lemma returns_prometheus_get [returns_intros]: "clock_ok E \<Longrightarrow> returns E (prometheus_get E path)"
  unfolding prometheus_get_def by (intro returns_intros) simp_all

lemma returns_api_client [returns_intros]: "returns E p \<Longrightarrow> returns E (api_client p)"
  unfolding api_client_def by (intro returns_intros)

lemma returns_drill_wait_api [returns_intros]: "clock_ok E \<Longrightarrow> returns E (drill_wait_api E timeout)"
  unfolding drill_wait_api_def by (intro returns_intros) simp_all

lemma returns_wait_prometheus [returns_intros]: "clock_ok E \<Longrightarrow> returns E (wait_prometheus E)"
  unfolding wait_prometheus_def by (intro returns_intros) simp_all

lemma returns_drill_setup [returns_intros]: "clock_ok E \<Longrightarrow> returns E (drill_setup E)"
  unfolding drill_setup_def by (intro returns_intros) simp_all

lemma returns_drill_psql [returns_intros]: "clock_ok E \<Longrightarrow> returns E (drill_psql E sql)"
  unfolding drill_psql_def by (intro returns_intros) simp_all

lemma returns_psql_int [returns_intros]: "clock_ok E \<Longrightarrow> returns E (psql_int E sql)"
  unfolding psql_int_def by (intro returns_intros) simp_all

lemma returns_firing_alert [returns_intros]: "clock_ok E \<Longrightarrow> returns E (firing_alert E alert_name)"
  unfolding firing_alert_def by (intro returns_intros) simp_all

lemma returns_wait_alert [returns_intros]: "clock_ok E \<Longrightarrow> returns E (wait_alert E alert_name firing)"
  unfolding wait_alert_def by (intro returns_intros) simp_all

lemma returns_drill_telemetry_payload [returns_intros]: "clock_ok E \<Longrightarrow> returns E (drill_telemetry_payload E agent cpu)"
  unfolding drill_telemetry_payload_def by (intro returns_intros) simp_all

lemma returns_post_telemetry [returns_intros]: "clock_ok E \<Longrightarrow> returns E (post_telemetry E agent cpu)"
  unfolding post_telemetry_def by (intro returns_intros) simp_all

lemma returns_api_outage_drill [returns_intros]: "clock_ok E \<Longrightarrow> returns E (api_outage_drill E)"
  unfolding api_outage_drill_def by (intro returns_intros) simp_all

lemma returns_wait_incident [returns_intros]: "clock_ok E \<Longrightarrow> returns E (wait_incident E agent)"
  unfolding wait_incident_def by (intro returns_intros) simp_all

lemma returns_incident_trial [returns_intros]: "clock_ok E \<Longrightarrow> returns E (incident_trial E repetition)"
  unfolding incident_trial_def by (intro returns_intros) simp_all

lemma returns_incident_drills [returns_intros]: "clock_ok E \<Longrightarrow> returns E (incident_drills E)"
  unfolding incident_drills_def by (intro returns_intros) simp_all

lemma returns_wait_recovered [returns_intros]: "clock_ok E \<Longrightarrow> returns E (wait_recovered E bid)"
  unfolding wait_recovered_def by (intro returns_intros) simp_all

lemma returns_redis_outage_drill [returns_intros]: "clock_ok E \<Longrightarrow> returns E (redis_outage_drill E)"
  unfolding redis_outage_drill_def by (intro returns_intros) simp_all

lemma returns_command_output [returns_intros]: "clock_ok E \<Longrightarrow> returns E (command_output E arguments)"
  unfolding command_output_def by (intro returns_intros) simp_all

lemma returns_drill_metadata [returns_intros]: "clock_ok E \<Longrightarrow> returns E (drill_metadata E)"
  unfolding drill_metadata_def by (intro returns_intros) simp_all

lemma returns_capture_runtime [returns_intros]: "clock_ok E \<Longrightarrow> returns E (capture_runtime E)"
  unfolding capture_runtime_def by (intro returns_intros) simp_all

lemma returns_run_drills [returns_intros]: "clock_ok E \<Longrightarrow> returns E (run_drills E)"
  unfolding run_drills_def by (intro returns_intros) simp_all

lemma returns_drill_close [returns_intros]: "clock_ok E \<Longrightarrow> returns E (drill_close E)"
  unfolding drill_close_def by (intro returns_intros) simp_all

lemma returns_drill_body [returns_intros]: "clock_ok E \<Longrightarrow> returns E (drill_body E)"
  unfolding drill_body_def by (intro returns_intros) simp_all

lemma returns_drill_main [returns_intros]: "clock_ok E \<Longrightarrow> returns E (drill_main E out repetitions)"
  unfolding drill_main_def by (intro returns_intros) simp_all



text \<open>
  C28: However a run with a positive number of repetitions ends, with status 0 or with any exception, in
  its set-up, in a drill, in writing its results or in the capture that precedes the clean-up, the last
  thing it did is take down its own compose project with its volumes.
\<close>

theorem drills_clean_up:
  assumes "drill_main E out repetitions s = Some (r, s')" and "1 \<le> repetitions"
  shows "\<exists>m. machine s' = snd (run_process E
    [''docker'', ''compose'', ''-p'', rh_project (self s'), ''down'', ''--volumes''] (rh_environment (self s')) m)"
proof -
  obtain s1 where "drill_init E out repetitions s = Some (Inr (), s1)"
    by (simp add: drill_init_def pbind_def on_outside_eq set_self_def)
  with assms have "finally_do (drill_body E) (drill_close E) s1 = Some (r, s')"
    by (simp add: drill_main_def then_do_def pbind_def)
  then obtain s2 r2 where "drill_close E s2 = Some (r2, s')"
    by (auto simp: finally_do_def split: option.splits sum.splits)
  then obtain s3 r3 where "then_do (drill_compose E False [''down'', ''--volumes'']) (ret ()) s3 = Some (r3, s')"
    by (auto simp: drill_close_def finally_do_def split: option.splits sum.splits)
  then obtain r4 where "run_checked E (rh_environment (self s3)) False
      [''docker'', ''compose'', ''-p'', rh_project (self s3), ''down'', ''--volumes''] s3 = Some (r4, s')"
    by (auto simp: then_do_def drill_compose_def drill_command_def pbind_def get_self_def ret_def split: option.splits sum.splits)
  from run_unchecked[OF this] show ?thesis by auto
qed

theorem drills_clean_up_witness:
  "\<forall>h. \<exists>r s' m. drill_main dead_env ''/srv/out'' 5 \<lparr>self = h, machine = \<lparr>files = [], dirs = [''/srv''], outside = 0\<rparr>\<rparr> = Some (r, s') \<and>
     machine s' = snd (run_process dead_env
       [''docker'', ''compose'', ''-p'', rh_project (self s'), ''down'', ''--volumes''] (rh_environment (self s')) m)"
proof
  fix h
  obtain r s' where "drill_main dead_env ''/srv/out'' 5 \<lparr>self = h, machine = \<lparr>files = [], dirs = [''/srv''], outside = 0\<rparr>\<rparr> = Some (r, s')"
    using returns_drill_main[OF dead_env_clock] by (rule returnsE)
  with drills_clean_up[OF this] show "\<exists>r s' m. drill_main dead_env ''/srv/out'' 5 \<lparr>self = h, machine = \<lparr>files = [], dirs = [''/srv''], outside = 0\<rparr>\<rparr> = Some (r, s') \<and>
     machine s' = snd (run_process dead_env
       [''docker'', ''compose'', ''-p'', rh_project (self s'), ''down'', ''--volumes''] (rh_environment (self s')) m)"
    by auto
qed

lemma wait_recovered_one: "wait_recovered E bid s = Some (Inr n, s') \<Longrightarrow> n = 1"
  by (auto simp: wait_recovered_def prog_simps split: if_splits elim!: poll_done[where I = "\<lambda>_. True"])


text \<open>A small deployment: its outside is the time and whether Redis is down, which Prometheus alerts on.\<close>

definition small_env :: "(rat \<times> bool) env" where
  "small_env = \<lparr>run_process = (\<lambda>a v m.
        (Inr \<lparr>returncode = 0,
             stdout = (if starts_with ''SELECT count(*) FROM outbox_events W'' (last a) \<or> starts_with ''SELECT count(*) FROM d'' (last a) then ''0'' else ''1''), stderr = []\<rparr>,
         m\<lparr>outside := (fst (outside m), if a ! 4 = ''stop'' then True else if a ! 4 = ''up'' then False else snd (outside m))\<rparr>)),
     request = (\<lambda>c out. (Inr \<lparr>http_status = 200, http_body = dumps (\<lambda>_. []) compact (
        if call_method c = ''POST'' then JObj [(''status'', JStr ''accepted'')]
        else JObj [(''data'', JObj [(''alerts'', JList (if snd out then
          [JObj [(''labels'', JObj [(''alertname'', JStr ''FleetPulseOutboxFailure'')]), (''state'', JStr ''firing'')]] else []))])])\<rparr>, out)),
     monotonic = (\<lambda>out. (fst out, out)), sleep = (\<lambda>d out. (fst out + d, snd out)),
     utc_now = (\<lambda>out. (''now'', out)), uuid4 = (\<lambda>out. (0, out)), token_urlsafe = (\<lambda>out. (''token'', out)),
     os_environ = [], which = (\<lambda>_. True), facts = [], float_text = (\<lambda>_. ''0.0''), py_str = (\<lambda>_. []),
     error_text = error_name, rounded = id, root = ''/srv'', gzipped = id, sampler_passes = (\<lambda>_. 0)\<rparr>"

lemma small_env_clock: "clock_ok small_env"
  by (simp add: clock_ok_def now_at_def small_env_def)

definition small_state :: "(reliability, rat \<times> bool) script" where
  "small_state = \<lparr>self = \<lparr>rh_output = ''/o'', rh_repetitions = 1, rh_project = ''p'', rh_environment = [], rh_token = ''t'',
       rh_timeline = ''/o/t'', rh_api = True\<rparr>,
     machine = \<lparr>files = [], dirs = [''/o''], outside = (0, False)\<rparr>\<rparr>"

definition ready :: "bool \<Rightarrow> (reliability, rat \<times> bool) script \<Rightarrow> bool" where
  "ready down s \<longleftrightarrow> rh_api (self s) \<and> rh_project (self s) = ''p'' \<and>
     parent_dir (rh_timeline (self s)) \<in> set (dirs (machine s)) \<and> snd (outside (machine s)) = down"

lemmas run_defs = pbind_def then_do_def get_self_def on_outside_eq on_machine_def ret_def raise_def lift_res_def

lemma small_record: "ready down s \<Longrightarrow> \<exists>s'. record_event small_env e m s = Some (Inr (), s') \<and> ready down s'"
  by (simp add: record_event_def run_defs append_text_def in_directory_def ready_def small_env_def)

lemma small_clock: "clock small_env s = Some (Inr (fst (outside (machine s))), s)"
  by (simp add: clock_def on_outside_eq small_env_def)

lemma small_process:
  assumes "ready down s"
  shows "\<exists>x s'. drill_compose small_env True [''stop'', ''redis''] s = Some (Inr x, s') \<and> ready True s'"
    "\<exists>x s'. drill_compose small_env True [''up'', ''-d'', ''--wait'', ''--wait-timeout'', ''60'', ''redis''] s = Some (Inr x, s') \<and>
       ready False s'"
  using assms by (simp_all add: drill_compose_def drill_command_def run_checked_def run_defs ready_def small_env_def)

lemma small_numbers: "py_int (JStr (strip ''0'')) = Inr 0" "py_int (JStr (strip ''1'')) = Inr 1"
  by code_simp+

lemma small_psql:
  assumes "ready down s"
  shows "\<exists>s'. psql_int small_env sql s =
    Some (Inr (if starts_with ''SELECT count(*) FROM outbox_events W'' sql \<or> starts_with ''SELECT count(*) FROM d'' sql then 0 else 1), s') \<and> ready down s'"
  using assms by (simp add: psql_int_def drill_psql_def drill_compose_def drill_command_def run_checked_def run_defs ready_def
      small_env_def small_numbers)

lemma small_alert:
  "ready down s \<Longrightarrow> \<exists>a. firing_alert small_env ''FleetPulseOutboxFailure'' s = Some (Inr a, s) \<and> (a \<noteq> None) = down"
  by (simp add: firing_alert_def prometheus_get_def send_call_def response_json_def run_defs raise_for_status_def loads_dumps
      subscript_def dict_get_def iterate_def ready_def small_env_def del: dumps.simps)

lemma small_poll:
  assumes "fst (outside (machine s)) < deadline" and "step c s = Some (Inr (Inr x), s')"
  shows "poll small_env deadline d step c s = Some (Inr (Inr x), s')"
proof -
  have m: "monotonic small_env (outside (machine s)) = (fst (outside (machine s)), outside (machine s))"
    by (simp add: small_env_def)
  have s: "s\<lparr>machine := (machine s)\<lparr>outside := outside (machine s)\<rparr>\<rparr> = s" by simp
  show ?thesis by (subst poll.simps) (simp only: m s assms prod.case Let_def if_True option.case sum.case)
qed

lemma small_wait:
  assumes "ready down s"
  shows "\<exists>x s'. wait_alert small_env ''FleetPulseOutboxFailure'' down s = Some (Inr x, s') \<and> ready down s'"
proof -
  obtain a where a: "firing_alert small_env ''FleetPulseOutboxFailure'' s = Some (Inr a, s)" "(a \<noteq> None) = down"
    using small_alert[OF assms] by blast
  let ?t = "fst (outside (machine s))"
  let ?details = "\<lambda>alert t. [(''alert'', JStr ''FleetPulseOutboxFailure''), (''state'', JStr (if down then ''firing'' else ''clear'')),
              (''elapsed_seconds'', seconds (t - ?t)), (''evidence'', (case alert of None \<Rightarrow> JNull | Some a \<Rightarrow> a))]"
  let ?step = "\<lambda>_. pbind (firing_alert small_env ''FleetPulseOutboxFailure'') (\<lambda>alert.
         if (alert \<noteq> None) = down then
           pbind (clock small_env) (\<lambda>t.
           then_do (record_event small_env ''alert_transition'' (?details alert t)) (ret (Inr (t - ?t))))
         else ret (Inl ()))"
  obtain s1 where s1: "record_event small_env ''alert_transition'' (?details a ?t) s = Some (Inr (), s1)" "ready down s1"
    using small_record[OF assms] by blast
  have s': "?step () s = Some (Inr (Inr 0), s1)"
    using s1(1) unfolding pbind_def then_do_def a(1) small_clock ret_def by (simp only: option.case prod.case sum.case a(2) if_True) simp
  have "poll small_env (?t + 90) (1 / 4) ?step () s = Some (Inr (Inr 0), s1)"
    using s' by (intro small_poll) simp_all
  then have "wait_alert small_env ''FleetPulseOutboxFailure'' down s = Some (Inr 0, s1)"
    unfolding wait_alert_def pbind_step[OF small_clock] by (rule pbind_Inr[THEN iffD2, OF exI, OF exI, OF conjI]) (simp add: ret_def)
  with s1(2) show ?thesis by blast
qed

lemma small_post:
  assumes "ready down s"
  shows "\<exists>x s'. post_telemetry small_env agent cpu s = Some (Inr x, s') \<and> ready down s'"
  using assms by (simp add: post_telemetry_def api_client_def drill_telemetry_payload_def api_call_def send_call_def
      response_json_def run_defs raise_for_status_def loads_dumps subscript_def ready_def small_env_def del: dumps.simps)

lemma small_recovered:
  assumes "ready down s"
  shows "\<exists>x s'. wait_recovered small_env bid s = Some (Inr x, s') \<and> ready down s'"
proof -
  obtain s1 where s1: "psql_int small_env (recovered_sql bid) s = Some (Inr 1, s1)" "ready down s1"
    using small_psql[OF assms, of "recovered_sql bid"] by (auto simp: recovered_sql_def starts_with_def)
  let ?step = "\<lambda>_. pbind (psql_int small_env (recovered_sql bid)) (\<lambda>processed.
         if processed = 1 then ret (Inr processed) else ret (Inl ()))"
  have "?step () s = Some (Inr (Inr 1), s1)" using s1(1) by (simp add: run_defs)
  then have "poll small_env (fst (outside (machine s)) + 60) (1 / 4) ?step () s = Some (Inr (Inr 1), s1)"
    by (intro small_poll) simp_all
  then have "wait_recovered small_env bid s = Some (Inr 1, s1)"
    unfolding wait_recovered_def pbind_step[OF small_clock] by (rule pbind_Inr[THEN iffD2, OF exI, OF exI, OF conjI]) (simp add: ret_def)
  with s1(2) show ?thesis by blast
qed

lemma small_redis_drill:
  assumes "ready False s"
  shows "\<exists>report s'. redis_outage_drill small_env s = Some (Inr report, s')"
proof -
  obtain x1 s1 where 1: "wait_alert small_env ''FleetPulseOutboxFailure'' False s = Some (Inr x1, s1)" "ready False s1"
    using small_wait[OF assms] by blast
  obtain x2 s2 where 2: "drill_compose small_env True [''stop'', ''redis''] s1 = Some (Inr x2, s2)" "ready True s2"
    using small_process(1)[OF 1(2)] by blast
  obtain s3 where 3: "record_event small_env ''failure_injected'' [(''drill'', JStr ''redis_outage''), (''action'', JStr ''redis stopped'')] s2 = Some (Inr (), s3)" "ready True s3"
    using small_record[OF 2(2)] by blast
  obtain bid s4 where 4: "post_telemetry small_env ''phase7-redis-outage'' 40 s3 = Some (Inr bid, s4)" "ready True s4"
    using small_post[OF 3(2)] by blast
  obtain s5 where 5: "psql_int small_env (''SELECT count(*) FROM telemetry_batches WHERE batch_id = '' @ [CHR 0x27] @ bid @ [CHR 0x27] @ '';'') s4 = Some (Inr 1, s5)" "ready True s5"
    using small_psql[OF 4(2), of "''SELECT count(*) FROM telemetry_batches WHERE batch_id = '' @ [CHR 0x27] @ bid @ [CHR 0x27] @ '';''"]
    by (auto simp: starts_with_def)
  obtain x6 s6 where 6: "wait_alert small_env ''FleetPulseOutboxFailure'' True s5 = Some (Inr x6, s6)" "ready True s6"
    using small_wait[OF 5(2)] by blast
  obtain x7 s7 where 7: "drill_compose small_env True [''up'', ''-d'', ''--wait'', ''--wait-timeout'', ''60'', ''redis''] s6 = Some (Inr x7, s7)" "ready False s7"
    using small_process(2)[OF 6(2)] by blast
  obtain x8 s8 where 8: "wait_recovered small_env bid s7 = Some (Inr x8, s8)" "ready False s8"
    using small_recovered[OF 7(2)] by blast
  obtain s9 where 9: "psql_int small_env (''SELECT count(*) FROM outbox_events WHERE aggregate_id = '' @ [CHR 0x27] @ bid @ [CHR 0x27] @
         '' AND published_at IS NULL;'') s8 = Some (Inr 0, s9)" "ready False s9"
    using small_psql[OF 8(2), of "''SELECT count(*) FROM outbox_events WHERE aggregate_id = '' @ [CHR 0x27] @ bid @ [CHR 0x27] @
         '' AND published_at IS NULL;''"] by (auto simp: starts_with_def)
  obtain s10 where 10: "psql_int small_env ''SELECT count(*) FROM dead_letters;'' s9 = Some (Inr 0, s10)" "ready False s10"
    using small_psql[OF 9(2), of "''SELECT count(*) FROM dead_letters;''"] by (auto simp: starts_with_def)
  obtain x11 s11 where 11: "wait_alert small_env ''FleetPulseOutboxFailure'' False s10 = Some (Inr x11, s11)" "ready False s11"
    using small_wait[OF 10(2)] by blast
  have r: "\<exists>s'. record_event small_env e m s11 = Some (Inr (), s')" for e m
    using small_record[OF 11(2)] by blast
  have last: "\<exists>x s'. then_do (record_event small_env e m) (ret v) s11 = Some (Inr x, s')" for e m v
    using r[of e m] by (auto simp: then_do_def pbind_def ret_def)
  show ?thesis
    using 1(1) 2(1) 3(1) 4(1) 5(1) 6(1) 7(1) 8(1) 9(1) 10(1) 11(1) last
    by (simp add: redis_outage_drill_def Let_def then_do_def pbind_def small_clock if_prog)
qed


text \<open>Reading the parts of the payload: integers are read into the float fields.\<close>

definition drill_sample :: "datetime \<Rightarrow> int \<Rightarrow> TelemetrySample" where
  "drill_sample d cpu = \<lparr>observed_at = d, cpu_percent = Fin (of_int cpu), load_1m = Fin 1, load_5m = Fin 1, load_15m = Fin 1,
    memory = \<lparr>mem_total_bytes = 1024, mem_available_bytes = 512, mem_used_bytes = 512, mem_used_percent = Fin 50\<rparr>,
    disks = [\<lparr>disk_mount = ''/'', disk_total_bytes = 1024, disk_used_bytes = 512, disk_free_bytes = 512,
      disk_used_percent = Fin 50\<rparr>],
    network = \<lparr>bytes_sent = 1, bytes_received = 1, packets_sent = 1, packets_received = 1, errors_in = 0, errors_out = 0,
      drops_in = 0, drops_out = 0, tcp_established = 1, tcp_listening = 1, tcp_other = 0, udp_sockets = 0\<rparr>,
    process_count = 1, top_processes = []\<rparr>"

lemmas read_defs = object_of_def field_def list_of_def guard_opt_def percentage_def non_negative_int_def non_negative_float_def
  str_len_def

lemma read_drill_parts:
  assumes "codec_ok c" and "\<And>i. as_float c (JInt i) = Some (Fin (of_int i))"
  shows "validate_memory c (JObj [(''total_bytes'', JInt 1024), (''available_bytes'', JInt 512), (''used_bytes'', JInt 512),
      (''used_percent'', JInt 50)]) = Some (memory (drill_sample d cpu))"
    and "validate_disk c (JObj [(''mount'', JStr ''/''), (''total_bytes'', JInt 1024), (''used_bytes'', JInt 512),
      (''free_bytes'', JInt 512), (''used_percent'', JInt 50)]) = Some (hd (disks (drill_sample d cpu)))"
    and "validate_network c (JObj [(''bytes_sent'', JInt 1), (''bytes_received'', JInt 1), (''packets_sent'', JInt 1),
      (''packets_received'', JInt 1), (''errors_in'', JInt 0), (''errors_out'', JInt 0), (''drops_in'', JInt 0),
      (''drops_out'', JInt 0), (''tcp_established'', JInt 1), (''tcp_listening'', JInt 1), (''tcp_other'', JInt 0),
      (''udp_sockets'', JInt 0)]) = Some (network (drill_sample d cpu))"
  by (simp_all add: validate_memory_def validate_disk_def validate_network_def read_defs drill_sample_def assms(2)
      codec_okD[OF assms(1)])

text \<open>
  The telemetry a drill posts is accepted by the ingestion contract and read as the batch the drill
  means: under the batch id it looks for afterwards, from the agent it names, with the CPU load it
  chose. (Pydantic reads an integer into a float field.)
\<close>

theorem drill_telemetry_accepted:
  assumes "codec_ok c" and "\<And>i. as_float c (JInt i) = Some (Fin (of_int i))" and "agent_id_ok agent"
    and "is_aware d" and "0 \<le> cpu" and "cpu \<le> 100"
  shows "\<exists>b. validate_batch c (drill_payload (uuid_str u) agent (show_datetime c d) cpu) = Some b \<and> wf_batch b \<and>
    batch_id b = u \<and> agent_id b = agent \<and> map observed_at (samples b) = [d] \<and> map cpu_percent (samples b) = [Fin (of_int cpu)]"
proof -
  let ?b = "\<lparr>schema_version = 1, batch_id = u, agent_id = agent, hostname = agent @ ''-host'', samples = [drill_sample d cpu]\<rparr>"
  have host: "str_len 1 255 (agent @ ''-host'')"
    using assms(3) by (auto simp: agent_id_ok_def str_len_def split: list.splits)
  obtain m where aware: "utcoffset d = Some m" using assms(4) by (auto simp: is_aware_def)
  have sample: "drill_sample d cpu = \<lparr>observed_at = d, cpu_percent = Fin (of_int cpu), load_1m = Fin 1, load_5m = Fin 1,
      load_15m = Fin 1, memory = memory (drill_sample d cpu), disks = [hd (disks (drill_sample d cpu))],
      network = network (drill_sample d cpu), process_count = 1, top_processes = []\<rparr>"
    by (simp add: drill_sample_def)
  note parts = read_drill_parts[OF assms(1,2), of d cpu]
  have "validate_batch c (drill_payload (uuid_str u) agent (show_datetime c d) cpu) = Some ?b"
    using assms(3,5,6) host
    by (subst sample, simp add: validate_batch_def drill_payload_def schema_version_of_def validate_sample_def parts assms(2)
       codec_okD[OF assms(1)] assms(4) aware observed_at_must_be_timezone_aware_def object_of_def field_def list_of_def guard_opt_def
       percentage_def non_negative_int_def non_negative_float_def)
  moreover have "wf_batch ?b"
    using assms(3,5,6) host
    by (simp add: wf_batch_def wf_sample_def wf_memory_def wf_disk_def wf_network_def drill_sample_def assms(4) percentage_def
        non_negative_int_def non_negative_float_def str_len_def)
  ultimately show ?thesis by (simp add: drill_sample_def)
qed

theorem drill_telemetry_accepted_witness:
  "\<exists>b. validate_batch example_codec (drill_payload (uuid_str 7) ''phase7-redis-outage'' (show_datetime example_codec (utc_at 0)) 40) = Some b \<and>
     batch_id b = 7 \<and> map cpu_percent (samples b) = [Fin 40]"
proof -
  have "as_float example_codec (JInt i) = Some (Fin (of_int i))" for i by (simp add: example_codec_def)
  moreover have "agent_id_ok ''phase7-redis-outage''" by code_simp
  ultimately show ?thesis
    using drill_telemetry_accepted[of example_codec "''phase7-redis-outage''" "utc_at 0" 40 7] by (auto simp: example_codec_ok)
qed

end
