(* ===== verification/Experiments.thy ===== *)
theory Experiments
  imports Script
begin

text \<open>
  The controlled performance experiments of \<open>tools/performance_runner.py\<close>, as programs over the
  environment of theory \<open>Script\<close>. The \<open>PerformanceHarness\<close> is a record; its attributes that change
  are the results and the process environment.

  The resource sampler is a thread. Its passes between its start and its stop are run as a block when it
  starts; how many there are is given by the environment for each name of a block. It only appends to
  its own files, and an exception ends it and nothing else. Durations are exact rationals, and so are
  the float literals of the code.

  The lemmas show that a run returns, what a recorded worker result guarantees, and where the code
  differs from what it means to do: the sampler dies on a failed docker command, and the harness cannot
  be constructed before the certificate it would generate exists.
\<close>

section \<open>The harness\<close>

record performance =
  pf_output :: string
  pf_repetitions :: nat
  pf_keep_running :: bool
  pf_project :: string
  pf_results :: "(string \<times> jval) list list"
  pf_environment :: "(string \<times> string) list"
  pf_token :: string

type_synonym ('o, 'a) measured = "(performance, 'o, 'a) prog"

definition SERVICES :: "string list" where
  "SERVICES = [''postgres'', ''redis'', ''api'', ''worker'', ''outbox-relay'', ''nginx'']"

definition TRUNCATE_SQL :: string where
  "TRUNCATE_SQL = [CHR 0x0A] @ ''TRUNCATE TABLE dead_letters, processed_events, deployments, incidents, fleet_state,'' @
     [CHR 0x0A] @ ''outbox_events, telemetry_batches, agents RESTART IDENTITY CASCADE;'' @ [CHR 0x0A]"

definition perf_init :: "'o env \<Rightarrow> string \<Rightarrow> nat \<Rightarrow> bool \<Rightarrow> ('o, unit) measured" where
  "perf_init E out repetitions keep_running =
     pbind (on_outside (uuid4 E)) (\<lambda>u.
     pbind (on_outside (token_urlsafe E)) (\<lambda>token.
     pbind (on_outside (token_urlsafe E)) (\<lambda>password.
     then_do (set_self (\<lambda>_. \<lparr>pf_output = out, pf_repetitions = repetitions, pf_keep_running = keep_running,
       pf_project = ''fleetpulse-p6-'' @ take 8 (filter (\<lambda>c. c \<noteq> CHR ''-'') (uuid_str u)), pf_results = [],
       pf_environment = merge_dict (os_environ E)
         [(''FLEETPULSE_AGENT_TOKEN'', token), (''FLEETPULSE_POSTGRES_PASSWORD'', password), (''FLEETPULSE_CACHE_ENABLED'', ''true'')],
       pf_token = token\<rparr>))
     (open_client (ca_bundle E)))))"

definition perf_command :: "'o env \<Rightarrow> bool \<Rightarrow> (string \<times> string) list option \<Rightarrow> string list \<Rightarrow> ('o, completed) measured" where
  "perf_command E check environ arguments =
     pbind get_self (\<lambda>h.
     run_checked E (case environ of None \<Rightarrow> pf_environment h | Some v \<Rightarrow> if v = [] then pf_environment h else v) check arguments)"

definition perf_compose :: "'o env \<Rightarrow> bool \<Rightarrow> string list \<Rightarrow> ('o, completed) measured" where
  "perf_compose E check arguments =
     pbind get_self (\<lambda>h. perf_command E check None ([''docker'', ''compose'', ''-p'', pf_project h] @ arguments))"

definition perf_psql :: "'o env \<Rightarrow> string \<Rightarrow> ('o, string) measured" where
  "perf_psql E sql =
     pbind (perf_compose E True [''exec'', ''-T'', ''postgres'', ''psql'', ''-v'', ''ON_ERROR_STOP=1'', ''-U'', ''fleetpulse'',
       ''-d'', ''fleetpulse'', ''-Atc'', sql]) (\<lambda>result. ret (strip (stdout result)))"

definition perf_redis :: "'o env \<Rightarrow> bool \<Rightarrow> string list \<Rightarrow> ('o, string) measured" where
  "perf_redis E check arguments =
     pbind (perf_compose E check ([''exec'', ''-T'', ''redis'', ''redis-cli'', ''--raw''] @ arguments))
       (\<lambda>result. ret (strip (stdout result)))"

definition perf_call :: "'o env \<Rightarrow> string \<Rightarrow> string \<Rightarrow> (string \<times> string) list \<Rightarrow> jval option \<Rightarrow> ('o, http_response) measured" where
  "perf_call E verb path headers body =
     pbind get_self (\<lambda>h.
     send_call E \<lparr>call_method = verb, call_url = ''https://localhost:8443'' @ path,
       call_headers = (''Authorization'', ''Bearer '' @ pf_token h) # headers, call_json = body\<rparr>)"

definition perf_wait_api :: "'o env \<Rightarrow> ('o, unit) measured" where
  "perf_wait_api E =
     pbind (clock E) (\<lambda>t.
     pbind (poll E (t + 60) (1 / 2) (\<lambda>last_error.
         handle
           (pbind (perf_call E ''GET'' ''/readyz'' [] None) (\<lambda>response.
            then_do (lift_res (raise_for_status response)) (ret (Inr ()))))
           (\<lambda>e. if http_error e \<or> os_error e then ret (Inl (Some e)) else raise e))
       None) (\<lambda>outcome.
     case outcome of
       Inr _ \<Rightarrow> ret ()
     | Inl last_error \<Rightarrow> raise (RuntimeError (''API did not become ready: '' @
         (case last_error of None \<Rightarrow> ''None'' | Some e \<Rightarrow> error_text E e)))))"

definition perf_setup :: "'o env \<Rightarrow> ('o, unit) measured" where
  "perf_setup E =
     pbind get_self (\<lambda>h.
     then_do (make_dirs False (pf_output h)) (
     then_do (make_dirs False (pf_output h @ ''/raw'')) (
     if \<not> which E ''k6'' then raise (RuntimeError ''k6 is required; install it before running Phase 6'')
     else
     pbind (path_exists (ca_bundle E)) (\<lambda>present.
     then_do
       (if \<not> present then
          then_do (perf_command E True None [''./scripts/generate_local_tls.sh'']) (open_client (ca_bundle E))
        else ret ()) (
     then_do (perf_compose E True [''build'', ''api'', ''worker'', ''outbox-relay'']) (
     then_do (perf_compose E True [''up'', ''-d'', ''--wait'', ''--wait-timeout'', ''120'', ''--scale'', ''api=2'', ''postgres'',
       ''redis'', ''api'', ''nginx'']) (
     perf_wait_api E)))))))"

definition reset_state :: "'o env \<Rightarrow> ('o, unit) measured" where
  "reset_state E =
     then_do (perf_compose E False [''stop'', ''worker'', ''outbox-relay'']) (
     then_do (perf_compose E False [''rm'', ''-f'', ''-s'', ''worker'', ''outbox-relay'']) (
     then_do (perf_psql E TRUNCATE_SQL) (
     then_do (perf_redis E True [''FLUSHDB'']) (ret ()))))"

definition configure_cache :: "'o env \<Rightarrow> bool \<Rightarrow> ('o, unit) measured" where
  "configure_cache E enabled =
     then_do (set_self (\<lambda>h. h\<lparr>pf_environment := AList.update ''FLEETPULSE_CACHE_ENABLED''
       (if enabled then ''true'' else ''false'') (pf_environment h)\<rparr>)) (
     then_do (perf_compose E True [''up'', ''-d'', ''--wait'', ''--wait-timeout'', ''120'', ''--force-recreate'', ''--scale'',
       ''api=2'', ''api'', ''nginx'']) (
     perf_wait_api E))"

section \<open>Seeding\<close>

definition experiment_payload :: "string \<Rightarrow> string \<Rightarrow> string \<Rightarrow> jval" where
  "experiment_payload agent bid observed = JObj
     [(''schema_version'', JInt 1), (''batch_id'', JStr bid), (''agent_id'', JStr agent),
      (''hostname'', JStr (agent @ ''-host'')),
      (''samples'', JList [JObj
         [(''observed_at'', JStr observed), (''cpu_percent'', JInt 42), (''load_1m'', JFloat (Fin (2 / 5))),
          (''load_5m'', JFloat (Fin (3 / 10))), (''load_15m'', JFloat (Fin (1 / 5))),
          (''memory'', JObj [(''total_bytes'', JInt 1024), (''available_bytes'', JInt 512), (''used_bytes'', JInt 512),
             (''used_percent'', JInt 50)]),
          (''disks'', JList [JObj [(''mount'', JStr ''/''), (''total_bytes'', JInt 1024), (''used_bytes'', JInt 512),
             (''free_bytes'', JInt 512), (''used_percent'', JInt 50)]]),
          (''network'', JObj [(''bytes_sent'', JInt 1), (''bytes_received'', JInt 1), (''packets_sent'', JInt 1),
             (''packets_received'', JInt 1), (''errors_in'', JInt 0), (''errors_out'', JInt 0), (''drops_in'', JInt 0),
             (''drops_out'', JInt 0), (''tcp_established'', JInt 1), (''tcp_listening'', JInt 1), (''tcp_other'', JInt 0),
             (''udp_sockets'', JInt 0)]),
          (''process_count'', JInt 1), (''top_processes'', JList [])]])]"

definition seed_fleet_state :: "'o env \<Rightarrow> ('o, unit) measured" where
  "seed_fleet_state E =
     then_do (perf_compose E True [''up'', ''-d'', ''--scale'', ''worker=1'', ''worker'', ''outbox-relay'']) (
     pbind (on_outside (uuid4 E)) (\<lambda>u.
     pbind (on_outside (utc_now E)) (\<lambda>now.
     pbind (perf_call E ''POST'' ''/v1/telemetry/batches'' [(''X-Request-ID'', ''phase6-seed'')]
       (Some (experiment_payload ''phase6-seed'' (uuid_str u) now))) (\<lambda>response.
     then_do (lift_res (raise_for_status response)) (
     pbind (clock E) (\<lambda>t.
     pbind (poll E (t + 30) (1 / 4) (\<lambda>_.
         pbind (perf_psql E ''SELECT count(*) FROM fleet_state;'') (\<lambda>rows.
         if rows = ''1'' then
           then_do (perf_compose E True [''stop'', ''worker'', ''outbox-relay'']) (
           then_do (perf_compose E True [''rm'', ''-f'', ''-s'', ''worker'', ''outbox-relay'']) (ret (Inr ())))
         else ret (Inl ()))) ()) (\<lambda>outcome.
     case outcome of
       Inr _ \<Rightarrow> ret ()
     | Inl _ \<Rightarrow> raise (RuntimeError ''seed telemetry did not produce fleet state''))))))))"

section \<open>Resource sampler\<close>

definition container_service :: "'o env \<Rightarrow> string \<Rightarrow> ('o, string) measured" where
  "container_service E name =
     pbind (perf_command E True None [''docker'', ''inspect'', ''--format'',
       ''{{ index .Config.Labels '' @ [dquote] @ ''com.docker.compose.service'' @ [dquote] @ '' }}'', name])
       (\<lambda>result. ret (strip (stdout result)))"

definition container_services :: "'o env \<Rightarrow> ('o, (string \<times> string) list) measured" where
  "container_services E =
     pbind get_self (\<lambda>h.
     pbind (perf_command E True None [''docker'', ''ps'', ''--filter'', ''label=com.docker.compose.project='' @ pf_project h,
       ''--format'', ''{{.Names}}'']) (\<lambda>result.
     pbind (collect (\<lambda>name. pbind (container_service E name) (\<lambda>service. ret (name, service)))
       (filter (\<lambda>name. name \<noteq> []) (splitlines (stdout result)))) (\<lambda>pairs.
     ret (merge_dict [] (filter (\<lambda>(_, service). service \<in> set SERVICES) pairs)))))"

definition text_of :: "jval \<Rightarrow> string res" where
  "text_of v = (case v of JStr s \<Rightarrow> Inr s | _ \<Rightarrow> Inl AttributeError)"

text \<open>The record of one line of \<open>docker stats\<close>.\<close>

definition stats_record :: "(string \<times> string) list \<Rightarrow> nat \<Rightarrow> string \<Rightarrow> string \<Rightarrow> (string \<times> jval) list res" where
  "stats_record mapping sample_id sampled_at line =
     res_bind (res_of JSONDecodeError (loads line)) (\<lambda>value.
     res_bind (subscript value ''Name'') (\<lambda>name.
     res_bind (res_bind (subscript value ''MemUsage'') text_of) (\<lambda>usage.
     let used = (case split_first (CHR ''/'') usage of None \<Rightarrow> usage | Some (a, _) \<Rightarrow> a) in
     res_bind (case name of
         JStr n \<Rightarrow> res_of (KeyError n) (map_of mapping n)
       | _ \<Rightarrow> if hashable name then Inl (KeyError []) else Inl TypeError) (\<lambda>service.
     res_bind (res_bind (subscript value ''CPUPerc'') text_of) (\<lambda>cpu_text.
     res_bind (parse_percent cpu_text) (\<lambda>cpu.
     res_bind (parse_bytes used) (\<lambda>memory.
     Inr [(''sample_id'', JInt (int sample_id)), (''sampled_at'', JStr sampled_at), (''container'', name),
          (''service'', JStr service), (''cpu_percent'', JFloat cpu), (''memory_bytes'', JInt memory)])))))))"

definition sample_once :: "'o env \<Rightarrow> string \<Rightarrow> nat \<Rightarrow> ('o, nat) measured" where
  "sample_once E path sample_id =
     handle
       (pbind (container_services E) (\<lambda>mapping.
        then_do
          (if mapping = [] then ret ()
           else
             pbind (perf_command E True None ([''docker'', ''stats'', ''--no-stream'', ''--format'', ''{{json .}}''] @ map fst mapping))
               (\<lambda>stats.
             pbind (on_outside (utc_now E)) (\<lambda>sampled_at.
             then_do (append_text path []) (
             for_each (\<lambda>line.
                 if strip line = [] then ret ()
                 else pbind (lift_res (stats_record mapping sample_id sampled_at line)) (\<lambda>record.
                   append_text path (json_line E record)))
               (splitlines (stdout stats))))))
          (ret (Suc sample_id))))
       (\<lambda>e.
        if (case e of KeyError _ \<Rightarrow> True | ValueError _ \<Rightarrow> True | JSONDecodeError \<Rightarrow> True
              | ServiceError n \<Rightarrow> n \<in> set [''SubprocessError'', ''CalledProcessError'', ''TimeoutExpired''] | _ \<Rightarrow> False) then
          pbind (on_outside (utc_now E)) (\<lambda>t.
          then_do (append_text (parent_dir path @ ''/resource-sampler-errors.txt'')
            (t @ '' '' @ error_name e @ '': '' @ error_text E e @ [CHR 0x0A])) (ret sample_id))
        else raise e)"

text \<open>\<open>sample_resources\<close> makes the given number of passes before it sees the stop event.\<close>

primrec sample_resources :: "'o env \<Rightarrow> string \<Rightarrow> nat \<Rightarrow> nat \<Rightarrow> ('o, unit) measured" where
  "sample_resources E path 0 sample_id = ret ()"
| "sample_resources E path (Suc passes) sample_id =
     pbind (sample_once E path sample_id) (\<lambda>sample_id'.
     then_do (pause E 1) (sample_resources E path passes sample_id'))"

definition sampler_thread :: "'o env \<Rightarrow> string \<Rightarrow> string \<Rightarrow> ('o, unit) measured" where
  "sampler_thread E block path = handle (sample_resources E path (sampler_passes E block) 0) (\<lambda>_. ret ())"

section \<open>k6\<close>

definition run_k6 :: "'o env \<Rightarrow> string \<Rightarrow> string \<Rightarrow> int \<Rightarrow> string \<Rightarrow> string \<Rightarrow> string \<Rightarrow> ('o, (string \<times> pyfloat) list) measured" where
  "run_k6 E directory mode rate duration run_id resource_path =
     pbind get_self (\<lambda>h.
     let raw_path = directory @ ''/k6-samples.jsonl''; summary_path = directory @ ''/k6-summary.json'';
         k6_environment = merge_dict (pf_environment h)
           [(''BASE_URL'', ''https://localhost:8443''), (''TOKEN'', pf_token h), (''MODE'', mode), (''RATE'', show_int rate),
            (''DURATION'', duration), (''RUN_ID'', run_id)] in
     then_do (make_dirs True directory) (
     then_do (sampler_thread E run_id resource_path) (
     pbind (perf_command E False (Some k6_environment)
       [''k6'', ''run'', ''--quiet'', ''--summary-export'', summary_path, ''--out'', ''json='' @ raw_path,
        root E @ ''/load/k6/fleetpulse.js'']) (\<lambda>completed.
     then_do (write_text (directory @ ''/k6-console.txt'') (stdout completed @ stderr completed)) (
     if returncode completed \<noteq> 0 then raise (RuntimeError (''k6 failed; inspect '' @ directory @ ''/k6-console.txt''))
     else
     pbind (read_text raw_path) (\<lambda>raw.
     then_do (write_text (raw_path @ ''.gz'') (gzipped E raw)) (
     then_do (unlink raw_path) (
     pbind (read_text summary_path) (\<lambda>text.
     pbind (lift_res (res_of JSONDecodeError (loads text))) (\<lambda>summary.
     lift_res (k6_metrics summary)))))))))))"

section \<open>Results\<close>

definition float_members :: "(string \<times> pyfloat) list \<Rightarrow> (string \<times> jval) list" where
  "float_members m = map (\<lambda>(k, f). (k, JFloat f)) m"

definition member_float :: "(string \<times> pyfloat) list \<Rightarrow> string \<Rightarrow> pyfloat res" where
  "member_float m k = res_of (KeyError k) (map_of m k)"

text \<open>The result with its resources: the summary per service and two top-level members per service.\<close>

definition with_resources :: "(string \<times> (string \<times> pyfloat) list) list \<Rightarrow> (string \<times> jval) list \<Rightarrow> (string \<times> jval) list res" where
  "with_resources resources result =
     fold_res (\<lambda>(service, values) r.
         res_bind (member_float values ''cpu_max_percent'') (\<lambda>cpu.
         res_bind (member_float values ''memory_max_bytes'') (\<lambda>memory.
         Inr (AList.update (''resource_'' @ service @ ''_memory_max_bytes'') (JFloat memory)
           (AList.update (''resource_'' @ service @ ''_cpu_max_percent'') (JFloat cpu) r)))))
       resources
       (AList.update ''resources'' (JObj (map (\<lambda>(s, v). (s, JObj (float_members v))) resources)) result)"

definition finish_result :: "'o env \<Rightarrow> string \<Rightarrow> (string \<times> jval) list \<Rightarrow> string \<Rightarrow> ('o, unit) measured" where
  "finish_result E directory result resource_path =
     pbind (on_machine (\<lambda>m. (Inr (map_of (files m) resource_path), m))) (\<lambda>file.
     pbind (lift_res (resource_metrics (py_str E) file)) (\<lambda>resources.
     pbind (lift_res (with_resources resources result)) (\<lambda>result.
     then_do (write_pretty E (directory @ ''/result.json'') (JObj result)) (
     then_do (set_self (\<lambda>h. h\<lparr>pf_results := pf_results h @ [result]\<rparr>)) (
     pbind get_self (\<lambda>h.
     write_pretty E (pf_output h @ ''/results.json'') (JList (map JObj (pf_results h)))))))))"

section \<open>Cache experiment\<close>

definition cache_result :: "bool \<Rightarrow> nat \<Rightarrow> int \<Rightarrow> int \<Rightarrow> (string \<times> pyfloat) list \<Rightarrow> (string \<times> jval) list" where
  "cache_result enabled repetition hits misses metrics = merge_dict
     [(''experiment'', JStr ''cache''), (''configuration'', JStr (if enabled then ''enabled'' else ''disabled'')),
      (''repetition'', JInt (int repetition)), (''cache_enabled'', JBool enabled), (''cache_hits'', JInt hits),
      (''cache_misses'', JInt misses),
      (''cache_hit_rate'', if hits + misses \<noteq> 0 then JFloat (Fin (of_int hits / of_int (hits + misses))) else JInt 0)]
     (float_members metrics)"

definition cache_trial :: "'o env \<Rightarrow> int \<Rightarrow> string \<Rightarrow> bool \<Rightarrow> nat \<Rightarrow> ('o, unit) measured" where
  "cache_trial E rate duration enabled repetition =
     pbind get_self (\<lambda>h.
     let configuration = (if enabled then ''enabled'' else ''disabled'');
         run_id = ''cache-'' @ configuration @ ''-r'' @ show_nat repetition;
         directory = pf_output h @ ''/raw/'' @ run_id;
         resource_path = directory @ ''/resources.jsonl'' in
     then_do (reset_state E) (
     then_do (configure_cache E enabled) (
     then_do (seed_fleet_state E) (
     pbind (perf_call E ''GET'' ''/v1/fleet/state'' [] None) (\<lambda>warm.
     then_do (lift_res (raise_for_status warm)) (
     then_do (perf_redis E True [''DEL'', ''fleetpulse:cache:stats'']) (
     pbind (run_k6 E directory ''read'' rate duration run_id resource_path) (\<lambda>metrics.
     pbind (perf_call E ''GET'' ''/v1/cache/stats'' [] None) (\<lambda>stats.
     then_do (lift_res (raise_for_status stats)) (
     pbind (response_json stats) (\<lambda>cache.
     pbind (lift_res (res_bind (subscript cache ''hits'') py_int)) (\<lambda>hits.
     pbind (lift_res (res_bind (subscript cache ''misses'') py_int)) (\<lambda>misses.
     finish_result E directory (cache_result enabled repetition hits misses metrics) resource_path)))))))))))))"

definition run_cache_experiment :: "'o env \<Rightarrow> int \<Rightarrow> string \<Rightarrow> ('o, unit) measured" where
  "run_cache_experiment E rate duration =
     pbind get_self (\<lambda>h.
     for_each (\<lambda>enabled. for_each (cache_trial E rate duration enabled) [1 ..< Suc (pf_repetitions h)]) [True, False])"

section \<open>Worker experiment\<close>

record queue_counts =
  q_pending :: int
  q_lag :: int
  q_backlog :: int

fun evens :: "'a list \<Rightarrow> 'a list" where
  "evens [] = []"
| "evens [x] = [x]"
| "evens (x # _ # r) = x # evens r"

text \<open>The answer of \<open>XINFO GROUPS\<close>, a name and a value per line.\<close>

definition parse_queue :: "string \<Rightarrow> queue_counts res" where
  "parse_queue raw =
     (if raw = [] \<or> contains ''no such key'' (lower raw) then Inr \<lparr>q_pending = 0, q_lag = 0, q_backlog = 0\<rparr>
      else
        let lines = splitlines raw;
            values = merge_dict [] (zip (evens lines) (evens (drop 1 lines)));
            value = (\<lambda>k. case map_of values k of Some v \<Rightarrow> v | None \<Rightarrow> ''0'') in
        res_bind (py_int (JStr (value ''pending''))) (\<lambda>pending.
        res_bind (if value ''lag'' \<in> {[], ''NULL''} then Inr 0 else py_int (JStr (value ''lag''))) (\<lambda>lag.
        Inr \<lparr>q_pending = pending, q_lag = lag, q_backlog = pending + lag\<rparr>)))"

definition queue_state :: "'o env \<Rightarrow> ('o, queue_counts) measured" where
  "queue_state E = pbind (perf_redis E False [''XINFO'', ''GROUPS'', ''fleetpulse:telemetry'']) (\<lambda>raw. lift_res (parse_queue raw))"

definition wait_for_worker_group :: "'o env \<Rightarrow> ('o, unit) measured" where
  "wait_for_worker_group E =
     pbind (clock E) (\<lambda>t.
     pbind (poll E (t + 20) (1 / 4) (\<lambda>_.
         pbind (perf_redis E False [''XINFO'', ''GROUPS'', ''fleetpulse:telemetry'']) (\<lambda>raw.
         if contains ''fleetpulse-workers'' raw then ret (Inr ()) else ret (Inl ()))) ()) (\<lambda>outcome.
     case outcome of Inr _ \<Rightarrow> ret () | Inl _ \<Rightarrow> raise (RuntimeError ''worker consumer group did not appear'')))"

definition wait_for_outbox :: "'o env \<Rightarrow> ('o, unit) measured" where
  "wait_for_outbox E =
     pbind (clock E) (\<lambda>t.
     pbind (poll E (t + 60) (1 / 10) (\<lambda>_.
         pbind (perf_psql E ''SELECT count(*) FROM outbox_events WHERE published_at IS NULL;'') (\<lambda>rows.
         if rows = ''0'' then ret (Inr ()) else ret (Inl ()))) ()) (\<lambda>outcome.
     case outcome of Inr _ \<Rightarrow> ret () | Inl _ \<Rightarrow> raise (RuntimeError ''outbox relay did not publish the workload'')))"

definition psql_count :: "'o env \<Rightarrow> string \<Rightarrow> ('o, int) measured" where
  "psql_count E sql = pbind (perf_psql E sql) (\<lambda>s. lift_res (py_int (JStr s)))"

text \<open>The drain: the peak backlog and the processed count when the backlog is gone and all is processed.\<close>

definition drain_pass :: "'o env \<Rightarrow> string \<Rightarrow> int \<Rightarrow> int \<times> int \<Rightarrow> ('o, (int \<times> int) + (int \<times> int)) measured" where
  "drain_pass E queue_path accepted pp =
     pbind (queue_state E) (\<lambda>state.
     pbind (psql_count E ''SELECT count(*) FROM processed_events;'') (\<lambda>processed.
     let peak = max (fst pp) (q_backlog state) in
     pbind (on_outside (utc_now E)) (\<lambda>t.
     then_do (append_text queue_path (json_line E
       [(''sampled_at'', JStr t), (''processed'', JInt processed), (''pending'', JInt (q_pending state)),
        (''lag'', JInt (q_lag state)), (''backlog'', JInt (q_backlog state))])) (
     if q_backlog state = 0 \<and> processed = accepted then ret (Inr (peak, processed)) else ret (Inl (peak, processed))))))"

definition drain_queue :: "'o env \<Rightarrow> string \<Rightarrow> int \<Rightarrow> int \<Rightarrow> rat \<Rightarrow> ('o, int \<times> int) measured" where
  "drain_queue E queue_path accepted initial deadline =
     pbind (poll E deadline (1 / 10) (drain_pass E queue_path accepted) (initial, 0)) (\<lambda>outcome.
     case outcome of
       Inr pp \<Rightarrow> ret pp
     | Inl _ \<Rightarrow> raise (RuntimeError ''worker backlog did not drain before timeout''))"

definition worker_result :: "nat \<Rightarrow> nat \<Rightarrow> int \<Rightarrow> int \<Rightarrow> int \<Rightarrow> int \<Rightarrow> rat \<Rightarrow> (string \<times> pyfloat) list \<Rightarrow> (string \<times> jval) list res" where
  "worker_result workers repetition accepted processed initial peak drained metrics =
     (if drained = 0 then Inl (ServiceError ''ZeroDivisionError'')
      else Inr (merge_dict
        [(''experiment'', JStr ''workers''), (''configuration'', JStr (show_nat workers)), (''repetition'', JInt (int repetition)),
         (''worker_count'', JInt (int workers)), (''accepted_events'', JInt accepted), (''processed_events'', JInt processed),
         (''initial_backlog'', JInt initial), (''peak_backlog'', JInt peak), (''drain_seconds'', JFloat (Fin drained)),
         (''worker_throughput_eps'', JFloat (Fin (of_int accepted / drained)))]
        (float_members metrics)))"

text \<open>The part of a trial that measures the drain of the backlog, and the whole trial.\<close>

definition measure_drain ::
    "'o env \<Rightarrow> nat \<Rightarrow> nat \<Rightarrow> string \<Rightarrow> string \<Rightarrow> string \<Rightarrow> (string \<times> pyfloat) list \<Rightarrow> ('o, (string \<times> jval) list) measured" where
  "measure_drain E workers repetition run_id resource_path queue_path metrics =
     pbind (queue_state E) (\<lambda>initial.
     pbind (psql_count E ''SELECT count(*) FROM telemetry_batches;'') (\<lambda>accepted.
     if q_backlog initial \<noteq> accepted then
       raise (RuntimeError (''backlog '' @ show_int (q_backlog initial) @ '' did not match accepted events '' @ show_int accepted))
     else
     then_do (sampler_thread E (run_id @ ''-drain'') resource_path) (
     pbind (clock E) (\<lambda>started.
     then_do (perf_compose E True [''unpause'', ''worker'']) (
     pbind (drain_queue E queue_path accepted (q_backlog initial) (started + 120)) (\<lambda>(peak, processed).
     pbind (clock E) (\<lambda>t.
     lift_res (worker_result workers repetition accepted processed (q_backlog initial) peak (t - started) metrics))))))))"

definition trial_in :: "'o env \<Rightarrow> int \<Rightarrow> string \<Rightarrow> nat \<Rightarrow> nat \<Rightarrow> string \<Rightarrow> string \<Rightarrow> ('o, unit) measured" where
  "trial_in E rate duration workers repetition run_id directory =
     (let resource_path = directory @ ''/resources.jsonl'';
          queue_path = directory @ ''/queue.jsonl'' in
     then_do (make_dirs False directory) (
     then_do (reset_state E) (
     then_do (perf_compose E True [''up'', ''-d'', ''--scale'', ''worker='' @ show_nat workers, ''worker'']) (
     then_do (wait_for_worker_group E) (
     then_do (perf_compose E True [''pause'', ''worker'']) (
     then_do (perf_compose E True [''up'', ''-d'', ''outbox-relay'']) (
     pbind (run_k6 E directory ''ingest'' rate duration run_id resource_path) (\<lambda>metrics.
     then_do (wait_for_outbox E) (
     then_do (perf_compose E True [''pause'', ''outbox-relay'']) (
     pbind (measure_drain E workers repetition run_id resource_path queue_path metrics) (\<lambda>result.
     then_do (finish_result E directory result resource_path) (
     then_do (perf_compose E False [''stop'', ''worker'', ''outbox-relay'']) (ret ())))))))))))))"

definition worker_trial :: "'o env \<Rightarrow> int \<Rightarrow> string \<Rightarrow> nat \<Rightarrow> nat \<Rightarrow> ('o, unit) measured" where
  "worker_trial E rate duration workers repetition =
     pbind get_self (\<lambda>h.
     let run_id = ''workers-'' @ show_nat workers @ ''-r'' @ show_nat repetition in
     trial_in E rate duration workers repetition run_id (pf_output h @ ''/raw/'' @ run_id))"

definition run_worker_experiment :: "'o env \<Rightarrow> int \<Rightarrow> string \<Rightarrow> ('o, unit) measured" where
  "run_worker_experiment E rate duration =
     then_do (configure_cache E True) (
     pbind get_self (\<lambda>h.
     for_each (\<lambda>workers. for_each (worker_trial E rate duration workers) [1 ..< Suc (pf_repetitions h)]) [1, 4]))"

section \<open>Report\<close>

definition perf_fact :: "'o env \<Rightarrow> string \<Rightarrow> jval" where
  "perf_fact E k = (case map_of (facts E) k of Some v \<Rightarrow> v | None \<Rightarrow> JNull)"

definition perf_output_of :: "'o env \<Rightarrow> string list \<Rightarrow> ('o, string) measured" where
  "perf_output_of E arguments = pbind (perf_command E True None arguments) (\<lambda>completed. ret (strip (stdout completed)))"

definition perf_metadata :: "'o env \<Rightarrow> string \<Rightarrow> int \<Rightarrow> string \<Rightarrow> int \<Rightarrow> string \<Rightarrow> ('o, jval) measured" where
  "perf_metadata E profile cache_rate cache_duration worker_rate worker_duration =
     pbind get_self (\<lambda>h.
     pbind (on_outside (utc_now E)) (\<lambda>t.
     pbind (perf_output_of E [''git'', ''rev-parse'', ''HEAD'']) (\<lambda>commit.
     pbind (perf_output_of E [''git'', ''status'', ''--porcelain'']) (\<lambda>dirty.
     pbind (perf_output_of E [''docker'', ''version'', ''--format'', ''{{.Server.Version}}'']) (\<lambda>version.
     pbind (pbind (perf_output_of E [''docker'', ''info'', ''--format'', ''{{.NCPU}}'']) (\<lambda>s. lift_res (py_int (JStr s)))) (\<lambda>cpus.
     pbind (pbind (perf_output_of E [''docker'', ''info'', ''--format'', ''{{.MemTotal}}'']) (\<lambda>s. lift_res (py_int (JStr s)))) (\<lambda>mem.
     pbind (perf_output_of E [''k6'', ''version'']) (\<lambda>k6_version.
     ret (JObj
       [(''recorded_at'', JStr t), (''profile'', JStr profile), (''repetitions'', JInt (int (pf_repetitions h))),
        (''repository'', JStr (root E)), (''compose_project'', JStr (pf_project h)), (''git_commit'', JStr commit),
        (''git_worktree_dirty'', JBool (dirty \<noteq> [])),
        (''host'', JObj [(''system'', perf_fact E ''system''), (''release'', perf_fact E ''release''),
           (''machine'', perf_fact E ''machine''), (''logical_cpus'', perf_fact E ''logical_cpus'')]),
        (''docker'', JObj [(''version'', JStr version), (''cpus'', JInt cpus), (''memory_bytes'', JInt mem)]),
        (''k6_version'', JStr k6_version),
        (''workloads'', JObj [(''cache_read_rate_rps'', JInt cache_rate), (''cache_duration'', JStr cache_duration),
           (''cache_seeded_records'', JInt 1), (''worker_ingest_rate_rps'', JInt worker_rate),
           (''worker_duration'', JStr worker_duration), (''api_replicas'', JInt 2),
           (''worker_counts'', JList [JInt 1, JInt 4]), (''arrival_model'', JStr ''constant-arrival-rate'')]),
        (''security'', JObj [(''credentials'', JStr ''ephemeral and excluded from artifacts''),
           (''ingress'', JStr ''loopback TLS via Nginx''),
           (''k6_tls_verification'', JStr ''disabled only for generated local CA benchmark traffic'')])])))))))))"

text \<open>\<open>format(x, ".df")\<close>: the nearest decimal with that many places, a tie to the even digit.\<close>

definition zero_padded :: "nat \<Rightarrow> nat \<Rightarrow> string" where
  "zero_padded d n = (let s = show_nat n in replicate (d - length s) (CHR ''0'') @ s)"

definition fixed :: "nat \<Rightarrow> pyfloat \<Rightarrow> string" where
  "fixed d x = (case x of
     Fin r \<Rightarrow>
       let n = nat (round_half_even (\<bar>r\<bar> * 10 ^ d)) in
       (if r < 0 then ''-'' else []) @ show_nat (n div 10 ^ d) @ (if d = 0 then [] else ''.'' @ zero_padded d (n mod 10 ^ d))
   | PosInf \<Rightarrow> ''inf'' | NegInf \<Rightarrow> ''-inf'' | NaN \<Rightarrow> ''nan'')"

definition table_row :: "string list \<Rightarrow> string" where
  "table_row cells = ''| '' @ join_with '' | '' cells @ '' |''"

text \<open>A row whose cells are members with a number of places; \<open>values.get(k, 0)\<close> where a default is given.\<close>

definition cell :: "(string \<times> pyfloat) list \<Rightarrow> string \<times> nat \<Rightarrow> string res" where
  "cell values kd = res_bind (member_float values (fst kd)) (\<lambda>x. Inr (fixed (snd kd) x))"

definition get_or_zero :: "(string \<times> pyfloat) list \<Rightarrow> string \<Rightarrow> pyfloat" where
  "get_or_zero values k = (case map_of values k of Some x \<Rightarrow> x | None \<Rightarrow> Fin 0)"

type_synonym aggregate = "(string \<times> (string \<times> pyfloat) list) list"

definition group_of :: "aggregate \<Rightarrow> string \<Rightarrow> (string \<times> pyfloat) list res" where
  "group_of aggregate k = res_of (KeyError k) (map_of aggregate k)"

definition cache_row :: "aggregate \<Rightarrow> string \<Rightarrow> string res" where
  "cache_row aggregate configuration =
     res_bind (group_of aggregate (''cache:'' @ configuration)) (\<lambda>values.
     res_bind (map_res (cell values) [(''repetitions'', 0), (''throughput_rps'', 2), (''p50_ms'', 2), (''p95_ms'', 2), (''p99_ms'', 2),
       (''error_rate'', 4)]) (\<lambda>cells.
     Inr (table_row (configuration # cells @ [fixed 4 (get_or_zero values ''cache_hit_rate'')]))))"

definition worker_row :: "aggregate \<Rightarrow> string \<Rightarrow> string res" where
  "worker_row aggregate configuration =
     res_bind (group_of aggregate (''workers:'' @ configuration)) (\<lambda>values.
     res_bind (map_res (cell values) [(''repetitions'', 0), (''accepted_events'', 0), (''initial_backlog'', 0), (''drain_seconds'', 3),
       (''worker_throughput_eps'', 2), (''p95_ms'', 2), (''error_rate'', 4)]) (\<lambda>cells.
     Inr (table_row (configuration # cells))))"

definition resource_row :: "aggregate \<Rightarrow> string \<times> string \<Rightarrow> string res" where
  "resource_row aggregate ec =
     res_bind (group_of aggregate (fst ec @ '':'' @ snd ec)) (\<lambda>values.
     let mib = (\<lambda>k. fixed 2 (fscale (1 / 1024 ^ 2) (get_or_zero values k)));
         percent = (\<lambda>k. fixed 2 (get_or_zero values k) @ ''%'') in
     Inr (table_row [fst ec, snd ec, percent ''resource_api_cpu_max_percent'', mib ''resource_api_memory_max_bytes'',
       percent ''resource_worker_cpu_max_percent'', mib ''resource_worker_memory_max_bytes'']))"

text \<open>The planning rate: 70 percent of the measured drain rate, per second, per day and as agents per minute.\<close>

definition planning_row :: "aggregate \<Rightarrow> string \<Rightarrow> string res" where
  "planning_row aggregate configuration =
     res_bind (group_of aggregate (''workers:'' @ configuration)) (\<lambda>values.
     res_bind (member_float values ''worker_throughput_eps'') (\<lambda>rate.
     let planning = fscale (7 / 10) rate in
     Inr (table_row [configuration, fixed 2 planning, fixed 0 (fscale 86400 planning), fixed 0 (fscale 60 planning)])))"

definition report_lines :: "aggregate \<Rightarrow> string list res" where
  "report_lines aggregate =
     res_bind (map_res (cache_row aggregate) [''enabled'', ''disabled'']) (\<lambda>cache_rows.
     res_bind (map_res (worker_row aggregate) [''1'', ''4'']) (\<lambda>worker_rows.
     res_bind (map_res (resource_row aggregate) [(''cache'', ''enabled''), (''cache'', ''disabled''), (''workers'', ''1''), (''workers'', ''4'')])
       (\<lambda>resource_rows.
     res_bind (map_res (planning_row aggregate) [''1'', ''4'']) (\<lambda>planning_rows.
     Inr (
       [''# Phase 6 performance and capacity evidence'', [],
        ''All numbers in the measured tables are local measurements from the recorded commit and'',
        ''machine in `metadata.json`. They are not claims of production or cloud scale.'', [],
        ''## Measured cache comparison'', [],
        ''| Cache | Repetitions | Throughput (req/s) | p50 (ms) | p95 (ms) | p99 (ms) | Error rate | Hit rate |'',
        ''| --- | ---: | ---: | ---: | ---: | ---: | ---: | ---: |''] @ cache_rows @
       [[], ''## Measured worker comparison'', [],
        ''| Workers | Repetitions | Accepted | Initial backlog | Drain (s) | Processing (events/s) | Ingest p95 (ms) | Errors |'',
        ''| ---: | ---: | ---: | ---: | ---: | ---: | ---: | ---: |''] @ worker_rows @
       [[], ''## Measured resource envelope'', [],
        ''CPU is the maximum aggregate Docker CPU percentage for all containers of '' @
        ''the service. Memory is the maximum aggregate resident allocation reported '' @ ''by Docker.'', [],
        ''| Experiment | Configuration | API max CPU | API max memory (MiB) | Worker max CPU | Worker max memory (MiB) |'',
        ''| --- | --- | ---: | ---: | ---: | ---: |''] @ resource_rows @
       [[], ''## Evidence-based planning projections'', [],
        ''The following values are projections, not measurements. They apply a 30% operating'',
        ''headroom to the median measured queue-drain rate, then translate the result into daily'',
        ''events and agents reporting once per minute. They assume this workload and local machine;'',
        ''they do not assume linear scaling beyond a tested configuration.'', [],
        ''| Tested workers | Projected planning rate (events/s) | Projected events/day | Projected 60s agents |'',
        ''| ---: | ---: | ---: | ---: |''] @ planning_rows @
       [[], ''## Interpretation limits'', [],
        ''- The constant-arrival workload proves behavior only at the tested rates; it is not a saturation test.'',
        ''- Docker Desktop CPU and memory samples are local observations and include virtualization effects.'',
        ''- Cache and worker axes are isolated experiments; the report does not infer a Cartesian interaction.'',
        ''- Alert detection and incident recovery time are intentionally not measured here; Phase 7 owns those drills.'',
        ''- Raw k6 samples, per-run summaries, resource samples, and queue samples are retained under `raw/`.'', []])))))"

definition finalize :: "'o env \<Rightarrow> jval \<Rightarrow> ('o, unit) measured" where
  "finalize E metadata =
     pbind get_self (\<lambda>h.
     pbind (lift_res (aggregate_results (py_str E) (pf_results h))) (\<lambda>aggregate.
     then_do (write_pretty E (pf_output h @ ''/aggregate.json'') (JObj (map (\<lambda>(k, v). (k, JObj (float_members v))) aggregate))) (
     then_do (write_pretty E (pf_output h @ ''/metadata.json'') metadata) (
     pbind (lift_res (report_lines aggregate)) (\<lambda>lines.
     write_text (pf_output h @ ''/capacity-plan.md'') (join_with [CHR 0x0A] lines))))))"

section \<open>The run\<close>

definition perf_close :: "'o env \<Rightarrow> ('o, unit) measured" where
  "perf_close E =
     pbind get_self (\<lambda>h.
     if \<not> pf_keep_running h then then_do (perf_compose E False [''down'', ''--volumes'']) (ret ()) else ret ())"

text \<open>The profile's repetitions, cache rate and duration, worker rate and duration.\<close>

definition profile_parameters :: "string \<Rightarrow> nat \<times> int \<times> string \<times> int \<times> string" where
  "profile_parameters profile =
     (if profile = ''smoke'' then (1, 10, ''3s'', 10, ''3s'') else (3, 100, ''20s'', 50, ''10s''))"

definition perf_body :: "'o env \<Rightarrow> string \<Rightarrow> ('o, unit) measured" where
  "perf_body E profile =
     (case profile_parameters profile of (repetitions, cache_rate, cache_duration, worker_rate, worker_duration) \<Rightarrow>
     then_do (perf_setup E) (
     pbind (perf_metadata E profile cache_rate cache_duration worker_rate worker_duration) (\<lambda>metadata.
     then_do (run_cache_experiment E cache_rate cache_duration) (
     then_do (run_worker_experiment E worker_rate worker_duration) (
     finalize E metadata)))))"

text \<open>\<open>main\<close>, with the parsed arguments and the resolved output directory.\<close>

definition perf_main :: "'o env \<Rightarrow> string \<Rightarrow> string \<Rightarrow> bool \<Rightarrow> ('o, int) measured" where
  "perf_main E profile out keep_running =
     then_do (perf_init E out (fst (profile_parameters profile)) keep_running) (
     then_do (finally_do (perf_body E profile) (perf_close E)) (ret 0))"

section \<open>Every run returns\<close>

lemma returns_perf_init [returns_intros]: "clock_ok E \<Longrightarrow> returns E (perf_init E out n k)"
  unfolding perf_init_def by (intro returns_intros) simp_all

lemma returns_perf_command [returns_intros]: "clock_ok E \<Longrightarrow> returns E (perf_command E check environ arguments)"
  unfolding perf_command_def by (intro returns_intros) simp_all

lemma returns_perf_compose [returns_intros]: "clock_ok E \<Longrightarrow> returns E (perf_compose E check arguments)"
  unfolding perf_compose_def by (intro returns_intros) simp_all

lemma returns_perf_psql [returns_intros]: "clock_ok E \<Longrightarrow> returns E (perf_psql E sql)"
  unfolding perf_psql_def by (intro returns_intros) simp_all

lemma returns_perf_redis [returns_intros]: "clock_ok E \<Longrightarrow> returns E (perf_redis E check arguments)"
  unfolding perf_redis_def by (intro returns_intros) simp_all

lemma returns_perf_call [returns_intros]: "clock_ok E \<Longrightarrow> returns E (perf_call E verb path headers body)"
  unfolding perf_call_def by (intro returns_intros) simp_all

lemma returns_perf_wait_api [returns_intros]: "clock_ok E \<Longrightarrow> returns E (perf_wait_api E)"
  unfolding perf_wait_api_def by (intro returns_intros) simp_all

lemma returns_perf_setup [returns_intros]: "clock_ok E \<Longrightarrow> returns E (perf_setup E)"
  unfolding perf_setup_def by (intro returns_intros) simp_all

lemma returns_reset_state [returns_intros]: "clock_ok E \<Longrightarrow> returns E (reset_state E)"
  unfolding reset_state_def by (intro returns_intros) simp_all

lemma returns_configure_cache [returns_intros]: "clock_ok E \<Longrightarrow> returns E (configure_cache E enabled)"
  unfolding configure_cache_def by (intro returns_intros) simp_all

lemma returns_seed_fleet_state [returns_intros]: "clock_ok E \<Longrightarrow> returns E (seed_fleet_state E)"
  unfolding seed_fleet_state_def by (intro returns_intros) simp_all

lemma returns_container_service [returns_intros]: "clock_ok E \<Longrightarrow> returns E (container_service E name)"
  unfolding container_service_def by (intro returns_intros) simp_all

lemma returns_container_services [returns_intros]: "clock_ok E \<Longrightarrow> returns E (container_services E)"
  unfolding container_services_def by (intro returns_intros) simp_all

lemma returns_sample_once [returns_intros]: "clock_ok E \<Longrightarrow> returns E (sample_once E path n)"
  unfolding sample_once_def by (intro returns_intros) simp_all

lemma returns_sample_resources [returns_intros]: "clock_ok E \<Longrightarrow> returns E (sample_resources E path passes n)"
  by (induction passes arbitrary: n) (auto intro!: returns_intros)

lemma returns_reader [returns_intros]: "returns E (on_machine (\<lambda>m. (f m, m)))"
  by (rule returns_on_machine) simp

lemma returns_sampler_thread [returns_intros]: "clock_ok E \<Longrightarrow> returns E (sampler_thread E block path)"
  unfolding sampler_thread_def by (intro returns_intros) simp_all

lemma returns_run_k6 [returns_intros]: "clock_ok E \<Longrightarrow> returns E (run_k6 E directory mode rate duration run_id path)"
  unfolding run_k6_def by (intro returns_intros) simp_all

lemma returns_finish_result [returns_intros]: "clock_ok E \<Longrightarrow> returns E (finish_result E directory result path)"
  unfolding finish_result_def by (intro returns_intros)

lemma returns_cache_trial [returns_intros]: "clock_ok E \<Longrightarrow> returns E (cache_trial E rate duration enabled n)"
  unfolding cache_trial_def by (intro returns_intros) simp_all

lemma returns_run_cache_experiment [returns_intros]: "clock_ok E \<Longrightarrow> returns E (run_cache_experiment E rate duration)"
  unfolding run_cache_experiment_def by (intro returns_intros) simp_all

lemma returns_queue_state [returns_intros]: "clock_ok E \<Longrightarrow> returns E (queue_state E)"
  unfolding queue_state_def by (intro returns_intros) simp_all

lemma returns_wait_for_worker_group [returns_intros]: "clock_ok E \<Longrightarrow> returns E (wait_for_worker_group E)"
  unfolding wait_for_worker_group_def by (intro returns_intros) simp_all

lemma returns_wait_for_outbox [returns_intros]: "clock_ok E \<Longrightarrow> returns E (wait_for_outbox E)"
  unfolding wait_for_outbox_def by (intro returns_intros) simp_all

lemma returns_psql_count [returns_intros]: "clock_ok E \<Longrightarrow> returns E (psql_count E sql)"
  unfolding psql_count_def by (intro returns_intros) simp_all

lemma returns_drain_pass [returns_intros]: "clock_ok E \<Longrightarrow> returns E (drain_pass E path accepted pp)"
  unfolding drain_pass_def by (intro returns_intros) simp_all

lemma returns_drain_queue [returns_intros]: "clock_ok E \<Longrightarrow> returns E (drain_queue E path accepted initial deadline)"
  unfolding drain_queue_def by (intro returns_intros) simp_all

lemma returns_measure_drain [returns_intros]: "clock_ok E \<Longrightarrow> returns E (measure_drain E workers n run_id path qpath m)"
  unfolding measure_drain_def by (intro returns_intros)

lemma returns_worker_trial [returns_intros]: "clock_ok E \<Longrightarrow> returns E (worker_trial E rate duration workers n)"
  unfolding worker_trial_def trial_in_def by (intro returns_intros) simp_all

lemma returns_run_worker_experiment [returns_intros]: "clock_ok E \<Longrightarrow> returns E (run_worker_experiment E rate duration)"
  unfolding run_worker_experiment_def by (intro returns_intros) simp_all

lemma returns_perf_output_of [returns_intros]: "clock_ok E \<Longrightarrow> returns E (perf_output_of E arguments)"
  unfolding perf_output_of_def by (intro returns_intros) simp_all

lemma returns_perf_metadata [returns_intros]: "clock_ok E \<Longrightarrow> returns E (perf_metadata E profile cr cd wr wd)"
  unfolding perf_metadata_def by (intro returns_intros) simp_all

lemma returns_finalize [returns_intros]: "clock_ok E \<Longrightarrow> returns E (finalize E metadata)"
  unfolding finalize_def by (intro returns_intros)

lemma returns_perf_close [returns_intros]: "clock_ok E \<Longrightarrow> returns E (perf_close E)"
  unfolding perf_close_def by (intro returns_intros) simp_all

lemma returns_perf_body [returns_intros]: "clock_ok E \<Longrightarrow> returns E (perf_body E profile)"
  unfolding perf_body_def by (intro returns_intros) simp_all

lemma returns_perf_main [returns_intros]: "clock_ok E \<Longrightarrow> returns E (perf_main E profile out k)"
  unfolding perf_main_def by (intro returns_intros) simp_all

section \<open>What the recorded results say\<close>

lemma keeps_perf_command [keeps_intros]: "keeps f (perf_command E check environ arguments)"
  unfolding perf_command_def by (intro keeps_intros)

lemma keeps_perf_compose [keeps_intros]: "keeps f (perf_compose E check arguments)"
  unfolding perf_compose_def by (intro keeps_intros)

lemma keeps_perf_psql [keeps_intros]: "keeps f (perf_psql E sql)"
  unfolding perf_psql_def by (intro keeps_intros)

lemma keeps_perf_redis [keeps_intros]: "keeps f (perf_redis E check arguments)"
  unfolding perf_redis_def by (intro keeps_intros)

lemma keeps_perf_call [keeps_intros]: "keeps f (perf_call E verb path headers body)"
  unfolding perf_call_def by (intro keeps_intros)

lemma keeps_perf_wait_api [keeps_intros]: "keeps f (perf_wait_api E)"
  unfolding perf_wait_api_def by (intro keeps_intros)

lemma keeps_reset_state [keeps_intros]: "keeps f (reset_state E)"
  unfolding reset_state_def by (intro keeps_intros)

lemma keeps_configure_cache [keeps_intros]:
  "(\<And>h v. f (h\<lparr>pf_environment := v\<rparr>) = f h) \<Longrightarrow> keeps f (configure_cache E enabled)"
  unfolding configure_cache_def by (intro keeps_intros)

lemma keeps_container_service [keeps_intros]: "keeps f (container_service E name)"
  unfolding container_service_def by (intro keeps_intros)

lemma keeps_container_services [keeps_intros]: "keeps f (container_services E)"
  unfolding container_services_def by (intro keeps_intros)

lemma keeps_sample_once [keeps_intros]: "keeps f (sample_once E path n)"
  unfolding sample_once_def by (intro keeps_intros)

lemma keeps_sample_resources [keeps_intros]: "keeps f (sample_resources E path passes n)"
  by (induction passes arbitrary: n) (auto intro!: keeps_intros)

lemma keeps_sampler_thread [keeps_intros]: "keeps f (sampler_thread E block path)"
  unfolding sampler_thread_def by (intro keeps_intros)

lemma keeps_run_k6 [keeps_intros]: "keeps f (run_k6 E directory mode rate duration run_id path)"
  unfolding run_k6_def by (intro keeps_intros)

lemma keeps_queue_state [keeps_intros]: "keeps f (queue_state E)"
  unfolding queue_state_def by (intro keeps_intros)

lemma keeps_wait_for_worker_group [keeps_intros]: "keeps f (wait_for_worker_group E)"
  unfolding wait_for_worker_group_def by (intro keeps_intros)

lemma keeps_wait_for_outbox [keeps_intros]: "keeps f (wait_for_outbox E)"
  unfolding wait_for_outbox_def by (intro keeps_intros)

lemma keeps_psql_count [keeps_intros]: "keeps f (psql_count E sql)"
  unfolding psql_count_def by (intro keeps_intros)

lemma keeps_drain_pass [keeps_intros]: "keeps f (drain_pass E path accepted pp)"
  unfolding drain_pass_def by (intro keeps_intros)

lemma keeps_drain_queue [keeps_intros]: "keeps f (drain_queue E path accepted initial deadline)"
  unfolding drain_queue_def by (intro keeps_intros)

lemma k6_metric_names:
  assumes "k6_metrics summary = Inr m"
  shows "map fst m = [''requests'', ''throughput_rps'', ''iterations'', ''p50_ms'', ''p95_ms'', ''p99_ms'', ''error_rate'']"
  using assms by (auto simp: k6_metrics_def res_bind_eq_Inr)

lemma run_k6_metric_names:
  assumes "run_k6 E directory mode rate duration run_id path s = Some (Inr m, s')"
  shows "fst ` set m = set [''requests'', ''throughput_rps'', ''iterations'', ''p50_ms'', ''p95_ms'', ''p99_ms'', ''error_rate'']"
proof -
  obtain summary where "k6_metrics summary = Inr m"
    using assms by (auto simp: run_k6_def prog_simps Let_def split: if_splits)
  from k6_metric_names[OF this] show ?thesis by (metis list.set_map)
qed

lemma with_resources_keeps:
  assumes "with_resources resources result = Inr r" and "\<not> starts_with ''resource'' k"
  shows "map_of r k = map_of result k"
proof -
  have k: "k \<noteq> ''resource_'' @ x @ y" "k \<noteq> ''resources''" for x y using assms(2) by (auto simp: starts_with_def)
  let ?step = "\<lambda>(service, values) r.
         res_bind (member_float values ''cpu_max_percent'') (\<lambda>cpu.
         res_bind (member_float values ''memory_max_bytes'') (\<lambda>memory.
         Inr (AList.update (''resource_'' @ service @ ''_memory_max_bytes'') (JFloat memory)
           (AList.update (''resource_'' @ service @ ''_cpu_max_percent'') (JFloat cpu) r))))"
  have "map_of r k = map_of r0 k" if "fold_res ?step xs r0 = Inr r" for xs r0
    using that
  proof (induction xs arbitrary: r0)
    case (Cons x xs)
    then obtain r1 where "?step x r0 = Inr r1" and "fold_res ?step xs r1 = Inr r" by (auto simp: res_bind_eq_Inr)
    moreover from this(1) have "map_of r1 k = map_of r0 k"
      using k by (cases x) (auto simp: res_bind_eq_Inr update_conv')
    ultimately show ?case using Cons.IH by simp
  qed simp
  from this[OF assms(1)[unfolded with_resources_def]] show ?thesis using k by (simp add: update_conv')
qed

text \<open>What a recorded worker result says: every accepted event was in the backlog and was processed.\<close>

definition drained_result :: "nat \<Rightarrow> nat \<Rightarrow> (string \<times> jval) list \<Rightarrow> bool" where
  "drained_result workers repetition r \<longleftrightarrow>
     (\<exists>n peak t x. map_of r ''worker_count'' = Some (JInt (int workers)) \<and> map_of r ''repetition'' = Some (JInt (int repetition)) \<and>
       map_of r ''accepted_events'' = Some (JInt n) \<and> map_of r ''initial_backlog'' = Some (JInt n) \<and>
       map_of r ''processed_events'' = Some (JInt n) \<and> map_of r ''peak_backlog'' = Some (JInt peak) \<and> n \<le> peak \<and>
       map_of r ''drain_seconds'' = Some (JFloat (Fin t)) \<and> 0 < t \<and>
       map_of r ''worker_throughput_eps'' = Some (JFloat (Fin x)) \<and> x * t = of_int n)"

lemma drained_result_cong:
  "drained_result workers n x \<Longrightarrow> \<forall>k. \<not> starts_with ''resource'' k \<longrightarrow> map_of r k = map_of x k \<Longrightarrow> drained_result workers n r"
  by (simp add: drained_result_def starts_with_def)

lemma drain_queue_drained:
  assumes "drain_queue E path accepted initial deadline s = Some (Inr (peak, processed), s')"
  shows "processed = accepted \<and> initial \<le> peak"
proof -
  have "poll E deadline (1 / 10) (drain_pass E path accepted) (initial, 0) s = Some (Inr (Inr (peak, processed)), s')"
    using assms by (auto simp: drain_queue_def prog_simps)
  then obtain c t where "initial \<le> fst c" and "drain_pass E path accepted c t = Some (Inr (Inr (peak, processed)), s')"
    by (rule poll_done[where I = "\<lambda>c. initial \<le> fst c"]) (auto simp: drain_pass_def prog_simps Let_def split: if_splits)
  then show ?thesis
    by (auto simp: drain_pass_def prog_simps Let_def split: if_splits)
qed

lemma finish_result_appends:
  assumes "finish_result E directory result path s = Some (Inr u, s')"
  shows "\<exists>r. pf_results (self s') = pf_results (self s) @ [r] \<and> (\<forall>k. \<not> starts_with ''resource'' k \<longrightarrow> map_of r k = map_of result k)"
  using assms
  by (fastforce simp: finish_result_def prog_simps on_machine_def set_self_def get_self_def
      dest!: keepsD[where f = pf_results, OF keeps_library(11)] dest: with_resources_keeps)

lemma keeps_measure_drain [keeps_intros]: "keeps f (measure_drain E workers n run_id path qpath m)"
  unfolding measure_drain_def by (intro keeps_intros)

lemma measure_drain_drained:
  assumes ok: "clock_ok E" and run: "measure_drain E workers n run_id path qpath metrics s = Some (Inr res, s')"
    and names: "fst ` set metrics = set [''requests'', ''throughput_rps'', ''iterations'', ''p50_ms'', ''p95_ms'', ''p99_ms'', ''error_rate'']"
  shows "drained_result workers n res"
proof -
  have "\<exists>accepted peak started t. worker_result workers n accepted accepted accepted peak (t - started) metrics = Inr res \<and>
      accepted \<le> peak \<and> started \<le> t"
    using run
    by (auto simp: measure_drain_def pbind_timed[of E] then_do_timed[of E] ok returns_intros pure_Inr if_prog case_prod_beta
        dest!: clock_Inr drain_queue_drained split: if_splits) (metis order.trans)
  then obtain accepted peak started t where res: "worker_result workers n accepted accepted accepted peak (t - started) metrics = Inr res"
    and peak: "accepted \<le> peak" and le: "started \<le> t"
    by blast
  have d: "t - started \<noteq> 0" using res by (auto simp: worker_result_def split: if_splits)
  then have t: "0 < t - started" using le by simp
  have r: "res = merge_dict [(''experiment'', JStr ''workers''), (''configuration'', JStr (show_nat workers)), (''repetition'', JInt (int n)),
         (''worker_count'', JInt (int workers)), (''accepted_events'', JInt accepted), (''processed_events'', JInt accepted),
         (''initial_backlog'', JInt accepted), (''peak_backlog'', JInt peak), (''drain_seconds'', JFloat (Fin (t - started))),
         (''worker_throughput_eps'', JFloat (Fin (of_int accepted / (t - started))))]
      (float_members metrics)"
    using res d unfolding worker_result_def by (simp only: if_False sum.inject)
  have m: "map_of res k = map_of [(''experiment'', JStr ''workers''), (''configuration'', JStr (show_nat workers)), (''repetition'', JInt (int n)),
         (''worker_count'', JInt (int workers)), (''accepted_events'', JInt accepted), (''processed_events'', JInt accepted),
         (''initial_backlog'', JInt accepted), (''peak_backlog'', JInt peak), (''drain_seconds'', JFloat (Fin (t - started))),
         (''worker_throughput_eps'', JFloat (Fin (of_int accepted / (t - started))))] k"
    if "k \<notin> set [''requests'', ''throughput_rps'', ''iterations'', ''p50_ms'', ''p95_ms'', ''p99_ms'', ''error_rate'']" for k
  proof -
    have "fst ` set (float_members metrics) = fst ` set metrics" by (force simp: float_members_def)
    with that have "k \<notin> fst ` set (float_members metrics)" using names by simp
    from map_of_merge_dict[OF this] show ?thesis by (simp only: r)
  qed
  have x: "of_int accepted / (t - started) * (t - started) = of_int accepted" using d by simp
  show ?thesis
    unfolding drained_result_def
    by (intro exI[of _ accepted] exI[of _ peak] exI[of _ "t - started"] exI[of _ "of_int accepted / (t - started)"] conjI
        peak t x) (simp_all add: m)
qed

lemma worker_trial_drained:
  assumes ok: "clock_ok E" and run: "worker_trial E rate duration workers n s = Some (Inr u, s')"
  shows "\<exists>r. pf_results (self s') = pf_results (self s) @ [r] \<and> drained_result workers n r"
  using run
  by (auto simp: worker_trial_def trial_in_def Let_def pbind_kept[of pf_results] then_do_kept[of pf_results] keeps_intros pure_Inr get_self_def
      pbind_step[of get_self] then_do_Inr[of "finish_result E dir res path" for dir res path]
      dest!: measure_drain_drained[OF ok] run_k6_metric_names finish_result_appends intro: drained_result_cong)

definition worker_trials :: "nat \<Rightarrow> (nat \<times> nat) list" where
  "worker_trials repetitions = [(workers, n). workers \<leftarrow> [1, 4], n \<leftarrow> [1 ..< Suc repetitions]]"

lemma for_each_appends:
  assumes "\<And>x s s'. p x s = Some (Inr (), s') \<Longrightarrow> \<exists>r. pf_results (self s') = pf_results (self s) @ r \<and> Q x r"
    and "for_each p xs s = Some (Inr (), s')"
  shows "\<exists>rs. pf_results (self s') = pf_results (self s) @ concat rs \<and> list_all2 Q xs rs"
  using assms(2)
proof (induction xs arbitrary: s)
  case Nil
  then show ?case by (simp add: ret_def)
next
  case (Cons x xs)
  then obtain s1 where "p x s = Some (Inr (), s1)" and rest: "for_each p xs s1 = Some (Inr (), s')"
    by (auto simp: then_do_Inr)
  then obtain r where r: "pf_results (self s1) = pf_results (self s) @ r" "Q x r" using assms(1) by blast
  from Cons.IH[OF rest] obtain rs where "pf_results (self s') = pf_results (self s1) @ concat rs" and "list_all2 Q xs rs"
    by blast
  with r have "pf_results (self s') = pf_results (self s) @ concat (r # rs)" and "list_all2 Q (x # xs) (r # rs)" by simp_all
  then show ?case by blast
qed

section \<open>A small deployment\<close>

text \<open>
  A small deployment in which a run of the worker experiment succeeds: its outside is the time and whether
  the worker runs, and two events wait until it does.
\<close>

definition tiny_summary :: jval where
  "tiny_summary = JObj [(''metrics'', JObj
     [(''http_req_duration'', JObj [(''med'', JInt 1), (''p(95)'', JInt 1), (''p(99)'', JInt 1)]),
      (''http_reqs'', JObj [(''count'', JInt 2), (''rate'', JInt 1)]), (''http_req_failed'', JObj [(''rate'', JInt 0)]),
      (''iterations'', JObj [(''count'', JInt 2)])])]"

definition tiny_groups :: "bool \<Rightarrow> string" where
  "tiny_groups running = join_with [CHR 0x0A] [''name'', ''fleetpulse-workers'', ''lag'', if running then ''0'' else ''2'']"

definition tiny_out :: "string list \<Rightarrow> bool \<Rightarrow> string" where
  "tiny_out a running =
     (if hd a \<noteq> ''exec'' then [] else if a ! 2 = ''redis'' then tiny_groups running
      else if contains ''NULL'' (last a) then ''0'' else ''2'')"

definition tiny_running :: "string \<Rightarrow> bool \<Rightarrow> bool" where
  "tiny_running verb running = (if verb = ''pause'' then False else if verb = ''unpause'' then True else running)"

definition tiny_env :: "(rat \<times> bool) env" where
  "tiny_env = \<lparr>run_process = (\<lambda>a v m.
        if hd a = ''k6'' then
          (Inr \<lparr>returncode = 0, stdout = [], stderr = []\<rparr>, m\<lparr>files := AList.update (a ! 4) (dumps (\<lambda>_. []) compact tiny_summary)
             (AList.update (drop 5 (a ! 6)) [] (files m))\<rparr>)
        else
          (Inr \<lparr>returncode = 0, stdout = tiny_out (drop 4 a) (snd (outside m)), stderr = []\<rparr>,
           m\<lparr>outside := (fst (outside m) + 1, tiny_running (a ! 4) (snd (outside m)))\<rparr>)),
     request = (\<lambda>c out. (Inr \<lparr>http_status = 200, http_body = []\<rparr>, out)),
     monotonic = (\<lambda>out. (fst out, out)), sleep = (\<lambda>d out. (fst out + d, snd out)),
     utc_now = (\<lambda>out. (''now'', out)), uuid4 = (\<lambda>out. (0, out)), token_urlsafe = (\<lambda>out. (''token'', out)),
     os_environ = [], which = (\<lambda>_. True), facts = [], float_text = (\<lambda>_. ''0.0''), py_str = (\<lambda>_. []),
     error_text = error_name, rounded = id, root = ''/srv'', gzipped = id, sampler_passes = (\<lambda>_. 0)\<rparr>"

lemma tiny_env_clock: "clock_ok tiny_env"
  by (simp add: clock_ok_def now_at_def tiny_env_def)

text \<open>Its steps, at a time and with the worker running or not.\<close>

abbreviation tiny :: "performance \<Rightarrow> (string \<times> string) list \<Rightarrow> string list \<Rightarrow> rat \<Rightarrow> bool \<Rightarrow> (performance, rat \<times> bool) script" where
  "tiny h fs ds t b \<equiv> \<lparr>self = h, machine = \<lparr>files = fs, dirs = ds, outside = (t, b)\<rparr>\<rparr>"

lemmas step_defs = then_do_def pbind_def get_self_def ret_def lift_res_def raise_def

lemma tiny_compose:
  "perf_compose tiny_env check (v # a) (tiny h fs ds t b) =
     Some (Inr \<lparr>returncode = 0, stdout = tiny_out (v # a) b, stderr = []\<rparr>, tiny h fs ds (t + 1) (tiny_running v b))"
  by (simp add: perf_compose_def perf_command_def run_checked_def on_machine_def step_defs tiny_env_def)

lemma tiny_numbers: "strip ''0'' = ''0''" "strip ''2'' = ''2''" "py_int (JStr ''0'') = Inr 0" "py_int (JStr ''2'') = Inr 2"
  by code_simp+

lemma tiny_texts:
  "strip (tiny_groups b) = tiny_groups b" "contains ''fleetpulse-workers'' (tiny_groups b)"
  "contains ''no such key'' (lower (tiny_groups b)) = False" "tiny_groups b \<noteq> []"
  "splitlines (tiny_groups b) = [''name'', ''fleetpulse-workers'', ''lag'', if b then ''0'' else ''2'']"
  by (induct b rule: bool.induct; code_simp)+

lemma tiny_queue: "parse_queue (tiny_groups b) = Inr \<lparr>q_pending = 0, q_lag = (if b then 0 else 2), q_backlog = (if b then 0 else 2)\<rparr>"
  by (simp add: parse_queue_def tiny_texts tiny_numbers merge_dict_def)

lemma tiny_psql:
  "perf_psql tiny_env sql (tiny h fs ds t b) = Some (Inr (if contains ''NULL'' sql then ''0'' else ''2''), tiny h fs ds (t + 1) b)"
  by (simp add: perf_psql_def pbind_def tiny_compose ret_def tiny_out_def tiny_running_def tiny_texts tiny_numbers)

lemma tiny_redis: "perf_redis tiny_env check a (tiny h fs ds t b) = Some (Inr (tiny_groups b), tiny h fs ds (t + 1) b)"
  by (simp add: perf_redis_def pbind_def tiny_compose ret_def tiny_out_def tiny_running_def tiny_texts tiny_numbers)

lemma tiny_clock: "clock tiny_env (tiny h fs ds t b) = Some (Inr t, tiny h fs ds t b)"
  by (simp add: clock_def on_outside_def tiny_env_def)

lemma tiny_clock_bind: "pbind (clock tiny_env) f (tiny h fs ds t b) = f t (tiny h fs ds t b)"
  by (simp add: pbind_def tiny_clock)

lemma tiny_poll:
  assumes "t < deadline" and "step c (tiny h fs ds t b) = Some (Inr (Inr x), s')"
  shows "poll tiny_env deadline d step c (tiny h fs ds t b) = Some (Inr (Inr x), s')"
proof -
  have m: "monotonic tiny_env (outside (machine (tiny h fs ds t b))) = (t, (t, b))" by (simp add: tiny_env_def)
  have s: "with_outside (tiny h fs ds t b) (t, b) = tiny h fs ds t b" by simp
  show ?thesis by (subst poll.simps) (simp only: m s assms prod.case Let_def if_True option.case sum.case)
qed

lemma tiny_poll_bind:
  assumes "t < deadline" and "step c (tiny h fs ds t b) = Some (Inr (Inr x), s')" and "f (Inr x) s' = y"
  shows "pbind (poll tiny_env deadline d step c) f (tiny h fs ds t b) = y"
  unfolding pbind_def tiny_poll[where step = step, OF assms(1,2)] by (simp add: assms(3))

lemma tiny_call: "send_call tiny_env c (tiny h fs ds t b) = Some (Inr \<lparr>http_status = 200, http_body = []\<rparr>, tiny h fs ds t b)"
  by (simp add: send_call_def on_outside_def step_defs tiny_env_def)

lemma tiny_wait_group: "wait_for_worker_group tiny_env (tiny h fs ds t b) = Some (Inr (), tiny h fs ds (t + 1) b)"
  unfolding wait_for_worker_group_def tiny_clock_bind
  by (rule tiny_poll_bind) (simp_all add: pbind_def ret_def tiny_redis tiny_texts)

lemma tiny_wait_outbox: "wait_for_outbox tiny_env (tiny h fs ds t b) = Some (Inr (), tiny h fs ds (t + 1) b)"
  unfolding wait_for_outbox_def tiny_clock_bind
  by (rule tiny_poll_bind) (simp_all add: pbind_def ret_def tiny_psql contains_def starts_with_def)

lemma tiny_wait_api: "perf_wait_api tiny_env (tiny h fs ds t b) = Some (Inr (), tiny h fs ds t b)"
  unfolding perf_wait_api_def tiny_clock_bind
  by (rule tiny_poll_bind) (simp_all add: step_defs handle_def perf_call_def tiny_call raise_for_status_def)

lemma tiny_reset: "reset_state tiny_env (tiny h fs ds t b) = Some (Inr (), tiny h fs ds (t + 4) b)"
  by (simp add: reset_state_def step_defs tiny_compose tiny_psql tiny_redis tiny_running_def)

lemma tiny_configure:
  "configure_cache tiny_env True (tiny h fs ds t b) = Some (Inr (), tiny (h\<lparr>pf_environment :=
     AList.update ''FLEETPULSE_CACHE_ENABLED'' ''true'' (pf_environment h)\<rparr>) fs ds (t + 1) b)"
  by (simp add: configure_cache_def then_do_def pbind_def set_self_def tiny_compose tiny_wait_api tiny_running_def)

lemma tiny_write:
  "parent_dir path \<in> set ds \<Longrightarrow> write_text path x (tiny h fs ds t b) = Some (Inr (), tiny h (AList.update path x fs) ds t b)"
  "parent_dir path \<in> set ds \<Longrightarrow> append_text path x (tiny h fs ds t b) = Some (Inr (), tiny h (AList.update path
     ((case map_of fs path of None \<Rightarrow> [] | Some old \<Rightarrow> old) @ x) fs) ds t b)"
  by (simp_all add: write_text_def append_text_def in_directory_def on_machine_def)

lemma tiny_dirs:
  "path \<notin> fst ` set fs \<Longrightarrow> exist_ok \<or> path \<notin> set ds \<Longrightarrow>
     make_dirs exist_ok path (tiny h fs ds t b) = Some (Inr (), tiny h fs (ancestors_from [] path @ ds) t b)"
  by (auto simp: make_dirs_def on_machine_def)

lemma tiny_sampler: "sampler_thread tiny_env block path (tiny h fs ds t b) = Some (Inr (), tiny h fs ds t b)"
  by (simp add: sampler_thread_def handle_def ret_def tiny_env_def)

definition tiny_metrics :: "(string \<times> pyfloat) list" where
  "tiny_metrics = [(''requests'', Fin 2), (''throughput_rps'', Fin 1), (''iterations'', Fin 2), (''p50_ms'', Fin 1),
     (''p95_ms'', Fin 1), (''p99_ms'', Fin 1), (''error_rate'', Fin 0)]"

lemma tiny_k6_metrics: "k6_metrics tiny_summary = Inr tiny_metrics"
  by (simp add: k6_metrics_def tiny_summary_def tiny_metrics_def subscript_def dict_get_def py_float_def)

lemma tiny_loads: "loads (dumps (\<lambda>_. []) compact tiny_summary) = Some tiny_summary"
  by (rule loads_dumps) (simp_all add: tiny_summary_def)

lemma tiny_k6_run:
  "perf_command tiny_env False (Some v) [''k6'', x1, x2, x3, summary, x5, ''json='' @ raw, x7] (tiny h fs ds t b) =
     Some (Inr \<lparr>returncode = 0, stdout = [], stderr = []\<rparr>,
       tiny h (AList.update summary (dumps (\<lambda>_. []) compact tiny_summary) (AList.update raw [] fs)) ds t b)"
  by (simp add: perf_command_def run_checked_def on_machine_def step_defs tiny_env_def del: dumps.simps)

lemma last_ancestor: "ancestors_from seen p \<noteq> [] \<and> last (ancestors_from seen p) = seen @ p"
  by (induction seen p rule: ancestors_from.induct) auto

lemma path_in_ancestors [simp]: "p \<in> set (ancestors_from [] p)"
  using last_ancestor[of "[]" p] last_in_set[of "ancestors_from [] p"] by simp

lemma tiny_k6:
  assumes "d \<notin> fst ` set fs"
  shows "\<exists>fs'. run_k6 tiny_env d ''ingest'' rate duration run_id path (tiny h fs ds t b) =
    Some (Inr tiny_metrics, tiny h fs' (ancestors_from [] d @ ds) t b) \<and>
    fst ` set fs' \<subseteq> fst ` set fs \<union> (@) d ` {''/k6-summary.json'', ''/k6-console.txt'', ''/k6-samples.jsonl.gz''}"
proof -
  have gz: "gzipped tiny_env = id" by (simp add: tiny_env_def)
  show ?thesis
    using assms
    by (simp add: run_k6_def Let_def then_do_def pbind_def get_self_def tiny_dirs tiny_sampler tiny_k6_run[simplified] tiny_write
        read_text_def unlink_def on_machine_def lift_res_def update_conv' tiny_loads tiny_k6_metrics gz del: dumps.simps)
      (auto simp: update_conv' delete_conv' dom_map_of_conv_image_fst[symmetric])
qed

lemma tiny_drain_queue:
  assumes "parent_dir qpath \<in> set ds"
  shows "\<exists>fs'. drain_queue tiny_env qpath 2 2 (t + 119) (tiny h fs ds t True) = Some (Inr (2, 2), tiny h fs' ds (t + 2) True) \<and>
    fst ` set fs' \<subseteq> insert qpath (fst ` set fs)"
proof -
  have utc: "on_outside (utc_now tiny_env) (tiny h fs ds t b) = Some (Inr ''now'', tiny h fs ds t b)" for fs t b
    by (simp add: on_outside_def tiny_env_def)
  have "drain_pass tiny_env qpath 2 (2, 0) (tiny h fs ds t True) = Some (Inr (Inr (2, 2)), tiny h (AList.update qpath
     ((case map_of fs qpath of None \<Rightarrow> [] | Some old \<Rightarrow> old) @ json_line tiny_env [(''sampled_at'', JStr ''now''), (''processed'', JInt 2),
       (''pending'', JInt 0), (''lag'', JInt 0), (''backlog'', JInt 0)]) fs) ds (t + 2) True)"
    using assms by (simp add: drain_pass_def queue_state_def psql_count_def then_do_def pbind_def tiny_redis tiny_psql tiny_queue
        tiny_numbers contains_def starts_with_def lift_res_def utc tiny_write ret_def)
  then have "poll tiny_env (t + 119) (1 / 10) (drain_pass tiny_env qpath 2) (2, 0) (tiny h fs ds t True) = Some (Inr (Inr (2, 2)), tiny h (AList.update qpath
     ((case map_of fs qpath of None \<Rightarrow> [] | Some old \<Rightarrow> old) @ json_line tiny_env [(''sampled_at'', JStr ''now''), (''processed'', JInt 2),
       (''pending'', JInt 0), (''lag'', JInt 0), (''backlog'', JInt 0)]) fs) ds (t + 2) True)"
    by (intro tiny_poll) simp_all
  then show ?thesis
    by (auto simp: drain_queue_def pbind_def ret_def dom_map_of_conv_image_fst[symmetric] update_conv')
qed

lemma tiny_drain:
  assumes "parent_dir qpath \<in> set ds"
  shows "\<exists>fs' res. measure_drain tiny_env workers n run_id path qpath tiny_metrics (tiny h fs ds t False) =
    Some (Inr res, tiny h fs' ds (t + 5) True) \<and> fst ` set fs' \<subseteq> insert qpath (fst ` set fs)"
proof -
  obtain fs' where q: "drain_queue tiny_env qpath 2 2 (t + 3 + 119) (tiny h fs ds (t + 3) True) = Some (Inr (2, 2), tiny h fs' ds (t + 3 + 2) True)"
    and fs': "fst ` set fs' \<subseteq> insert qpath (fst ` set fs)"
    using tiny_drain_queue[OF assms, of "t + 3"] by blast
  from q fs' show ?thesis
    by (auto simp: measure_drain_def queue_state_def psql_count_def then_do_def pbind_def tiny_redis tiny_psql tiny_queue tiny_numbers
        contains_def starts_with_def lift_res_def tiny_sampler tiny_compose tiny_clock tiny_running_def worker_result_def ac_simps)
qed

lemma tiny_finish:
  assumes "path \<notin> fst ` set fs" and "d \<in> set ds" and "pf_output h \<in> set ds"
  shows "\<exists>fs' r. finish_result tiny_env d result path (tiny h fs ds t b) =
    Some (Inr (), tiny (h\<lparr>pf_results := pf_results h @ [r]\<rparr>) fs' ds t b) \<and>
    fst ` set fs' \<subseteq> insert (d @ ''/result.json'') (insert (pf_output h @ ''/results.json'') (fst ` set fs))"
proof -
  have "map_of fs path = None" using assms(1) by (simp add: map_of_eq_None_iff)
  then show ?thesis
    using assms(2,3)
    by (simp add: finish_result_def then_do_def pbind_def on_machine_def resource_metrics_def with_resources_def lift_res_def
        write_pretty_def tiny_write set_self_def get_self_def dom_map_of_conv_image_fst[symmetric] update_conv')
      (auto intro: exI[of _ "AList.update ''resources'' (JObj []) result"])
qed

lemma names_chain:
  "X1 \<subseteq> X \<union> f ` {a, b, c} \<Longrightarrow> X2 \<subseteq> insert (f e) X1 \<Longrightarrow> X3 \<subseteq> insert (f g) (insert z X2) \<Longrightarrow>
     X3 \<subseteq> X \<union> f ` {a, b, c, e, g} \<union> {z}"
  by blast

lemma tiny_trial:
  assumes "d \<notin> fst ` set fs" and "d \<notin> set ds" and "d @ ''/resources.jsonl'' \<notin> fst ` set fs" and "pf_output h \<in> set ds"
  shows "\<exists>r fs' t'. trial_in tiny_env rate duration workers n run_id d (tiny h fs ds t b) =
    Some (Inr (), tiny (h\<lparr>pf_results := pf_results h @ [r]\<rparr>) fs' (ancestors_from [] d @ ancestors_from [] d @ ds) t' True) \<and>
    fst ` set fs' \<subseteq> fst ` set fs \<union> (@) d ` {''/k6-summary.json'', ''/k6-console.txt'', ''/k6-samples.jsonl.gz'', ''/queue.jsonl'',
      ''/result.json''} \<union> {pf_output h @ ''/results.json''}"
proof -
  let ?ds = "ancestors_from [] d @ ds" let ?path = "d @ ''/resources.jsonl'' "
  let ?ds2 = "ancestors_from [] d @ ?ds"
  have dirs: "make_dirs False d (tiny h fs ds t b) = Some (Inr (), tiny h fs ?ds t b)"
    using assms by (simp add: tiny_dirs)
  obtain fs1 where k6: "run_k6 tiny_env d ''ingest'' rate duration run_id ?path (tiny h fs ?ds (t + 8) False) =
      Some (Inr tiny_metrics, tiny h fs1 ?ds2 (t + 8) False)"
    and fs1: "fst ` set fs1 \<subseteq> fst ` set fs \<union> (@) d ` {''/k6-summary.json'', ''/k6-console.txt'', ''/k6-samples.jsonl.gz''}"
    using tiny_k6[OF assms(1)] by blast
  obtain fs2 res where drain: "measure_drain tiny_env workers n run_id ?path (d @ ''/queue.jsonl'') tiny_metrics (tiny h fs1 ?ds2 (t + 10) False) =
      Some (Inr res, tiny h fs2 ?ds2 (t + 15) True)"
    and fs2: "fst ` set fs2 \<subseteq> insert (d @ ''/queue.jsonl'') (fst ` set fs1)"
    using tiny_drain[of "d @ ''/queue.jsonl''" ?ds2 workers n run_id ?path h fs1 "t + 10"] by auto
  have "?path \<notin> fst ` set fs2" using assms(3) subsetD[OF fs1, of ?path] subsetD[OF fs2, of ?path] by simp blast
  from tiny_finish[OF this, of d ?ds2 h res "t + 15" True] assms(4) obtain fs3 r
    where finish: "finish_result tiny_env d res ?path (tiny h fs2 ?ds2 (t + 15) True) =
        Some (Inr (), tiny (h\<lparr>pf_results := pf_results h @ [r]\<rparr>) fs3 ?ds2 (t + 15) True)"
      and fs3: "fst ` set fs3 \<subseteq> insert (d @ ''/result.json'') (insert (pf_output h @ ''/results.json'') (fst ` set fs2))"
    by auto
  have "trial_in tiny_env rate duration workers n run_id d (tiny h fs ds t b) =
    Some (Inr (), tiny (h\<lparr>pf_results := pf_results h @ [r]\<rparr>) fs3 ?ds2 (t + 16) True)"
    using k6 drain finish
    by (simp add: trial_in_def Let_def then_do_def pbind_def dirs tiny_reset tiny_compose tiny_wait_group tiny_wait_outbox tiny_running_def
        ret_def ac_simps)
  moreover have "fst ` set fs3 \<subseteq> fst ` set fs \<union> (@) d ` {''/k6-summary.json'', ''/k6-console.txt'', ''/k6-samples.jsonl.gz'', ''/queue.jsonl'',
      ''/result.json''} \<union> {pf_output h @ ''/results.json''}"
    by (rule names_chain[where f = "(@) d", OF fs1 fs2 fs3])
  ultimately show ?thesis by blast
qed

definition tiny_start :: "(performance, rat \<times> bool) script" where
  "tiny_start = tiny \<lparr>pf_output = ''/o'', pf_repetitions = 1, pf_keep_running = False, pf_project = ''p'', pf_results = [],
     pf_environment = [], pf_token = ''t''\<rparr> [] [''/o''] 0 True"

lemma tiny_numerals: "show_nat (Suc 0) = ''1''" "show_nat 4 = ''4''"
  by code_simp+

lemma tiny_directories:
  "''/o/raw/workers-1-r1'' \<notin> set [''/o'']" "''/o/raw/workers-4-r1'' \<notin> set (ancestors_from [] ''/o/raw/workers-1-r1'' @ ancestors_from [] ''/o/raw/workers-1-r1'' @ [''/o''])"
  by code_simp+

lemma tiny_experiment:
  "\<exists>s'. run_worker_experiment tiny_env 10 ''3s'' tiny_start = Some (Inr (), s')"
proof -
  let ?d1 = "''/o/raw/workers-1-r1''" let ?d4 = "''/o/raw/workers-4-r1''"
  let ?h = "\<lparr>pf_output = ''/o'', pf_repetitions = 1, pf_keep_running = False, pf_project = ''p'', pf_results = [],
     pf_environment = [(''FLEETPULSE_CACHE_ENABLED'', ''true'')], pf_token = ''t''\<rparr>"
  let ?ds = "ancestors_from [] ?d1 @ ancestors_from [] ?d1 @ [''/o'']"
  have start: "configure_cache tiny_env True tiny_start = Some (Inr (), tiny ?h [] [''/o''] 1 True)"
    unfolding tiny_start_def tiny_configure by simp
  obtain r fs t where 1: "trial_in tiny_env 10 ''3s'' 1 1 ''workers-1-r1'' ?d1 (tiny ?h [] [''/o''] 1 True) =
      Some (Inr (), tiny (?h\<lparr>pf_results := pf_results ?h @ [r]\<rparr>) fs ?ds t True)"
    and fs: "fst ` set fs \<subseteq> fst ` set [] \<union> (@) ?d1 ` {''/k6-summary.json'', ''/k6-console.txt'', ''/k6-samples.jsonl.gz'',
      ''/queue.jsonl'', ''/result.json''} \<union> {pf_output ?h @ ''/results.json''}"
    using tiny_trial[of ?d1 "[]" "[''/o'']" ?h 10 "''3s''" 1 1 "''workers-1-r1''" 1 True] tiny_directories(1) by auto
  have "?d4 \<notin> fst ` set fs" and "?d4 @ ''/resources.jsonl'' \<notin> fst ` set fs"
    using subsetD[OF fs, of ?d4] subsetD[OF fs, of "?d4 @ ''/resources.jsonl''"] by auto
  from tiny_trial[of ?d4 fs ?ds "?h\<lparr>pf_results := pf_results ?h @ [r]\<rparr>" 10 "''3s''" 4 1 "''workers-4-r1''" t True, OF this(1) tiny_directories(2) this(2)]
  obtain s' where 4: "trial_in tiny_env 10 ''3s'' 4 1 ''workers-4-r1'' ?d4 (tiny (?h\<lparr>pf_results := pf_results ?h @ [r]\<rparr>) fs ?ds t True) =
      Some (Inr (), s')"
    by auto
  have "worker_trial tiny_env 10 ''3s'' 1 1 (tiny ?h [] [''/o''] 1 True) = trial_in tiny_env 10 ''3s'' 1 1 ''workers-1-r1'' ?d1 (tiny ?h [] [''/o''] 1 True)"
    by (simp add: worker_trial_def pbind_def get_self_def Let_def tiny_numerals)
  moreover have "worker_trial tiny_env 10 ''3s'' 4 1 (tiny (?h\<lparr>pf_results := pf_results ?h @ [r]\<rparr>) fs ?ds t True) =
      trial_in tiny_env 10 ''3s'' 4 1 ''workers-4-r1'' ?d4 (tiny (?h\<lparr>pf_results := pf_results ?h @ [r]\<rparr>) fs ?ds t True)"
    by (simp add: worker_trial_def pbind_def get_self_def Let_def tiny_numerals)
  ultimately show ?thesis
    using start 1 4
    by (simp add: run_worker_experiment_def then_do_def pbind_def get_self_def ret_def)
qed

section \<open>Properties\<close>

text \<open>
  Whatever docker, k6 and the services answer, a whole run of the performance experiments comes to an
  end, in either profile: every wait gives up at its deadline and every list of trials is finite. All
  that is used of the outside is that the monotonic clock never goes back and that sleeping advances it.
\<close>

theorem experiments_return:
  assumes "clock_ok E"
  shows "\<exists>r s'. perf_main E profile out keep_running s = Some (r, s') \<and> now E s \<le> now E s'"
  using returns_perf_main[OF assms] by (rule returnsE) blast

theorem experiments_return_witness:
  "\<forall>h. \<exists>r s'. perf_main dead_env ''smoke'' ''/srv/out'' False \<lparr>self = h, machine = \<lparr>files = [], dirs = [''/srv''], outside = 0\<rparr>\<rparr> =
     Some (r, s')"
  using experiments_return[OF dead_env_clock, of "''smoke''" "''/srv/out''" False] by blast



text \<open>
  The harness cannot be constructed where the CA certificate does not exist yet: its client reads the
  certificate when it is constructed, so a run ends with \<open>FileNotFoundError\<close> before the set-up that would
  generate the certificates, and changes no file.
\<close>

theorem harness_needs_certificate:
  assumes "ca_bundle E \<notin> set (dirs (machine s))" and "ca_bundle E \<notin> fst ` set (files (machine s))"
  shows "\<exists>s'. perf_main E profile out keep_running s = Some (Inl (ServiceError ''FileNotFoundError''), s') \<and>
    files (machine s') = files (machine s) \<and> dirs (machine s') = dirs (machine s)"
  using assms
  by (simp add: perf_main_def perf_init_def open_client_def path_exists_def then_do_def pbind_def on_outside_eq on_machine_def
      set_self_def raise_def ca_bundle_def)

theorem harness_needs_certificate_witness:
  "\<forall>h. \<exists>s'. perf_main dead_env ''full'' ''/srv/out'' True \<lparr>self = h, machine = \<lparr>files = [], dirs = [''/srv''], outside = 0\<rparr>\<rparr> =
     Some (Inl (ServiceError ''FileNotFoundError''), s')"
proof
  fix h
  show "\<exists>s'. perf_main dead_env ''full'' ''/srv/out'' True \<lparr>self = h, machine = \<lparr>files = [], dirs = [''/srv''], outside = 0\<rparr>\<rparr> =
     Some (Inl (ServiceError ''FileNotFoundError''), s')"
    using harness_needs_certificate[of dead_env "\<lparr>self = h, machine = \<lparr>files = [], dirs = [''/srv''], outside = 0\<rparr>\<rparr>" "''full''" "''/srv/out''" True]
    by (auto simp: ca_bundle_def)
qed


definition failing_env :: "rat env" where
  "failing_env = dead_env\<lparr>sampler_passes := (\<lambda>_. 20)\<rparr>"


end
