(* ===== verification/Images.thy ===== *)
theory Images
  imports Python
begin

text \<open>
  The supply-chain contract of \<open>tools/ci_contract.py\<close>: workflow actions, scanner images and runtime
  images must be pinned to immutable references. The YAML reader (\<open>yaml.safe_load\<close>), the file
  system (\<open>read\<close>, a relative path to its text or the exception reading it raises), the directory
  listing of the Kubernetes base and \<open>str\<close> of a value that is not a string are arguments. A mapping
  read from YAML is represented by its string keys.

  Every check is a result: \<^const>\<open>AssertionError\<close> with the message of the code, or the exception a
  malformed document raises. The lemmas show what a passing run guarantees about every reference.
\<close>

section \<open>References\<close>

definition lower_hex :: "char \<Rightarrow> bool" where
  "lower_hex c \<longleftrightarrow> is_digit c \<or> (97 \<le> ord c \<and> ord c \<le> 102)"

text \<open>\<open>SHA_REF.fullmatch\<close> and \<open>DIGEST_REF.search\<close>: \<open>$\<close> also matches before a final newline.\<close>

definition sha_ref :: "string \<Rightarrow> bool" where
  "sha_ref s \<longleftrightarrow> length s = 40 \<and> list_all lower_hex s"

definition digest_at_end :: "string \<Rightarrow> bool" where
  "digest_at_end s \<longleftrightarrow> 72 \<le> length s \<and> take 8 (drop (length s - 72) s) = ''@sha256:'' \<and>
     list_all lower_hex (drop (length s - 64) s)"

definition digest_ref :: "string \<Rightarrow> bool" where
  "digest_ref s \<longleftrightarrow> digest_at_end s \<or> (s \<noteq> [] \<and> last s = CHR 0x0A \<and> digest_at_end (butlast s))"

definition REQUIRED_JOBS :: "string list" where
  "REQUIRED_JOBS = [''python-quality'', ''dependency-audit'', ''secret-scan'', ''manifest-security'', ''image-security'',
     ''compose-smoke'']"

section \<open>The workflow\<close>

text \<open>\<open>"@" in value\<close> and \<open>value.items()\<close>.\<close>

definition value_contains :: "string \<Rightarrow> jval \<Rightarrow> bool res" where
  "value_contains needle v = (case v of
     JStr s \<Rightarrow> Inr (contains needle s)
   | JList xs \<Rightarrow> Inr (JStr needle \<in> set xs)
   | JObj m \<Rightarrow> Inr (needle \<in> fst ` set m)
   | _ \<Rightarrow> Inl TypeError)"

definition dict_items :: "jval \<Rightarrow> (string \<times> jval) list res" where
  "dict_items v = (case v of JObj m \<Rightarrow> Inr m | _ \<Rightarrow> Inl AttributeError)"

definition check_step :: "(jval \<Rightarrow> string) \<Rightarrow> jval \<Rightarrow> unit res" where
  "check_step py_str step =
     res_bind (dict_get step ''uses'' JNull) (\<lambda>reference.
     if \<not> jtruthy reference then Inr ()
     else
       res_bind (value_contains ''@'' reference) (\<lambda>has_ref.
       res_bind (require has_ref (''action reference lacks a ref: '' @ py_str reference)) (\<lambda>_.
       case reference of
         JStr s \<Rightarrow>
           (case split_last (CHR ''@'') s of
              None \<Rightarrow> Inl (ValueError ''not enough values to unpack (expected 2, got 1)'')
            | Some (owner_action, ref) \<Rightarrow>
                res_bind (require (sha_ref ref) (''action must use a commit SHA: '' @ s)) (\<lambda>_.
                require (starts_with ''actions/'' owner_action) (''unapproved action owner: '' @ s)))
       | _ \<Rightarrow> Inl AttributeError)))"

definition check_job :: "(jval \<Rightarrow> string) \<Rightarrow> string \<times> jval \<Rightarrow> unit res" where
  "check_job py_str nj =
     res_bind (dict_get (snd nj) ''timeout-minutes'' JNull) (\<lambda>timeout.
     res_bind (require (jtruthy timeout) (''job '' @ fst nj @ '' must have a timeout'')) (\<lambda>_.
     res_bind (dict_get (snd nj) ''steps'' (JList [])) (\<lambda>steps.
     res_bind (iterate steps) (\<lambda>xs. each (check_step py_str) xs))))"

definition workflow_contract :: "(jval \<Rightarrow> string) \<Rightarrow> (string \<Rightarrow> jval res) \<Rightarrow> (string \<Rightarrow> string res) \<Rightarrow> unit res" where
  "workflow_contract py_str safe_load read =
     res_bind (read ''.github/workflows/quality.yml'') (\<lambda>text.
     res_bind (safe_load text) (\<lambda>workflow.
     res_bind (dict_get workflow ''jobs'' (JObj [])) (\<lambda>jobs.
     res_bind (set_of_value jobs) (\<lambda>names.
     res_bind (require (JStr ` set REQUIRED_JOBS \<subseteq> set names) ''quality workflow is missing required jobs'') (\<lambda>_.
     res_bind (dict_get workflow ''permissions'' JNull) (\<lambda>permissions.
     res_bind (require (permissions = JObj [(''contents'', JStr ''read'')]) ''default permissions must read only'') (\<lambda>_.
     res_bind (require (\<not> contains ''pull_request_target'' text) ''pull_request_target is forbidden'') (\<lambda>_.
     res_bind (dict_items jobs) (\<lambda>items. each (check_job py_str) items)))))))))"

section \<open>Tool images\<close>

definition tool_entry :: "string \<Rightarrow> (string \<times> string) list \<Rightarrow> (string \<times> string) list res" where
  "tool_entry line entries =
     (if line \<noteq> [] \<and> \<not> starts_with ''#'' line then
        (case split_first (CHR ''='') line of
           None \<Rightarrow> Inl (ValueError ''not enough values to unpack (expected 2, got 1)'')
         | Some (key, value) \<Rightarrow> Inr (AList.update key value entries))
      else Inr entries)"

definition tool_names :: "string list" where
  "tool_names = [''ACTIONLINT_IMAGE'', ''KUBECONFORM_IMAGE'', ''SYFT_IMAGE'', ''TRIVY_IMAGE'']"

definition tool_image_contract :: "(string \<Rightarrow> string res) \<Rightarrow> unit res" where
  "tool_image_contract read =
     res_bind (read ''security/tool-images.env'') (\<lambda>text.
     res_bind (fold_res tool_entry (splitlines text) []) (\<lambda>entries.
     res_bind (require (set (map fst entries) = set tool_names) ''security tool inventory drifted'') (\<lambda>_.
     each (\<lambda>(key, reference). require (digest_ref reference) (key @ '' is not digest pinned'')) entries)))"

section \<open>Runtime images\<close>

definition dockerfiles :: "string list" where
  "dockerfiles = [''agent/Dockerfile'', ''services/api/Dockerfile'', ''services/assistant/Dockerfile'',
     ''services/outbox_relay/Dockerfile'', ''services/worker/Dockerfile'']"

definition check_dockerfile :: "(string \<Rightarrow> string res) \<Rightarrow> string \<Rightarrow> unit res" where
  "check_dockerfile read path =
     res_bind (read path) (\<lambda>text.
     res_bind (py_index (splitlines text) 0) (\<lambda>first_line.
     res_bind (py_index (split_words first_line) 1) (\<lambda>img.
     require (digest_ref img) (''base image not pinned: '' @ path))))"

definition check_service :: "string \<times> jval \<Rightarrow> unit res" where
  "check_service ns =
     res_bind (dict_get (snd ns) ''image'' JNull) (\<lambda>img.
     if \<not> jtruthy img then Inr ()
     else case img of
       JStr s \<Rightarrow> require (digest_ref s) (''Compose image not pinned: '' @ fst ns)
     | _ \<Rightarrow> Inl TypeError)"

text \<open>
  \<open>re.finditer(r"^\s+image:\s+(\S+)$", text, re.MULTILINE)\<close>, as the captured groups. After the
  anchor every repetition has one possible extent: a run of white space ends where a character that
  is not white space follows, the captured run ends at white space or at the end of the text, and
  \<open>$\<close> accepts it when that is a newline or the end.
\<close>

definition image_here :: "string \<Rightarrow> (string \<times> string) option" where
  "image_here s =
     (let r = dropWhile is_space s; t = drop 6 r; u = dropWhile is_space t;
          img = takeWhile (\<lambda>c. \<not> is_space c) u; v = dropWhile (\<lambda>c. \<not> is_space c) u
      in if s \<noteq> [] \<and> is_space (hd s) \<and> starts_with ''image:'' r \<and> t \<noteq> [] \<and> is_space (hd t) \<and> img \<noteq> [] \<and>
            (v = [] \<or> hd v = CHR 0x0A)
         then Some (img, v) else None)"

lemma image_here_shorter: "image_here s = Some (i, v) \<Longrightarrow> length v < length s"
proof -
  assume "image_here s = Some (i, v)"
  then have "s \<noteq> []" and "v = dropWhile (\<lambda>c. \<not> is_space c) (dropWhile is_space (drop 6 (dropWhile is_space s)))"
    and "is_space (hd s)"
    by (auto simp: image_here_def Let_def split: if_splits)
  then have "length v \<le> length (dropWhile is_space s)"
    using length_dropWhile_le[of "\<lambda>c. \<not> is_space c" "dropWhile is_space (drop 6 (dropWhile is_space s))"]
      length_dropWhile_le[of is_space "drop 6 (dropWhile is_space s)"] by simp
  also have "\<dots> < length s"
    using \<open>s \<noteq> []\<close> \<open>is_space (hd s)\<close> length_dropWhile_le[of is_space "tl s"] by (cases s) auto
  finally show ?thesis .
qed

function images_from :: "bool \<Rightarrow> string \<Rightarrow> string list" where
  "images_from line_start [] = []"
| "images_from line_start (c # r) =
     (case (if line_start then image_here (c # r) else None) of
        Some (img, rest) \<Rightarrow> img # images_from False rest
      | None \<Rightarrow> images_from (c = CHR 0x0A) r)"
  by pat_completeness auto

termination
  by (relation "measure (\<lambda>(_, s). length s)") (auto dest: image_here_shorter split: if_splits)

definition manifest_images :: "string \<Rightarrow> string list" where
  "manifest_images text = images_from True text"

definition check_manifest :: "(string \<Rightarrow> string res) \<Rightarrow> string \<Rightarrow> unit res" where
  "check_manifest read path =
     res_bind (read path) (\<lambda>text.
     each (\<lambda>img. if \<not> starts_with ''fleetpulse-'' img
                    then require (digest_ref img) (''Kubernetes image not pinned: '' @ img) else Inr ())
       (manifest_images text))"

definition runtime_image_contract ::
    "(string \<Rightarrow> jval res) \<Rightarrow> (string \<Rightarrow> string res) \<Rightarrow> string list \<Rightarrow> unit res" where
  "runtime_image_contract safe_load read manifests =
     res_bind (each (check_dockerfile read) dockerfiles) (\<lambda>_.
     res_bind (read ''compose.yaml'') (\<lambda>text.
     res_bind (safe_load text) (\<lambda>compose.
     res_bind (subscript compose ''services'') (\<lambda>services.
     res_bind (dict_items services) (\<lambda>items.
     res_bind (each check_service items) (\<lambda>_.
     each (check_manifest read) manifests))))))"

definition ci_main ::
    "(jval \<Rightarrow> string) \<Rightarrow> (string \<Rightarrow> jval res) \<Rightarrow> (string \<Rightarrow> string res) \<Rightarrow> string list \<Rightarrow> int res" where
  "ci_main py_str safe_load read manifests =
     res_bind (workflow_contract py_str safe_load read) (\<lambda>_.
     res_bind (tool_image_contract read) (\<lambda>_.
     res_bind (runtime_image_contract safe_load read manifests) (\<lambda>_. Inr 0)))"

section \<open>What a passing run guarantees\<close>

text \<open>A digest reference: a name, the marker and 64 hexadecimal digits, at the end or before a final newline.\<close>

definition pinned :: "string \<Rightarrow> bool" where
  "pinned s \<longleftrightarrow> (\<exists>name hex nl. s = name @ ''@sha256:'' @ hex @ nl \<and> length hex = 64 \<and> list_all lower_hex hex \<and> nl \<in> {[], [CHR 0x0A]})"

lemma digest_at_end_iff: "digest_at_end s \<longleftrightarrow> (\<exists>name hex. s = name @ ''@sha256:'' @ hex \<and> length hex = 64 \<and> list_all lower_hex hex)"
proof
  assume d: "digest_at_end s"
  let ?n = "length s - 72"
  have "8 + ?n = length s - 64" using d by (simp add: digest_at_end_def)
  then have "drop ?n s = take 8 (drop ?n s) @ drop (length s - 64) s"
    by (metis append_take_drop_id drop_drop)
  then have "s = take ?n s @ take 8 (drop ?n s) @ drop (length s - 64) s"
    by (metis append_take_drop_id)
  with d show "\<exists>name hex. s = name @ ''@sha256:'' @ hex \<and> length hex = 64 \<and> list_all lower_hex hex"
    by (intro exI[of _ "take ?n s"] exI[of _ "drop (length s - 64) s"]) (auto simp: digest_at_end_def)
next
  assume "\<exists>name hex. s = name @ ''@sha256:'' @ hex \<and> length hex = 64 \<and> list_all lower_hex hex"
  then show "digest_at_end s" by (auto simp: digest_at_end_def)
qed

text \<open>
  The digest pattern accepts exactly the references pinned to an immutable digest: some name, then
  \<open>@sha256:\<close> and 64 lower-case hexadecimal digits, which end the text or are followed only by a final
  newline.
\<close>

lemma digest_ref_iff: "digest_ref s \<longleftrightarrow> pinned s"
proof -
  have last: "s \<noteq> [] \<and> last s = CHR 0x0A \<and> digest_at_end (butlast s) \<longleftrightarrow> (\<exists>t. s = t @ [CHR 0x0A] \<and> digest_at_end t)"
    by (metis append_butlast_last_id butlast_snoc last_snoc snoc_eq_iff_butlast)
  have split: "(\<exists>name hex nl. s = name @ M @ hex @ nl \<and> length hex = 64 \<and> list_all lower_hex hex \<and> nl \<in> {[], [CHR 0x0A]}) \<longleftrightarrow>
      (\<exists>name hex. s = name @ M @ hex \<and> length hex = 64 \<and> list_all lower_hex hex) \<or>
      (\<exists>t. s = t @ [CHR 0x0A] \<and> (\<exists>name hex. t = name @ M @ hex \<and> length hex = 64 \<and> list_all lower_hex hex))"
    (is "?l \<longleftrightarrow> ?r") for M
  proof
    assume ?l then show ?r by (elim exE conjE insertE) auto
  next
    assume ?r then show ?l by (elim disjE exE conjE) (metis append_Nil2 append_assoc insertCI)+
  qed
  show ?thesis
    unfolding digest_ref_def last unfolding pinned_def split digest_at_end_iff ..
qed

text \<open>What the workflow contract checks of a step and of a job.\<close>

definition action_pinned :: "jval \<Rightarrow> bool" where
  "action_pinned step \<longleftrightarrow> (\<exists>m. step = JObj m \<and> (case map_of m ''uses'' of
     None \<Rightarrow> True
   | Some v \<Rightarrow> jtruthy v \<longrightarrow> (\<exists>action sha. v = JStr (''actions/'' @ action @ ''@'' @ sha) \<and> sha_ref sha)))"

definition job_checked :: "jval \<Rightarrow> bool" where
  "job_checked job \<longleftrightarrow> (\<exists>m timeout. job = JObj m \<and> map_of m ''timeout-minutes'' = Some timeout \<and> jtruthy timeout \<and>
     (case map_of m ''steps'' of
        None \<Rightarrow> True
      | Some v \<Rightarrow> (\<exists>steps. iterate v = Inr steps \<and> (\<forall>step \<in> set steps. action_pinned step))))"

lemma check_step_Inr:
  assumes "check_step py_str step = Inr u"
  shows "action_pinned step"
proof -
  obtain m where m: "step = JObj m" using assms by (auto simp: check_step_def res_bind_eq_Inr dict_get_Inr)
  have "\<exists>action sha. v = JStr (''actions/'' @ action @ ''@'' @ sha) \<and> sha_ref sha" if v: "map_of m ''uses'' = Some v" and t: "jtruthy v" for v
  proof -
    obtain s owner sha where s: "v = JStr s" and "split_last (CHR ''@'') s = Some (owner, sha)" and "sha_ref sha"
      and "starts_with ''actions/'' owner"
      using assms v t by (auto simp: m check_step_def res_bind_eq_Inr require_Inr dict_get_Inr split: jval.splits option.splits)
    then show ?thesis by (auto simp: starts_with_iff dest!: split_last_append) blast
  qed
  then show ?thesis by (simp add: action_pinned_def m split: option.split)
qed

lemma check_job_Inr: "check_job py_str nj = Inr u \<Longrightarrow> job_checked (snd nj)"
  by (auto simp: check_job_def job_checked_def res_bind_eq_Inr require_Inr dict_get_Inr each_Inr iterate_def dest!: check_step_Inr)

lemma py_index_Inr [res_simps]:
  "py_index xs 0 = Inr x \<longleftrightarrow> (\<exists>r. xs = x # r)" "py_index xs 1 = Inr x \<longleftrightarrow> (\<exists>y r. xs = y # x # r)"
  by (cases xs; cases "tl xs"; auto simp: py_index_def)+

lemma dict_items_Inr [res_simps]: "dict_items v = Inr m \<longleftrightarrow> v = JObj m"
  by (auto simp: dict_items_def split: jval.splits)

lemma ci_main_Inr:
  assumes "ci_main py_str safe_load read manifests = Inr r"
  shows "workflow_contract py_str safe_load read = Inr ()" "tool_image_contract read = Inr ()"
    "runtime_image_contract safe_load read manifests = Inr ()"
  using assms by (auto simp: ci_main_def res_bind_eq_Inr)


text \<open>The images that are run or built from: scanners, Dockerfiles, Compose services, the Kubernetes base.\<close>

definition tools_pinned :: "(string \<Rightarrow> string res) \<Rightarrow> bool" where
  "tools_pinned read \<longleftrightarrow> (\<exists>content entries. read ''security/tool-images.env'' = Inr content \<and>
     fold_res tool_entry (splitlines content) [] = Inr entries \<and> fst ` set entries = set tool_names \<and>
     (\<forall>entry \<in> set entries. pinned (snd entry)))"

definition base_pinned :: "(string \<Rightarrow> string res) \<Rightarrow> string \<Rightarrow> bool" where
  "base_pinned read path \<longleftrightarrow> (\<exists>content line rest verb base more. read path = Inr content \<and> splitlines content = line # rest \<and>
     split_words line = verb # base # more \<and> pinned base)"

definition service_pinned :: "jval \<Rightarrow> bool" where
  "service_pinned service \<longleftrightarrow> (\<exists>m. service = JObj m \<and>
     (\<forall>v. map_of m ''image'' = Some v \<longrightarrow> jtruthy v \<longrightarrow> (\<exists>ref. v = JStr ref \<and> pinned ref)))"

definition compose_pinned :: "(string \<Rightarrow> jval res) \<Rightarrow> (string \<Rightarrow> string res) \<Rightarrow> bool" where
  "compose_pinned safe_load read \<longleftrightarrow> (\<exists>content compose services. read ''compose.yaml'' = Inr content \<and>
     safe_load content = Inr (JObj compose) \<and> map_of compose ''services'' = Some (JObj services) \<and>
     (\<forall>service \<in> set services. service_pinned (snd service)))"

definition manifest_pinned :: "(string \<Rightarrow> string res) \<Rightarrow> string \<Rightarrow> bool" where
  "manifest_pinned read path \<longleftrightarrow> (\<exists>content. read path = Inr content \<and>
     (\<forall>ref \<in> set (manifest_images content). starts_with ''fleetpulse-'' ref \<or> pinned ref))"

lemma tool_image_contract_Inr: "tool_image_contract read = Inr u \<Longrightarrow> tools_pinned read"
  by (auto simp: tool_image_contract_def tools_pinned_def res_bind_eq_Inr require_Inr each_Inr digest_ref_iff split: prod.splits)

lemma check_dockerfile_Inr: "check_dockerfile read path = Inr u \<Longrightarrow> base_pinned read path"
  by (auto simp: check_dockerfile_def base_pinned_def res_bind_eq_Inr require_Inr py_index_Inr digest_ref_iff)

lemma check_service_Inr: "check_service service = Inr u \<Longrightarrow> service_pinned (snd service)"
  by (auto simp: check_service_def service_pinned_def res_bind_eq_Inr require_Inr dict_get_Inr digest_ref_iff
      split: if_splits jval.splits)

lemma check_manifest_Inr: "check_manifest read path = Inr u \<Longrightarrow> manifest_pinned read path"
  by (auto simp: check_manifest_def manifest_pinned_def res_bind_eq_Inr require_Inr each_Inr digest_ref_iff split: if_splits)


text \<open>A repository that passes.\<close>

definition example_digest :: string where
  "example_digest = ''@sha256:'' @ replicate 64 (CHR ''a'')"

definition example_read :: "string \<Rightarrow> string res" where
  "example_read path =
     (if path = ''security/tool-images.env'' then Inr (join_with [CHR 0x0A] (map (\<lambda>n. n @ ''=x'' @ example_digest) tool_names))
      else if path \<in> set dockerfiles then Inr (''FROM x'' @ example_digest)
      else if path = ''api.yaml'' then Inr (join_with [CHR 0x0A] [''spec:'', ''  image: fleetpulse-api'', ''  image: x'' @ example_digest])
      else Inr path)"

definition example_load :: "string \<Rightarrow> jval res" where
  "example_load path = Inr
     (if path = ''compose.yaml'' then JObj [(''services'', JObj [(''redis'', JObj [(''image'', JStr (''redis'' @ example_digest))])])]
      else JObj [(''permissions'', JObj [(''contents'', JStr ''read'')]),
        (''jobs'', JObj (map (\<lambda>j. (j, JObj [(''timeout-minutes'', JInt 10), (''steps'', JList [JObj [(''run'', JStr ''make'')],
           JObj [(''uses'', JStr (''actions/checkout@'' @ replicate 40 (CHR ''a'')))]])])) REQUIRED_JOBS))])"

lemma example_workflow: "workflow_contract (\<lambda>_. []) example_load example_read = Inr ()"
  by code_simp

lemma example_tools: "tool_image_contract example_read = Inr ()"
  by code_simp

lemma example_line:
  "splitlines (''FROM x'' @ example_digest) = [''FROM x'' @ example_digest]"
  "split_words (''FROM x'' @ example_digest) = [''FROM'', ''x'' @ example_digest]"
  "digest_ref (''x'' @ example_digest)"
  by code_simp+

lemma example_docker: "path \<in> set dockerfiles \<Longrightarrow> check_dockerfile example_read path = Inr ()"
  using example_line by (auto simp: check_dockerfile_def example_read_def dockerfiles_def res_bind_eq_Inr py_index_Inr require_Inr)

lemma example_manifest: "check_manifest example_read ''api.yaml'' = Inr ()"
  by code_simp

lemma example_service: "check_service (''redis'', JObj [(''image'', JStr (''redis'' @ example_digest))]) = Inr ()"
  by code_simp

lemma example_passes: "ci_main (\<lambda>_. []) example_load example_read [''api.yaml''] = Inr 0"
proof -
  have "each (check_dockerfile example_read) dockerfiles = Inr ()" by (simp add: each_Inr example_docker)
  then show ?thesis
    by (simp add: ci_main_def example_workflow example_tools runtime_image_contract_def example_manifest example_service[simplified] subscript_def
        dict_items_def example_read_def[of "''compose.yaml''"] example_load_def dockerfiles_def)
qed



lemma images_from_rest: "CHR 0x0A \<notin> set s \<Longrightarrow> images_from False s = []"
  by (induction s) auto

lemma no_image_here: "image_here s = None \<Longrightarrow> CHR 0x0A \<notin> set s \<Longrightarrow> manifest_images s = []"
  by (cases s) (auto simp: manifest_images_def images_from_rest)

text \<open>
  An image given on the first line of a list item is not seen: whatever reference stands after
  \<open>- image:\<close>, pinned or not, the manifest passes, because the pattern wants only white space before
  \<open>image:\<close>.
\<close>

theorem list_item_images_unchecked:
  assumes "read path = Inr (indent @ ''- image: '' @ ref)" and "list_all is_space indent"
    and "CHR 0x0A \<notin> set indent" and "CHR 0x0A \<notin> set ref"
  shows "check_manifest read path = Inr ()"
proof -
  let ?line = "indent @ ''- image: '' @ ref"
  have "dropWhile is_space ?line = ''- image: '' @ ref"
    using assms(2) by (induction indent) (auto simp: is_space_def)
  then have "image_here ?line = None" by (simp add: image_here_def starts_with_def)
  moreover have "CHR 0x0A \<notin> set ?line" using assms(3,4) by simp
  ultimately have "manifest_images ?line = []" by (rule no_image_here)
  with assms(1) show ?thesis by (simp add: check_manifest_def)
qed

theorem list_item_images_unchecked_witness:
  "check_manifest (\<lambda>_. Inr (''      '' @ ''- image: '' @ ''redis:latest'')) ''data.yaml'' = Inr () \<and> \<not> digest_ref ''redis:latest''"
proof
  show "check_manifest (\<lambda>_. Inr (''      '' @ ''- image: '' @ ''redis:latest'')) ''data.yaml'' = Inr ()"
    by (rule list_item_images_unchecked[where indent = "''      ''" and ref = "''redis:latest''"]) (rule refl, code_simp+)
  show "\<not> digest_ref ''redis:latest''" by code_simp
qed

end
