(* ===== verification/Cluster.thy ===== *)
theory Cluster
  imports Python
begin

text \<open>
  The Kubernetes contract of \<open>tools/kubernetes_contract.py\<close>: what it requires of the rendered
  documents of an overlay. The rendered documents (\<open>kubectl kustomize\<close> read by
  \<open>yaml.safe_load_all\<close>), the text \<open>yaml.safe_dump_all\<close> gives and \<open>str\<close> of a value are
  arguments, and so is the order in which the set of private services is visited.
\<close>

section \<open>Documents\<close>

definition OVERLAYS :: "string list" where
  "OVERLAYS = [''kind'', ''k3d'']"

definition REQUIRED_DEPLOYMENTS :: "string list" where
  "REQUIRED_DEPLOYMENTS = [''api'', ''worker'', ''outbox-relay'', ''nginx'', ''prometheus'', ''alertmanager'', ''grafana'']"

definition PRIVATE_SERVICES :: "string list" where
  "PRIVATE_SERVICES = [''postgres'', ''redis'', ''prometheus'', ''alertmanager'', ''grafana'']"

text \<open>\<open>value[k1][k2]...\<close> and \<open>any\<close>, which stops at the first hit.\<close>

fun subscripts :: "jval \<Rightarrow> string list \<Rightarrow> jval res" where
  "subscripts v [] = Inr v"
| "subscripts v (k # ks) = res_bind (subscript v k) (\<lambda>x. subscripts x ks)"

fun any_res :: "('a \<Rightarrow> bool res) \<Rightarrow> 'a list \<Rightarrow> bool res" where
  "any_res f [] = Inr False"
| "any_res f (x # xs) = res_bind (f x) (\<lambda>b. if b then Inr True else any_res f xs)"

definition has_kind :: "string \<Rightarrow> jval \<Rightarrow> bool res" where
  "has_kind k item = res_bind (subscript item ''kind'') (\<lambda>v. Inr (v = JStr k))"

definition render :: "(string \<Rightarrow> jval list res) \<Rightarrow> string \<Rightarrow> jval list res" where
  "render kustomize overlay = res_bind (kustomize overlay) (\<lambda>docs. Inr (filter jtruthy docs))"

section \<open>Workloads\<close>

definition check_container :: "string \<Rightarrow> jval \<Rightarrow> unit res" where
  "check_container label container =
     res_bind (dict_get container ''resources'' (JObj [])) (\<lambda>resources.
     res_bind (dict_get resources ''requests'' JNull) (\<lambda>requests.
     res_bind (require (jtruthy requests) (label @ '' lacks resource requests'')) (\<lambda>_.
     res_bind (dict_get resources ''limits'' JNull) (\<lambda>limits.
     res_bind (require (jtruthy limits) (label @ '' lacks resource limits'')) (\<lambda>_.
     res_bind (dict_get container ''readinessProbe'' JNull) (\<lambda>readiness.
     res_bind (require (jtruthy readiness) (label @ '' lacks a readiness probe'')) (\<lambda>_.
     res_bind (dict_get container ''livenessProbe'' JNull) (\<lambda>liveness.
     require (jtruthy liveness) (label @ '' lacks a liveness probe'')))))))))"

definition check_init_container :: "string \<Rightarrow> jval \<Rightarrow> unit res" where
  "check_init_container label container =
     res_bind (dict_get container ''resources'' (JObj [])) (\<lambda>resources.
     res_bind (dict_get resources ''requests'' JNull) (\<lambda>requests.
     res_bind (require (jtruthy requests) (label @ '' init container lacks requests'')) (\<lambda>_.
     res_bind (dict_get resources ''limits'' JNull) (\<lambda>limits.
     require (jtruthy limits) (label @ '' init container lacks limits'')))))"

definition rolling_names :: "string list" where
  "rolling_names = [''api'', ''worker'', ''outbox-relay'', ''nginx'']"

definition check_strategy :: "(jval \<Rightarrow> string) \<Rightarrow> jval \<Rightarrow> jval \<Rightarrow> jval \<Rightarrow> unit res" where
  "check_strategy py_str document kind name =
     (if kind \<noteq> JStr ''Deployment'' then Inr ()
      else res_bind (in_names name rolling_names) (\<lambda>rolling.
        if \<not> rolling then Inr ()
        else
          res_bind (subscript document ''spec'') (\<lambda>spec.
          res_bind (dict_get spec ''strategy'' (JObj [])) (\<lambda>strategy.
          res_bind (dict_get strategy ''type'' JNull) (\<lambda>t.
          require (t = JStr ''RollingUpdate'') (''Deployment/'' @ py_str name @ '' must use RollingUpdate''))))))"

definition check_workload :: "(jval \<Rightarrow> string) \<Rightarrow> jval \<Rightarrow> unit res" where
  "check_workload py_str document =
     res_bind (subscript document ''kind'') (\<lambda>kind.
     res_bind (subscripts document [''metadata'', ''name'']) (\<lambda>name.
     res_bind (subscripts document [''spec'', ''template'', ''spec'']) (\<lambda>pod_spec.
     let label = py_str kind @ ''/'' @ py_str name in
     res_bind (subscript pod_spec ''containers'') (\<lambda>cs.
     res_bind (iterate cs) (\<lambda>containers.
     res_bind (each (check_container label) containers) (\<lambda>_.
     res_bind (dict_get pod_spec ''initContainers'' (JList [])) (\<lambda>ics.
     res_bind (iterate ics) (\<lambda>inits.
     res_bind (each (check_init_container label) inits) (\<lambda>_.
     check_strategy py_str document kind name)))))))))"

section \<open>An overlay\<close>

text \<open>
  \<open>{item["metadata"]["name"] ... if item["kind"] == k}\<close> as a set (its elements) and as a dict from
  the name to the item, where a later item of the same name replaces an earlier one.
\<close>

definition name_key :: "jval \<Rightarrow> jval res" where
  "name_key item = res_bind (subscripts item [''metadata'', ''name'']) (\<lambda>n. if hashable n then Inr n else Inl TypeError)"

fun named_items :: "string \<Rightarrow> jval list \<Rightarrow> (jval \<times> jval) list \<Rightarrow> (jval \<times> jval) list res" where
  "named_items k [] d = Inr d"
| "named_items k (item # items) d =
     res_bind (has_kind k item) (\<lambda>b.
     if b then res_bind (name_key item) (\<lambda>n. named_items k items (AList.update n item d))
     else named_items k items d)"

definition item_named :: "(jval \<times> jval) list \<Rightarrow> string \<Rightarrow> jval res" where
  "item_named d n = res_of (KeyError n) (map_of d (JStr n))"

definition is_agent_daemon :: "jval \<Rightarrow> bool res" where
  "is_agent_daemon item =
     res_bind (has_kind ''DaemonSet'' item) (\<lambda>b.
     if \<not> b then Inr False
     else res_bind (subscripts item [''metadata'', ''name'']) (\<lambda>n. Inr (n = JStr ''agent'')))"

definition check_item :: "(jval \<Rightarrow> string) \<Rightarrow> jval \<Rightarrow> unit res" where
  "check_item py_str item =
     res_bind (subscript item ''kind'') (\<lambda>kind.
     res_bind (in_names kind [''Deployment'', ''DaemonSet'', ''StatefulSet'']) (\<lambda>workload.
     if workload then check_workload py_str item else Inr ()))"

definition check_private :: "(jval \<times> jval) list \<Rightarrow> string \<Rightarrow> unit res" where
  "check_private services name =
     res_bind (item_named services name) (\<lambda>item.
     res_bind (subscript item ''spec'') (\<lambda>spec.
     res_bind (dict_get spec ''type'' (JStr ''ClusterIP'')) (\<lambda>t.
     require (t = JStr ''ClusterIP'') (''Service/'' @ name @ '' must remain ClusterIP''))))"

definition check_nginx :: "(jval \<times> jval) list \<Rightarrow> unit res" where
  "check_nginx services =
     res_bind (item_named services ''nginx'') (\<lambda>item.
     res_bind (subscript item ''spec'') (\<lambda>spec.
     res_bind (dict_get spec ''type'' JNull) (\<lambda>t.
     require (t = JStr ''NodePort'') ''Nginx must be local NodePort'')))"

definition check_policies :: "(jval \<times> jval) list \<Rightarrow> unit res" where
  "check_policies policies =
     res_bind (require (JStr ''default-deny'' \<in> fst ` set policies) ''default-deny NetworkPolicy is required'') (\<lambda>_.
     res_bind (item_named policies ''default-deny'') (\<lambda>item.
     res_bind (subscripts item [''spec'', ''podSelector'']) (\<lambda>selector.
     require (selector = JObj []) ''default-deny must select all pods'')))"

definition check_overlay ::
    "(jval \<Rightarrow> string) \<Rightarrow> (string \<Rightarrow> jval list res) \<Rightarrow> (jval list \<Rightarrow> string) \<Rightarrow> string list \<Rightarrow> string \<Rightarrow> unit res" where
  "check_overlay py_str kustomize dump_all order overlay =
     res_bind (render kustomize overlay) (\<lambda>documents.
     res_bind (any_res (has_kind ''Secret'') documents) (\<lambda>secret.
     res_bind (require (\<not> secret) ''rendered secrets forbidden'') (\<lambda>_.
     res_bind (named_items ''Deployment'' documents []) (\<lambda>deployments.
     res_bind (require (JStr ` set REQUIRED_DEPLOYMENTS \<subseteq> fst ` set deployments) (overlay @ '' is missing deployments'')) (\<lambda>_.
     res_bind (any_res is_agent_daemon documents) (\<lambda>agent.
     res_bind (require agent (overlay @ '' is missing the agent DaemonSet'')) (\<lambda>_.
     res_bind (each (check_item py_str) documents) (\<lambda>_.
     res_bind (named_items ''Service'' documents []) (\<lambda>services.
     res_bind (check_nginx services) (\<lambda>_.
     res_bind (each (check_private services) order) (\<lambda>_.
     res_bind (named_items ''NetworkPolicy'' documents []) (\<lambda>policies.
     res_bind (check_policies policies) (\<lambda>_.
     let serialized = dump_all documents in
     res_bind (require (contains ''fleetpulse-runtime'' serialized) ''runtime secret reference is required'') (\<lambda>_.
     require (contains ''fleetpulse-tls'' serialized) ''TLS secret reference is required''))))))))))))))"

definition cluster_main ::
    "(jval \<Rightarrow> string) \<Rightarrow> (string \<Rightarrow> jval list res) \<Rightarrow> (jval list \<Rightarrow> string) \<Rightarrow> string list \<Rightarrow> int res" where
  "cluster_main py_str kustomize dump_all order =
     res_bind (each (check_overlay py_str kustomize dump_all order) OVERLAYS) (\<lambda>_. Inr 0)"

section \<open>What a passing overlay guarantees\<close>

definition truthy_at :: "(string \<times> jval) list \<Rightarrow> string \<Rightarrow> bool" where
  "truthy_at m k \<longleftrightarrow> (\<exists>v. map_of m k = Some v \<and> jtruthy v)"

definition bounded :: "jval \<Rightarrow> bool" where
  "bounded container \<longleftrightarrow> (\<exists>m r. container = JObj m \<and> map_of m ''resources'' = Some (JObj r) \<and>
     truthy_at r ''requests'' \<and> truthy_at r ''limits'')"

definition probed :: "jval \<Rightarrow> bool" where
  "probed container \<longleftrightarrow> (\<exists>m. container = JObj m \<and> truthy_at m ''readinessProbe'' \<and> truthy_at m ''livenessProbe'')"

text \<open>What a document says of itself, and the pod a workload starts.\<close>

definition says :: "jval \<Rightarrow> string \<Rightarrow> jval \<Rightarrow> bool" where
  "says document kind name \<longleftrightarrow> subscript document ''kind'' = Inr (JStr kind) \<and> subscripts document [''metadata'', ''name''] = Inr name"

definition pod_checked :: "jval \<Rightarrow> bool" where
  "pod_checked document \<longleftrightarrow> (\<exists>pod cs containers. subscripts document [''spec'', ''template'', ''spec''] = Inr (JObj pod) \<and>
     map_of pod ''containers'' = Some cs \<and> iterate cs = Inr containers \<and> (\<forall>c \<in> set containers. bounded c \<and> probed c) \<and>
     (\<forall>v. map_of pod ''initContainers'' = Some v \<longrightarrow> (\<exists>inits. iterate v = Inr inits \<and> (\<forall>c \<in> set inits. bounded c))))"

lemma check_container_Inr: "check_container label c = Inr u \<Longrightarrow> bounded c \<and> probed c"
  by (auto simp: check_container_def bounded_def probed_def truthy_at_def res_bind_eq_Inr require_Inr dict_get_Inr)

lemma check_init_container_Inr: "check_init_container label c = Inr u \<Longrightarrow> bounded c"
  by (auto simp: check_init_container_def bounded_def truthy_at_def res_bind_eq_Inr require_Inr dict_get_Inr)

lemma check_workload_Inr: "check_workload py_str d = Inr u \<Longrightarrow> pod_checked d"
  by (fastforce simp: check_workload_def pod_checked_def Let_def res_bind_eq_Inr subscript_Inr dict_get_Inr each_Inr iterate_def
      dest: check_container_Inr check_init_container_Inr)

lemma named_items_from:
  "named_items k items d = Inr d' \<Longrightarrow> map_of d' n = Some item \<Longrightarrow>
     map_of d n = Some item \<or> (item \<in> set items \<and> says item k n)"
  by (induction items arbitrary: d)
    (fastforce simp: res_bind_eq_Inr has_kind_def name_key_def says_def update_conv' split: if_splits)+

lemma any_res_False: "any_res f xs = Inr False \<Longrightarrow> x \<in> set xs \<Longrightarrow> f x = Inr False"
  by (induction xs) (auto simp: res_bind_eq_Inr split: if_splits)

lemma any_res_True: "any_res f xs = Inr True \<Longrightarrow> \<exists>x \<in> set xs. f x = Inr True"
  by (induction xs) (auto simp: res_bind_eq_Inr split: if_splits)

lemma named_items_says:
  "named_items k items [] = Inr d \<Longrightarrow> n \<in> fst ` set d \<Longrightarrow> \<exists>item \<in> set items. says item k n"
  by (metis domIff dom_map_of_conv_image_fst map_of.simps(1) named_items_from option.distinct(1) option.exhaust)

definition typed :: "string \<Rightarrow> jval \<Rightarrow> bool" where
  "typed t service \<longleftrightarrow> (\<exists>spec. subscript service ''spec'' = Inr (JObj spec) \<and> map_of spec ''type'' = Some (JStr t))"

definition untyped :: "jval \<Rightarrow> bool" where
  "untyped service \<longleftrightarrow> (\<exists>spec. subscript service ''spec'' = Inr (JObj spec) \<and> map_of spec ''type'' = None)"

text \<open>The guarantees on the documents of an overlay.\<close>

definition no_secret :: "jval list \<Rightarrow> bool" where
  "no_secret docs \<longleftrightarrow> (\<forall>d \<in> set docs. subscript d ''kind'' \<noteq> Inr (JStr ''Secret''))"

definition deployed :: "jval list \<Rightarrow> bool" where
  "deployed docs \<longleftrightarrow> (\<forall>n \<in> set REQUIRED_DEPLOYMENTS. \<exists>d \<in> set docs. says d ''Deployment'' (JStr n)) \<and>
     (\<exists>d \<in> set docs. says d ''DaemonSet'' (JStr ''agent''))"

definition workloads_checked :: "jval list \<Rightarrow> bool" where
  "workloads_checked docs \<longleftrightarrow> (\<forall>d \<in> set docs. \<forall>kind \<in> {''Deployment'', ''DaemonSet'', ''StatefulSet''}.
     subscript d ''kind'' = Inr (JStr kind) \<longrightarrow> pod_checked d)"

definition services_closed :: "string list \<Rightarrow> jval list \<Rightarrow> bool" where
  "services_closed order docs \<longleftrightarrow> (\<exists>d \<in> set docs. says d ''Service'' (JStr ''nginx'') \<and> typed ''NodePort'' d) \<and>
     (\<forall>n \<in> set order. \<exists>d \<in> set docs. says d ''Service'' (JStr n) \<and> (typed ''ClusterIP'' d \<or> untyped d))"

definition denies_by_default :: "jval list \<Rightarrow> bool" where
  "denies_by_default docs \<longleftrightarrow> (\<exists>d \<in> set docs. says d ''NetworkPolicy'' (JStr ''default-deny'') \<and>
     subscripts d [''spec'', ''podSelector''] = Inr (JObj []))"

lemma item_named_from: "named_items k docs [] = Inr d \<Longrightarrow> item_named d n = Inr item \<Longrightarrow> item \<in> set docs \<and> says item k (JStr n)"
  by (cases "map_of d (JStr n)") (auto simp: item_named_def dest: named_items_from)

lemma is_agent_daemon_says: "is_agent_daemon d = Inr True \<Longrightarrow> says d ''DaemonSet'' (JStr ''agent'')"
  by (auto simp: is_agent_daemon_def has_kind_def says_def res_bind_eq_Inr split: if_splits)

lemma overlay_guarantees:
  assumes "check_overlay py_str kustomize dump_all order overlay = Inr ()"
  shows "\<exists>docs. render kustomize overlay = Inr docs \<and> no_secret docs \<and> deployed docs \<and> workloads_checked docs \<and>
    services_closed order docs \<and> denies_by_default docs"
proof -
  from assms obtain docs deployments services policies
    where docs: "render kustomize overlay = Inr docs" and secret: "any_res (has_kind ''Secret'') docs = Inr False"
      and deployments: "named_items ''Deployment'' docs [] = Inr deployments" "JStr ` set REQUIRED_DEPLOYMENTS \<subseteq> fst ` set deployments"
      and agent: "any_res is_agent_daemon docs = Inr True" and items: "\<forall>d \<in> set docs. check_item py_str d = Inr ()"
      and services: "named_items ''Service'' docs [] = Inr services" "check_nginx services = Inr ()"
        "\<forall>n \<in> set order. check_private services n = Inr ()"
      and policies: "named_items ''NetworkPolicy'' docs [] = Inr policies" "check_policies policies = Inr ()"
    by (auto simp: check_overlay_def Let_def res_bind_eq_Inr require_Inr each_Inr)
  have "no_secret docs"
    using any_res_False[OF secret] by (fastforce simp: no_secret_def has_kind_def res_bind_eq_Inr)
  moreover have "deployed docs"
    using named_items_says[OF deployments(1)] deployments(2) any_res_True[OF agent] is_agent_daemon_says
    unfolding deployed_def by blast
  moreover have "workloads_checked docs"
    using items by (fastforce simp: workloads_checked_def check_item_def res_bind_eq_Inr in_names_def hashable_def
        split: if_splits dest: check_workload_Inr)
  moreover have "services_closed order docs"
    using services(2,3) by (fastforce simp: services_closed_def check_nginx_def check_private_def typed_def untyped_def res_bind_eq_Inr
        require_Inr dict_get_Inr dest: item_named_from[OF services(1)])
  moreover have "denies_by_default docs"
    using policies(2) by (fastforce simp: denies_by_default_def check_policies_def res_bind_eq_Inr require_Inr
        dest: item_named_from[OF policies(1)])
  ultimately show ?thesis using docs by blast
qed

text \<open>An overlay that passes: one container everywhere.\<close>

definition example_pod :: jval where
  "example_pod = (let full = JObj [(''cpu'', JStr ''1'')]; probe = JObj [(''period'', JInt 5)] in
     JObj [(''template'', JObj [(''spec'', JObj [(''containers'', JList [JObj
       [(''resources'', JObj [(''requests'', full), (''limits'', full)]), (''readinessProbe'', probe), (''livenessProbe'', probe)]])])]),
       (''strategy'', JObj [(''type'', JStr ''RollingUpdate'')])])"

definition example_document :: "string \<Rightarrow> string \<Rightarrow> jval \<Rightarrow> jval" where
  "example_document kind name spec = JObj [(''kind'', JStr kind), (''metadata'', JObj [(''name'', JStr name)]), (''spec'', spec)]"

definition example_documents :: "jval list" where
  "example_documents = JNull # map (\<lambda>n. example_document ''Deployment'' n example_pod) REQUIRED_DEPLOYMENTS @
     example_document ''DaemonSet'' ''agent'' example_pod # example_document ''Service'' ''nginx'' (JObj [(''type'', JStr ''NodePort'')]) #
     map (\<lambda>n. example_document ''Service'' n (JObj [(''port'', JInt 80)])) PRIVATE_SERVICES @
     [example_document ''NetworkPolicy'' ''default-deny'' (JObj [(''podSelector'', JObj [])])]"

lemma example_overlay:
  "check_overlay (\<lambda>_. []) (\<lambda>_. Inr example_documents) (\<lambda>_. ''fleetpulse-runtime fleetpulse-tls'') PRIVATE_SERVICES ''kind'' = Inr ()"
  "check_overlay (\<lambda>_. []) (\<lambda>_. Inr example_documents) (\<lambda>_. ''fleetpulse-runtime fleetpulse-tls'') PRIVATE_SERVICES ''k3d'' = Inr ()"
  by code_simp+



end
