(* ===== verification/Sbom.thy ===== *)
theory Sbom
  imports Python
begin

text \<open>
  The supply-chain report of \<open>tools/supply_chain_report.py\<close>: component and vulnerability counts of
  every application image from its CycloneDX and Trivy reports, and the exit status that gates on a
  fixable finding. The directory is what reading one of its files gives.
\<close>

definition IMAGE_NAMES :: "string list" where
  "IMAGE_NAMES = [''api'', ''worker'', ''outbox-relay'', ''agent'', ''assistant'']"

definition load_json :: "(string \<Rightarrow> string res) \<Rightarrow> string \<Rightarrow> jval res" where
  "load_json read path =
     res_bind (read path) (\<lambda>text.
     res_bind (res_of JSONDecodeError (loads text)) (\<lambda>value.
     case value of JObj _ \<Rightarrow> Inr value | _ \<Rightarrow> Inl (ValueError (''expected JSON object: '' @ path))))"

text \<open>\<open>sum(test(item) for item in items)\<close> and \<open>len(value)\<close>.\<close>

fun count_res :: "('a \<Rightarrow> bool res) \<Rightarrow> 'a list \<Rightarrow> nat res" where
  "count_res f [] = Inr 0"
| "count_res f (x # xs) = res_bind (f x) (\<lambda>b. res_bind (count_res f xs) (\<lambda>n. Inr ((if b then 1 else 0) + n)))"

definition py_len :: "jval \<Rightarrow> nat res" where
  "py_len v = (case v of
     JList xs \<Rightarrow> Inr (length xs) | JStr s \<Rightarrow> Inr (length s) | JObj m \<Rightarrow> Inr (length m) | _ \<Rightarrow> Inl TypeError)"

record image_counts =
  components_total :: nat
  file_components :: nat
  package_components :: nat
  high :: nat
  critical :: nat
  fixable :: nat

definition result_vulnerabilities :: "jval \<Rightarrow> jval list res" where
  "result_vulnerabilities result =
     res_bind (dict_get result ''Vulnerabilities'' JNull) (\<lambda>v. if jtruthy v then iterate v else Inr [])"

definition vulnerabilities_of :: "jval \<Rightarrow> jval list res" where
  "vulnerabilities_of trivy =
     res_bind (dict_get trivy ''Results'' (JList [])) (\<lambda>results.
     res_bind (iterate results) (\<lambda>rs.
     res_bind (map_res result_vulnerabilities rs) (\<lambda>vs. Inr (concat vs))))"

definition severity_is :: "string \<Rightarrow> jval \<Rightarrow> bool res" where
  "severity_is s item = res_bind (dict_get item ''Severity'' JNull) (\<lambda>v. Inr (v = JStr s))"

definition has_fix :: "jval \<Rightarrow> bool res" where
  "has_fix item = res_bind (dict_get item ''FixedVersion'' JNull) (\<lambda>v. Inr (jtruthy v))"

definition is_file_component :: "jval \<Rightarrow> bool res" where
  "is_file_component item = res_bind (dict_get item ''type'' JNull) (\<lambda>v. Inr (v = JStr ''file''))"

definition is_package_component :: "jval \<Rightarrow> bool res" where
  "is_package_component item = res_bind (dict_get item ''type'' JNull) (\<lambda>v. Inr (v \<noteq> JStr ''file''))"

definition image_summary :: "(string \<Rightarrow> string res) \<Rightarrow> string \<Rightarrow> image_counts res" where
  "image_summary read name =
     res_bind (load_json read (name @ ''.cdx.json'')) (\<lambda>sbom.
     res_bind (load_json read (name @ ''.trivy.json'')) (\<lambda>trivy.
     res_bind (vulnerabilities_of trivy) (\<lambda>vulnerabilities.
     res_bind (count_res (severity_is ''HIGH'') vulnerabilities) (\<lambda>h.
     res_bind (count_res (severity_is ''CRITICAL'') vulnerabilities) (\<lambda>c.
     res_bind (count_res has_fix vulnerabilities) (\<lambda>f.
     res_bind (dict_get sbom ''components'' (JList [])) (\<lambda>components.
     res_bind (py_len components) (\<lambda>n.
     res_bind (iterate components) (\<lambda>items.
     res_bind (count_res is_file_component items) (\<lambda>files.
     res_bind (count_res is_package_component items) (\<lambda>packages.
     Inr \<lparr>components_total = n, file_components = files, package_components = packages, high = h, critical = c,
          fixable = f\<rparr>)))))))))))"

definition total :: "(image_counts \<Rightarrow> nat) \<Rightarrow> (string \<times> image_counts) list \<Rightarrow> nat" where
  "total f images = sum_list (map (\<lambda>x. f (snd x)) images)"

record report =
  report_images :: "(string \<times> image_counts) list"
  report_totals :: image_counts

definition summarize :: "(string \<Rightarrow> string res) \<Rightarrow> report res" where
  "summarize read =
     res_bind (map_res (\<lambda>name. res_bind (image_summary read name) (\<lambda>c. Inr (name, c))) IMAGE_NAMES) (\<lambda>images.
     Inr \<lparr>report_images = images,
          report_totals = \<lparr>components_total = total components_total images, file_components = total file_components images,
            package_components = total package_components images, high = total high images,
            critical = total critical images, fixable = total fixable images\<rparr>\<rparr>)"

definition counts_value :: "image_counts \<Rightarrow> jval" where
  "counts_value c = JObj
     [(''components_total'', JInt (int (components_total c))), (''file_components'', JInt (int (file_components c))),
      (''package_components'', JInt (int (package_components c))), (''high'', JInt (int (high c))),
      (''critical'', JInt (int (critical c))), (''fixable_high_or_critical'', JInt (int (fixable c)))]"

definition report_value :: "report \<Rightarrow> jval" where
  "report_value r = JObj
     [(''policy'', JStr ''Report all HIGH/CRITICAL findings and fail the gate when any has an upstream fix.''),
      (''images'', JObj (map (\<lambda>(n, c). (n, counts_value c)) (report_images r))),
      (''totals'', counts_value (report_totals r))]"

text \<open>\<open>main\<close>: the exit status and the rendered summary.\<close>

definition report_main :: "(pyfloat \<Rightarrow> string) \<Rightarrow> (string \<Rightarrow> string res) \<Rightarrow> (int \<times> string) res" where
  "report_main fr read =
     res_bind (summarize read) (\<lambda>summary.
     Inr (if fixable (report_totals summary) \<noteq> 0 then 1 else 0, pretty fr (report_value summary) 0 @ [CHR 0x0A]))"

section \<open>What the report says\<close>

lemma count_res_filter: "count_res f xs = Inr n \<Longrightarrow> n = length (filter (\<lambda>x. f x = Inr True) xs)"
  by (induction xs arbitrary: n) (auto simp: res_bind_eq_Inr)

lemma count_res_zero: "count_res f xs = Inr n \<Longrightarrow> n = 0 \<longleftrightarrow> (\<forall>x \<in> set xs. f x = Inr False)"
  by (induction xs arbitrary: n) (auto simp: res_bind_eq_Inr)

lemma count_file_package:
  "count_res is_file_component xs = Inr n \<Longrightarrow> count_res is_package_component xs = Inr k \<Longrightarrow>
     n + k = length xs \<and> (\<forall>x \<in> set xs. \<exists>m. x = JObj m)"
  by (induction xs arbitrary: n k)
    (auto simp: res_bind_eq_Inr is_file_component_def is_package_component_def dict_get_Inr split: if_splits)

lemma len_iterate: "py_len v = Inr n \<Longrightarrow> iterate v = Inr xs \<Longrightarrow> n = length xs"
  by (auto simp: py_len_def iterate_def split: jval.splits)

lemma image_summary_Inr:
  assumes "image_summary read name = Inr c"
  shows "file_components c + package_components c = components_total c"
    and "\<exists>trivy vs. load_json read (name @ ''.trivy.json'') = Inr trivy \<and> vulnerabilities_of trivy = Inr vs \<and>
      (fixable c = 0 \<longleftrightarrow> (\<forall>v \<in> set vs. has_fix v = Inr False)) \<and> fixable c = length (filter (\<lambda>v. has_fix v = Inr True) vs)"
proof -
  from assms obtain sbom trivy vs h k f components n items fs ps
    where trivy: "load_json read (name @ ''.trivy.json'') = Inr trivy" "vulnerabilities_of trivy = Inr vs" "count_res has_fix vs = Inr f"
      and items: "py_len components = Inr n" "iterate components = Inr items" "count_res is_file_component items = Inr fs"
        "count_res is_package_component items = Inr ps"
      and c: "c = \<lparr>components_total = n, file_components = fs, package_components = ps, high = h, critical = k, fixable = f\<rparr>"
    by (auto simp: image_summary_def res_bind_eq_Inr)
  show "file_components c + package_components c = components_total c"
    using count_file_package[OF items(3,4)] len_iterate[OF items(1,2)] by (simp add: c)
  show "\<exists>trivy vs. load_json read (name @ ''.trivy.json'') = Inr trivy \<and> vulnerabilities_of trivy = Inr vs \<and>
      (fixable c = 0 \<longleftrightarrow> (\<forall>v \<in> set vs. has_fix v = Inr False)) \<and> fixable c = length (filter (\<lambda>v. has_fix v = Inr True) vs)"
    using trivy count_res_zero[OF trivy(3)] count_res_filter[OF trivy(3)] by (auto simp: c)
qed

lemma summarize_images:
  assumes "summarize read = Inr s"
  shows "list_all2 (\<lambda>name x. fst x = name \<and> image_summary read name = Inr (snd x)) IMAGE_NAMES (report_images s)"
  using assms by (auto simp: summarize_def res_bind_eq_Inr map_res_Inr elim!: list_all2_mono)

text \<open>A directory of reports: one file, one library, and one LOW finding that has a fix.\<close>

definition example_sbom :: jval where
  "example_sbom = JObj [(''components'', JList [JObj [(''type'', JStr ''file'')], JObj [(''type'', JStr ''library'')]])]"

definition example_trivy :: jval where
  "example_trivy = JObj [(''Results'', JList [JObj [(''Vulnerabilities'', JList
     [JObj [(''Severity'', JStr ''LOW''), (''FixedVersion'', JStr ''2'')]])], JObj [(''Vulnerabilities'', JNull)]])]"

definition example_reports :: "string \<Rightarrow> string res" where
  "example_reports path = Inr (dumps (\<lambda>_. []) compact (if take 9 (rev path) = rev ''.cdx.json'' then example_sbom else example_trivy))"

definition example_counts :: image_counts where
  "example_counts = \<lparr>components_total = 2, file_components = 1, package_components = 1, high = 0, critical = 0, fixable = 1\<rparr>"

lemma example_loads: "loads (dumps (\<lambda>_. []) compact example_sbom) = Some example_sbom"
  by (rule loads_dumps) (simp_all add: example_sbom_def ok_sep_def)

lemma example_loads_trivy: "loads (dumps (\<lambda>_. []) compact example_trivy) = Some example_trivy"
  by (rule loads_dumps) (simp_all add: example_trivy_def ok_sep_def)

lemma example_load_json:
  "load_json example_reports (name @ ''.cdx.json'') = Inr example_sbom"
  "load_json example_reports (name @ ''.trivy.json'') = Inr example_trivy"
  by (simp_all add: load_json_def example_reports_def example_loads example_loads_trivy) (simp_all add: example_sbom_def example_trivy_def)

lemma example_summary: "image_summary example_reports name = Inr example_counts"
proof -
  have "vulnerabilities_of example_trivy = Inr [JObj [(''Severity'', JStr ''LOW''), (''FixedVersion'', JStr ''2'')]]"
    by (simp add: example_trivy_def vulnerabilities_of_def result_vulnerabilities_def dict_get_def iterate_def)
  then show ?thesis
    by (simp add: image_summary_def example_load_json severity_is_def has_fix_def dict_get_def example_sbom_def py_len_def iterate_def
        is_file_component_def is_package_component_def example_counts_def)
qed

lemma example_summarize: "\<exists>s. summarize example_reports = Inr s \<and> report_images s = map (\<lambda>name. (name, example_counts)) IMAGE_NAMES"
  by (simp add: summarize_def example_summary IMAGE_NAMES_def)

text \<open>
  The totals are the sums over the five images, in the inventory's order, of what is counted for each; and
  every component is counted once, as a file or as a package, for each image and in the totals.
\<close>

theorem report_adds_up:
  assumes "summarize read = Inr s"
  shows "map fst (report_images s) = IMAGE_NAMES \<and>
    (\<forall>c \<in> insert (report_totals s) (snd ` set (report_images s)). file_components c + package_components c = components_total c) \<and>
    (\<forall>f \<in> {components_total, file_components, package_components, high, critical, fixable}.
       f (report_totals s) = sum_list (map (\<lambda>x. f (snd x)) (report_images s)))"
proof -
  note images = summarize_images[OF assms]
  have names: "map fst (report_images s) = IMAGE_NAMES"
    using images by (induction rule: list_all2_induct) auto
  have each: "file_components (snd x) + package_components (snd x) = components_total (snd x)" if "x \<in> set (report_images s)" for x
    using images that image_summary_Inr(1) by (fastforce simp: list_all2_conv_all_nth in_set_conv_nth)
  have totals: "f (report_totals s) = sum_list (map (\<lambda>x. f (snd x)) (report_images s))"
    if "f \<in> {components_total, file_components, package_components, high, critical, fixable}" for f
    using assms that by (auto simp: summarize_def res_bind_eq_Inr total_def)
  have "file_components (report_totals s) + package_components (report_totals s) = components_total (report_totals s)"
    using each by (simp add: totals flip: sum_list_addf cong: map_cong)
  then show ?thesis using names each totals by auto
qed

theorem report_adds_up_witness:
  "\<exists>s. summarize example_reports = Inr s \<and> map fst (report_images s) = IMAGE_NAMES \<and>
     file_components (report_totals s) + package_components (report_totals s) = components_total (report_totals s)"
proof -
  obtain s where "summarize example_reports = Inr s" using example_summarize by blast
  from this report_adds_up[OF this] show ?thesis by auto
qed


text \<open>The gate counts a fix of a finding of any severity: the reports are taken to hold no others.\<close>

lemma low_finding_fails_gate: "\<exists>out. report_main fr example_reports = Inr (1, out)"
proof -
  obtain s where s: "summarize example_reports = Inr s" "report_images s = map (\<lambda>name. (name, example_counts)) IMAGE_NAMES"
    using example_summarize by blast
  then have "fixable (report_totals s) = 5"
    by (auto simp: summarize_def res_bind_eq_Inr total_def IMAGE_NAMES_def example_counts_def)
  with s(1) show ?thesis by (simp add: report_main_def)
qed


end
