(* ===== verification/Repository.thy ===== *)
theory Repository
  imports Python
begin

text \<open>
  The repository contract (\<open>tools/repository_contract.py\<close>) and the evidence-to-claim audit
  (\<open>tools/evidence_claims.py\<close>).

  A checkout is what the tools ask of the file system and of git: the resolved root, what
  \<open>git rev-parse --show-toplevel\<close> answers, which relative paths are directories or files and the text
  of a file. The YAML reader and \<open>str\<close> of a value are arguments.
\<close>

section \<open>Repository contract\<close>

record checkout =
  resolved_root :: string
  git_root :: "string res"
  has_dir :: "string \<Rightarrow> bool"
  has_file :: "string \<Rightarrow> bool"
  read_path :: "string \<Rightarrow> string res"

definition REQUIRED_DIRECTORIES :: "string list" where
  "REQUIRED_DIRECTORIES =
     [''.github/workflows'', ''agent'', ''deploy/kubernetes/base'', ''deploy/kubernetes/overlays/kind'',
      ''deploy/kubernetes/overlays/k3d'', ''docs/adr'', ''docs/architecture'', ''docs/runbooks'', ''docs/postmortems'',
      ''docs/security'', ''docs/slos'', ''drills'', ''evidence/templates'', ''load/k6'', ''migrations'', ''nginx'',
      ''observability/alertmanager'', ''observability/grafana'', ''observability/prometheus'', ''packages/common'',
      ''scripts'', ''services/api'', ''services/assistant'', ''services/outbox_relay'', ''services/worker'', ''tests'']"

definition REQUIRED_FILES :: "string list" where
  "REQUIRED_FILES =
     [''.dockerignore'', ''.github/workflows/quality.yml'', ''.env.example'', ''.gitignore'', ''CONTRIBUTING.md'', ''Makefile'',
      ''README.md'', ''ROADMAP.md'', ''SECURITY.md'', ''agent/Dockerfile'', ''compose.yaml'',
      ''docs/architecture/repository-boundary.md'', ''docs/architecture/system.md'', ''docs/security/threat-model.md'',
      ''evidence/INDEX.md'', ''evidence/claims.yaml'', ''evidence/README.md'',
      ''migrations/versions/20260717_0001_phase1.py'', ''migrations/versions/20260717_0002_phase2.py'', ''pyproject.toml'',
      ''requirements.lock'', ''requirements-dev.lock'', ''security/tool-images.env'', ''services/api/Dockerfile'',
      ''services/assistant/Dockerfile'', ''services/outbox_relay/Dockerfile'', ''services/worker/Dockerfile'',
      ''scripts/ci/clean_clone_gate.sh'', ''scripts/security/scan_images.sh'', ''src/fleetpulse/telemetry.py'',
      ''src/fleetpulse/assistant/app.py'', ''evaluations/assistant_golden.json'']"

definition boundary_file :: string where
  "boundary_file = ''docs/architecture/repository-boundary.md''"

definition boundary_marker :: string where
  "boundary_marker = ''/Users/gabriel/Documents/Fleet-Pulse''"

text \<open>\<open>path.name\<close>: what follows the last separator.\<close>

definition path_name :: "string \<Rightarrow> string" where
  "path_name p = (case split_last (CHR ''/'') p of None \<Rightarrow> p | Some (_, n) \<Rightarrow> n)"

definition contract_errors :: "checkout \<Rightarrow> string list res" where
  "contract_errors co =
     (let root = resolved_root co;
          name_errors = (if path_name root \<noteq> ''fleetpulse''
                         then [''repository directory must be named fleetpulse: '' @ root] else [])
      in res_bind (git_root co) (\<lambda>top.
         let root_errors = (if top \<noteq> root then [''FleetPulse must be its own Git root''] else []);
             dir_errors = map (\<lambda>p. ''missing required directory: '' @ p) (filter (\<lambda>p. \<not> has_dir co p) REQUIRED_DIRECTORIES);
             file_errors = map (\<lambda>p. ''missing required file: '' @ p) (filter (\<lambda>p. \<not> has_file co p) REQUIRED_FILES)
         in res_bind (read_path co boundary_file) (\<lambda>boundary.
            Inr (name_errors @ root_errors @ dir_errors @ file_errors @
              (if \<not> contains boundary_marker boundary
               then [''repository boundary must explicitly identify the out-of-scope project''] else [])))))"

text \<open>\<open>main\<close>: the exit status and the lines printed.\<close>

definition repository_main :: "checkout \<Rightarrow> (int \<times> string list) res" where
  "repository_main co =
     res_bind (contract_errors co) (\<lambda>errors.
     if errors \<noteq> [] then Inr (1, map (\<lambda>e. ''ERROR: '' @ e) errors)
     else Inr (0, [''Repository contract satisfied: '' @ resolved_root co]))"

section \<open>Evidence-to-claim audit\<close>

definition CLASSIFICATIONS :: "string list" where
  "CLASSIFICATIONS = [''implemented'', ''measured'', ''evaluated'', ''projected'', ''target'']"

definition member_value :: "(string \<times> jval) list \<Rightarrow> string \<Rightarrow> jval" where
  "member_value m k = (case map_of m k of Some v \<Rightarrow> v | None \<Rightarrow> JNull)"

definition check_text_field :: "(string \<times> jval) list \<Rightarrow> string \<Rightarrow> string \<Rightarrow> unit res" where
  "check_text_field m claim_id f = (case member_value m f of
     JStr s \<Rightarrow> if strip s \<noteq> [] then Inr () else Inl (ValueError (claim_id @ '' needs '' @ f))
   | _ \<Rightarrow> Inl (ValueError (claim_id @ '' needs '' @ f)))"

definition check_evidence :: "(jval \<Rightarrow> string) \<Rightarrow> (string \<Rightarrow> bool) \<Rightarrow> string \<Rightarrow> jval \<Rightarrow> unit res" where
  "check_evidence py_str is_file claim_id relative = (case relative of
     JStr r \<Rightarrow> if is_file r then Inr () else Inl (ValueError (''missing evidence for '' @ claim_id @ '': '' @ r))
   | _ \<Rightarrow> Inl (ValueError (''missing evidence for '' @ claim_id @ '': '' @ py_str relative)))"

definition check_claim :: "(jval \<Rightarrow> string) \<Rightarrow> (string \<Rightarrow> bool) \<Rightarrow> jval \<Rightarrow> string list \<Rightarrow> string list res" where
  "check_claim py_str is_file claim seen = (case claim of
     JObj m \<Rightarrow>
       (case member_value m ''id'' of
          JStr claim_id \<Rightarrow>
            if claim_id = [] then Inl (ValueError ''each claim needs an id'')
            else if claim_id \<in> set seen then Inl (ValueError (''duplicate claim id: '' @ claim_id))
            else if \<not> hashable (member_value m ''classification'') then Inl TypeError
            else if member_value m ''classification'' \<notin> JStr ` set CLASSIFICATIONS
              then Inl (ValueError (''invalid classification: '' @ claim_id))
            else
              res_bind (each (check_text_field m claim_id) [''resume_bullet'', ''limitations'']) (\<lambda>_.
              case member_value m ''evidence'' of
                JList evidence \<Rightarrow>
                  if evidence = [] then Inl (ValueError (claim_id @ '' needs evidence''))
                  else res_bind (each (check_evidence py_str is_file claim_id) evidence) (\<lambda>_. Inr (claim_id # seen))
              | _ \<Rightarrow> Inl (ValueError (claim_id @ '' needs evidence'')))
        | _ \<Rightarrow> Inl (ValueError ''each claim needs an id''))
   | _ \<Rightarrow> Inl (ValueError ''each claim must be an object''))"

definition load_claims ::
    "(jval \<Rightarrow> string) \<Rightarrow> (string \<Rightarrow> jval res) \<Rightarrow> (string \<Rightarrow> bool) \<Rightarrow> string \<Rightarrow> jval list res" where
  "load_claims py_str safe_load is_file text =
     res_bind (safe_load text) (\<lambda>document.
     case (case document of JObj m \<Rightarrow> member_value m ''claims'' | _ \<Rightarrow> JNull) of
       JList claims \<Rightarrow>
         if claims = [] then Inl (ValueError ''claim catalog must contain a non-empty claims list'')
         else res_bind (fold_res (check_claim py_str is_file) claims []) (\<lambda>_. Inr claims)
     | _ \<Rightarrow> Inl (ValueError ''claim catalog must contain a non-empty claims list''))"

definition evidence_line :: "jval \<Rightarrow> string res" where
  "evidence_line relative = (case relative of
     JStr r \<Rightarrow> Inr (''- ['' @ r @ ''](''  @ removeprefix ''evidence/'' r @ '')'')
   | _ \<Rightarrow> Inl AttributeError)"

definition render_claim :: "(jval \<Rightarrow> string) \<Rightarrow> jval \<Rightarrow> string list res" where
  "render_claim py_str claim =
     res_bind (subscript claim ''id'') (\<lambda>i.
     res_bind (subscript claim ''classification'') (\<lambda>c.
     res_bind (subscript claim ''resume_bullet'') (\<lambda>b.
     res_bind (subscript claim ''evidence'') (\<lambda>e.
     res_bind (iterate e) (\<lambda>evidence.
     res_bind (map_res evidence_line evidence) (\<lambda>links.
     res_bind (subscript claim ''limitations'') (\<lambda>l.
     Inr ([''## '' @ py_str i, [], ''**Classification:** '' @ py_str c, [], ''- '' @ py_str b, [], ''Evidence:'', []] @
          links @ [[], ''Boundary: '' @ py_str l, []]))))))))"

definition index_head :: "string list" where
  "index_head = [''# Evidence-to-claim index'', [],
     ''These portfolio-safe bullets are generated from `evidence/claims.yaml`. Every bullet'',
     ''links to committed evidence and states the boundary on what can be inferred.'', []]"

definition render_index :: "(jval \<Rightarrow> string) \<Rightarrow> jval list \<Rightarrow> string res" where
  "render_index py_str claims =
     res_bind (map_res (render_claim py_str) claims) (\<lambda>blocks.
     Inr (rstrip (join_with [CHR 0x0A] (index_head @ concat blocks)) @ [CHR 0x0A]))"

text \<open>\<open>read_text\<close> opens in text mode: a carriage return, alone or before a newline, reads as a newline.\<close>

fun universal_newlines :: "string \<Rightarrow> string" where
  "universal_newlines [] = []"
| "universal_newlines [c] = [if c = CHR 0x0D then CHR 0x0A else c]"
| "universal_newlines (c # d # r) =
     (if c = CHR 0x0D then CHR 0x0A # (if d = CHR 0x0A then universal_newlines r else universal_newlines (d # r))
      else c # universal_newlines (d # r))"

text \<open>\<open>main\<close>: the number of audited claims and the index file afterwards.\<close>

definition evidence_main ::
    "(jval \<Rightarrow> string) \<Rightarrow> (string \<Rightarrow> jval res) \<Rightarrow> (string \<Rightarrow> bool) \<Rightarrow> string \<Rightarrow> bool \<Rightarrow> string option \<Rightarrow> (nat \<times> string option) res" where
  "evidence_main py_str safe_load is_file text write_index index =
     res_bind (load_claims py_str safe_load is_file text) (\<lambda>claims.
     res_bind (render_index py_str claims) (\<lambda>rendered.
     if write_index then Inr (length claims, Some rendered)
     else case index of
       None \<Rightarrow> Inl (ValueError ''evidence/INDEX.md is missing or stale; run with --write-index'')
     | Some content \<Rightarrow>
         if universal_newlines content \<noteq> rendered
         then Inl (ValueError ''evidence/INDEX.md is missing or stale; run with --write-index'')
         else Inr (length claims, index)))"

section \<open>What the contracts say\<close>

text \<open>A checkout that satisfies the repository contract, given its Git root and boundary document.\<close>

definition satisfied :: "checkout \<Rightarrow> string \<Rightarrow> string \<Rightarrow> bool" where
  "satisfied co base boundary \<longleftrightarrow> path_name (resolved_root co) = ''fleetpulse'' \<and> base = resolved_root co \<and>
     (\<forall>p \<in> set REQUIRED_DIRECTORIES. has_dir co p) \<and> (\<forall>p \<in> set REQUIRED_FILES. has_file co p) \<and> contains boundary_marker boundary"

lemma reported: "p \<in> set ps \<Longrightarrow> ok p \<or> f p \<in> set (xs @ map f (filter (\<lambda>p. \<not> ok p) ps) @ ys)"
  by auto

lemma contract_errors_parts:
  assumes "git_root co = Inr base" and "read_path co boundary_file = Inr boundary"
  shows "\<exists>a b c. contract_errors co = Inr (a @ b @ map (\<lambda>p. ''missing required directory: '' @ p) (filter (\<lambda>p. \<not> has_dir co p) REQUIRED_DIRECTORIES) @
      map (\<lambda>p. ''missing required file: '' @ p) (filter (\<lambda>p. \<not> has_file co p) REQUIRED_FILES) @ c) \<and>
    (a = [] \<longleftrightarrow> path_name (resolved_root co) = ''fleetpulse'') \<and> (b = [] \<longleftrightarrow> base = resolved_root co) \<and>
    (c = [] \<longleftrightarrow> contains boundary_marker boundary)"
  unfolding contract_errors_def Let_def assms res_bind_def sum.case by (intro exI conjI, rule refl) simp_all

text \<open>
  C37: Where Git answers and the boundary document can be read, the contract decides exactly: its status is 0
  when the directory is named fleetpulse, is its own Git root, has every required directory and file and
  its boundary document names the project that is out of scope; otherwise it is 1, and every missing path
  has its own line.
\<close>

theorem repository_contract_exact:
  assumes "git_root co = Inr base" and "read_path co boundary_file = Inr boundary"
  shows "\<exists>status out. repository_main co = Inr (status, out) \<and> (status = 0 \<longleftrightarrow> satisfied co base boundary) \<and>
    (status \<noteq> 0 \<longrightarrow> status = 1 \<and>
      (\<forall>p \<in> set REQUIRED_DIRECTORIES. has_dir co p \<or> ''ERROR: missing required directory: '' @ p \<in> set out) \<and>
      (\<forall>p \<in> set REQUIRED_FILES. has_file co p \<or> ''ERROR: missing required file: '' @ p \<in> set out))"
proof -
  obtain errors where errors: "contract_errors co = Inr errors"
    and none: "errors = [] \<longleftrightarrow> satisfied co base boundary"
    and dirs: "\<forall>p \<in> set REQUIRED_DIRECTORIES. has_dir co p \<or> ''missing required directory: '' @ p \<in> set errors"
    and paths: "\<forall>p \<in> set REQUIRED_FILES. has_file co p \<or> ''missing required file: '' @ p \<in> set errors"
  proof -
    obtain a b c where e: "contract_errors co = Inr (a @ b @ map (\<lambda>p. ''missing required directory: '' @ p) (filter (\<lambda>p. \<not> has_dir co p) REQUIRED_DIRECTORIES) @
        map (\<lambda>p. ''missing required file: '' @ p) (filter (\<lambda>p. \<not> has_file co p) REQUIRED_FILES) @ c)"
      and parts: "a = [] \<longleftrightarrow> path_name (resolved_root co) = ''fleetpulse''" "b = [] \<longleftrightarrow> base = resolved_root co"
        "c = [] \<longleftrightarrow> contains boundary_marker boundary"
      using contract_errors_parts[OF assms] by blast
    show thesis
    proof (rule that[OF e])
      let ?d = "\<lambda>p. ''missing required directory: '' @ p" and ?f = "\<lambda>p. ''missing required file: '' @ p"
      let ?ds = "map ?d (filter (\<lambda>p. \<not> has_dir co p) REQUIRED_DIRECTORIES)" and ?fs = "map ?f (filter (\<lambda>p. \<not> has_file co p) REQUIRED_FILES)"
      show "a @ b @ ?ds @ ?fs @ c = [] \<longleftrightarrow> satisfied co base boundary"
        by (simp add: parts satisfied_def filter_empty_conv)
      show "\<forall>p \<in> set REQUIRED_DIRECTORIES. has_dir co p \<or> ?d p \<in> set (a @ b @ ?ds @ ?fs @ c)"
        using reported[where f = ?d and xs = "a @ b" and ys = "?fs @ c"] by (simp only: append_assoc) blast
      show "\<forall>p \<in> set REQUIRED_FILES. has_file co p \<or> ?f p \<in> set (a @ b @ ?ds @ ?fs @ c)"
        using reported[where f = ?f and xs = "a @ b @ ?ds" and ys = c] by (simp only: append_assoc) blast
    qed
  qed
  show ?thesis
  proof (cases "errors = []")
    case True
    with errors none show ?thesis by (simp add: repository_main_def)
  next
    case False
    then have "repository_main co = Inr (1, map (\<lambda>e. ''ERROR: '' @ e) errors)" by (simp add: repository_main_def errors)
    with False none dirs paths show ?thesis by force
  qed
qed

definition example_checkout :: checkout where
  "example_checkout = \<lparr>resolved_root = ''/src/fleetpulse'', git_root = Inr ''/src/fleetpulse'', has_dir = (\<lambda>_. True),
     has_file = (\<lambda>p. p \<noteq> ''Makefile''), read_path = (\<lambda>_. Inr boundary_marker)\<rparr>"

theorem repository_contract_exact_witness:
  "\<exists>out. repository_main example_checkout = Inr (1, out) \<and> ''ERROR: missing required file: Makefile'' \<in> set out"
proof -
  have "\<not> satisfied example_checkout ''/src/fleetpulse'' boundary_marker"
    by (simp add: satisfied_def example_checkout_def REQUIRED_FILES_def)
  moreover have "''Makefile'' \<in> set REQUIRED_FILES" and "\<not> has_file example_checkout ''Makefile''"
    by (simp_all add: REQUIRED_FILES_def example_checkout_def)
  ultimately show ?thesis
    using repository_contract_exact[of example_checkout "''/src/fleetpulse''" boundary_marker]
    by (fastforce simp: example_checkout_def)
qed

text \<open>A missing boundary document is not reported with the other errors: reading it raises.\<close>

lemma missing_boundary_raises:
  "git_root co = Inr base \<Longrightarrow> read_path co boundary_file = Inl e \<Longrightarrow> contract_errors co = Inl e"
  by (simp add: contract_errors_def Let_def)

text \<open>What the audit accepts as a claim.\<close>

definition present_text :: "(string \<times> jval) list \<Rightarrow> string \<Rightarrow> bool" where
  "present_text m f \<longleftrightarrow> (\<exists>s. map_of m f = Some (JStr s) \<and> strip s \<noteq> [])"

definition traced :: "(string \<Rightarrow> bool) \<Rightarrow> jval \<Rightarrow> string \<Rightarrow> bool" where
  "traced is_file claim claim_id \<longleftrightarrow> (\<exists>m evidence. claim = JObj m \<and> map_of m ''id'' = Some (JStr claim_id) \<and> claim_id \<noteq> [] \<and>
     (\<exists>c \<in> set CLASSIFICATIONS. map_of m ''classification'' = Some (JStr c)) \<and>
     present_text m ''resume_bullet'' \<and> present_text m ''limitations'' \<and>
     map_of m ''evidence'' = Some (JList evidence) \<and> evidence \<noteq> [] \<and> (\<forall>e \<in> set evidence. \<exists>r. e = JStr r \<and> is_file r))"

lemma member_value_JStr: "member_value m k = JStr s \<longleftrightarrow> map_of m k = Some (JStr s)"
  by (simp add: member_value_def split: option.splits)

lemma member_value_JList: "member_value m k = JList xs \<longleftrightarrow> map_of m k = Some (JList xs)"
  by (simp add: member_value_def split: option.splits)

lemma check_text_field_Inr: "check_text_field m claim_id f = Inr u \<Longrightarrow> present_text m f"
  by (auto simp: check_text_field_def present_text_def member_value_JStr split: jval.splits if_splits)

lemma check_evidence_Inr: "check_evidence py_str is_file claim_id e = Inr u \<Longrightarrow> \<exists>r. e = JStr r \<and> is_file r"
  by (auto simp: check_evidence_def split: jval.splits if_splits)

lemma check_claim_Inr:
  assumes "check_claim py_str is_file claim seen = Inr seen'"
  shows "\<exists>claim_id. traced is_file claim claim_id \<and> claim_id \<notin> set seen \<and> seen' = claim_id # seen"
proof -
  from assms obtain m claim_id evidence where m: "claim = JObj m" "member_value m ''id'' = JStr claim_id" "claim_id \<noteq> []"
    and seen: "claim_id \<notin> set seen" "seen' = claim_id # seen"
    and c: "member_value m ''classification'' \<in> JStr ` set CLASSIFICATIONS"
    and texts: "check_text_field m claim_id ''resume_bullet'' = Inr ()" "check_text_field m claim_id ''limitations'' = Inr ()"
    and evidence: "member_value m ''evidence'' = JList evidence" "evidence \<noteq> []"
      "\<forall>e \<in> set evidence. check_evidence py_str is_file claim_id e = Inr ()"
    by (auto simp: check_claim_def res_bind_eq_Inr each_Inr split: jval.splits if_splits)
  then show ?thesis
    by (auto simp: traced_def member_value_JStr member_value_JList dest!: check_text_field_Inr check_evidence_Inr)
qed

lemma check_claims_Inr:
  "fold_res (check_claim py_str is_file) claims seen = Inr seen' \<Longrightarrow>
     \<exists>ids. list_all2 (traced is_file) claims ids \<and> distinct ids \<and> set ids \<inter> set seen = {}"
proof (induction claims arbitrary: seen)
  case Nil
  then show ?case by simp
next
  case (Cons claim claims)
  then obtain seen1 where "check_claim py_str is_file claim seen = Inr seen1"
    and rest: "fold_res (check_claim py_str is_file) claims seen1 = Inr seen'"
    by (auto simp: res_bind_eq_Inr)
  from check_claim_Inr[OF this(1)] obtain i where i: "traced is_file claim i" "i \<notin> set seen" "seen1 = i # seen" by blast
  from Cons.IH[OF rest] obtain ids where "list_all2 (traced is_file) claims ids" "distinct ids" "set ids \<inter> set seen1 = {}" by blast
  with i have "list_all2 (traced is_file) (claim # claims) (i # ids) \<and> distinct (i # ids) \<and> set (i # ids) \<inter> set seen = {}" by auto
  then show ?case by blast
qed

lemma evidence_line_total: "\<forall>e \<in> set evidence. \<exists>r. e = JStr r \<and> P r \<Longrightarrow> \<exists>links. map_res evidence_line evidence = Inr links"
  by (induction evidence) (auto simp: evidence_line_def)

lemma render_claim_total:
  assumes "traced is_file claim i"
  shows "\<exists>ls. render_claim py_str claim = Inr ls"
proof -
  from assms obtain m evidence where m: "claim = JObj m" "map_of m ''evidence'' = Some (JList evidence)"
    and e: "\<forall>e \<in> set evidence. \<exists>r. e = JStr r \<and> is_file r"
    by (auto simp: traced_def)
  obtain links where "map_res evidence_line evidence = Inr links" using evidence_line_total[OF e] by blast
  with assms m show ?thesis
    by (auto simp: traced_def present_text_def render_claim_def subscript_def iterate_def)
qed

lemma render_index_total:
  assumes "list_all2 (traced is_file) claims ids"
  shows "\<exists>index. render_index py_str claims = Inr index"
proof -
  have "\<exists>blocks. map_res (render_claim py_str) claims = Inr blocks"
    using assms
  proof (induction rule: list_all2_induct)
    case (Cons claim claims i ids)
    then show ?case using render_claim_total[of is_file claim i py_str] by auto
  qed simp
  then show ?thesis by (auto simp: render_index_def)
qed

text \<open>
  C38: A catalog the audit accepts is not empty, no two of its claims have the same id, every claim is
  classified, states its bullet and its limitations and cites at least one file, every file it cites
  exists, and its index can always be rendered.
\<close>

theorem accepted_catalog_traced:
  assumes "load_claims py_str safe_load is_file content = Inr claims"
  shows "claims \<noteq> [] \<and> (\<exists>ids. distinct ids \<and> list_all2 (traced is_file) claims ids) \<and>
    (\<exists>index. render_index py_str claims = Inr index)"
proof -
  obtain document where "(case (case document of JObj m \<Rightarrow> member_value m ''claims'' | _ \<Rightarrow> JNull) of
       JList claims \<Rightarrow>
         if claims = [] then Inl (ValueError ''claim catalog must contain a non-empty claims list'')
         else res_bind (fold_res (check_claim py_str is_file) claims []) (\<lambda>_. Inr claims)
     | _ \<Rightarrow> Inl (ValueError ''claim catalog must contain a non-empty claims list'')) = Inr claims"
    using assms by (auto simp: load_claims_def res_bind_eq_Inr)
  then obtain seen where "claims \<noteq> []" and "fold_res (check_claim py_str is_file) claims [] = Inr seen"
    by (cases "case document of JObj m \<Rightarrow> member_value m ''claims'' | _ \<Rightarrow> JNull") (auto simp: res_bind_eq_Inr split: if_splits)
  with check_claims_Inr[OF this(2)] render_index_total show ?thesis by blast
qed

definition example_claims :: jval where
  "example_claims = JObj [(''claims'', JList (map (\<lambda>i. JObj
     [(''id'', JStr i), (''classification'', JStr ''measured''), (''resume_bullet'', JStr ''b''), (''limitations'', JStr ''l''),
      (''evidence'', JList [JStr ''evidence/run.md''])]) [''a'', ''b'']))]"

lemma example_catalog:
  "load_claims (\<lambda>_. []) (\<lambda>_. Inr example_claims) (\<lambda>_. True) [] = Inr (case example_claims of JObj [(_, JList cs)] \<Rightarrow> cs | _ \<Rightarrow> [])"
  by code_simp

theorem accepted_catalog_traced_witness:
  "\<exists>claims ids. load_claims (\<lambda>_. []) (\<lambda>_. Inr example_claims) (\<lambda>_. True) [] = Inr claims \<and> distinct ids \<and>
     list_all2 (traced (\<lambda>_. True)) claims ids"
  using example_catalog accepted_catalog_traced[OF example_catalog] by blast

text \<open>What reading in text mode keeps.\<close>

lemma universal_newlines_length: "length (universal_newlines s) \<le> length s"
  by (induction s rule: universal_newlines.induct) auto

lemma universal_newlines_fixed: "universal_newlines s = s \<longleftrightarrow> CHR 0x0D \<notin> set s"
proof (induction s rule: universal_newlines.induct)
  case (3 c d r)
  then show ?case using universal_newlines_length[of r] by (cases "c = CHR 0x0D") auto
qed auto

text \<open>
  C39: The two modes of the audit agree: the index that \<open>--write-index\<close> writes passes the check of the same
  catalog, unless it contains a carriage return, which reading the file back turns into a newline so that
  the check fails for ever; and an index passes only when, read back, it is the one that would be written.
\<close>

theorem written_index_passes:
  assumes "evidence_main py_str safe_load is_file content True index = Inr (n, Some written)"
  shows "(evidence_main py_str safe_load is_file content False (Some written) = Inr (n, Some written) \<longleftrightarrow> CHR 0x0D \<notin> set written) \<and>
    (\<forall>other k out. evidence_main py_str safe_load is_file content False other = Inr (k, out) \<longrightarrow>
       k = n \<and> out = other \<and> (\<exists>old. other = Some old \<and> universal_newlines old = written))"
proof -
  obtain claims where claims: "load_claims py_str safe_load is_file content = Inr claims" "render_index py_str claims = Inr written"
    and n: "n = length claims"
    using assms by (auto simp: evidence_main_def res_bind_eq_Inr)
  have check: "evidence_main py_str safe_load is_file content False other = Inr (k, out) \<longleftrightarrow>
      k = n \<and> out = other \<and> (\<exists>old. other = Some old \<and> universal_newlines old = written)" for other k out
    by (cases other) (auto simp: evidence_main_def claims n)
  show ?thesis by (auto simp: check universal_newlines_fixed)
qed

lemma example_catalog_index:
  "\<exists>written. render_index (\<lambda>_. ''x'') (case example_claims of JObj [(_, JList cs)] \<Rightarrow> cs | _ \<Rightarrow> []) = Inr written \<and> CHR 0x0D \<notin> set written"
proof -
  have "(case render_index (\<lambda>_. ''x'') (case example_claims of JObj [(_, JList cs)] \<Rightarrow> cs | _ \<Rightarrow> []) of
      Inl _ \<Rightarrow> False | Inr written \<Rightarrow> CHR 0x0D \<notin> set written)"
    by code_simp
  then show ?thesis by (auto split: sum.splits)
qed

theorem written_index_passes_witness:
  "\<exists>written. evidence_main (\<lambda>_. ''x'') (\<lambda>_. Inr example_claims) (\<lambda>_. True) [] True None = Inr (2, Some written) \<and>
     evidence_main (\<lambda>_. ''x'') (\<lambda>_. Inr example_claims) (\<lambda>_. True) [] False (Some written) = Inr (2, Some written)"
proof -
  let ?claims = "case example_claims of JObj [(_, JList cs)] \<Rightarrow> cs | _ \<Rightarrow> []"
  have "load_claims (\<lambda>_. ''x'') (\<lambda>_. Inr example_claims) (\<lambda>_. True) [] = Inr ?claims" and n: "length ?claims = 2"
    by code_simp+
  moreover obtain written where w: "render_index (\<lambda>_. ''x'') ?claims = Inr written" "CHR 0x0D \<notin> set written"
    using example_catalog_index by blast
  ultimately have "evidence_main (\<lambda>_. ''x'') (\<lambda>_. Inr example_claims) (\<lambda>_. True) [] True None = Inr (2, Some written)"
    by (simp add: evidence_main_def)
  from this written_index_passes[OF this] w(2) show ?thesis by blast
qed

end
