(* ===== verification/Smoke.thy ===== *)
theory Smoke
  imports Worker Script
begin

text \<open>
  The smoke scripts \<open>scripts/phase1_smoke.py\<close> and \<open>scripts/phase2_smoke.py\<close>, as programs over the
  environment of theory \<open>Script\<close>. A response also has headers here; the service that answers and the
  wall clock are the two further arguments of a \<open>site\<close>. Each main returns its exit status and the line
  it prints. The lemmas show what a passing run has seen, that the second script returns, and that its
  batch is one the ingestion contract accepts and the worker opens an incident for.
\<close>

section \<open>The service\<close>

record 'o site =
  ask_site :: "call \<Rightarrow> 'o \<Rightarrow> (http_response \<times> (string \<times> string) list) res \<times> 'o"
  datetime_now :: "'o \<Rightarrow> datetime \<times> 'o"

type_synonym ('o, 'a) smoke = "(unit, 'o, 'a) prog"

definition site_call :: "'o site \<Rightarrow> string \<Rightarrow> string \<Rightarrow> (string \<times> string) list \<Rightarrow> jval option \<Rightarrow>
    ('o, http_response \<times> (string \<times> string) list) smoke" where
  "site_call site verb url headers body =
     pbind (on_outside (ask_site site \<lparr>call_method = verb, call_url = url, call_headers = headers, call_json = body\<rparr>)) lift_res"

text \<open>\<open>response.headers[k]\<close>: names are compared without case, several values are joined.\<close>

definition header_value :: "(string \<times> string) list \<Rightarrow> string \<Rightarrow> string res" where
  "header_value headers k =
     (case filter (\<lambda>h. lower (fst h) = lower k) headers of
        [] \<Rightarrow> Inl (KeyError k)
      | hs \<Rightarrow> Inr (join_with '', '' (map snd hs)))"

text \<open>\<open>next(item for item in items if item["agent_id"] == agent)\<close>, up to the first hit.\<close>

fun first_of :: "string \<Rightarrow> jval list \<Rightarrow> jval option res" where
  "first_of agent [] = Inr None"
| "first_of agent (x # xs) =
     res_bind (subscript x ''agent_id'') (\<lambda>v. if v = JStr agent then Inr (Some x) else first_of agent xs)"

text \<open>\<open>v == 1\<close> for a value read from JSON.\<close>

definition equals_one :: "jval \<Rightarrow> bool" where
  "equals_one v \<longleftrightarrow> v \<in> {JInt 1, JFloat (Fin 1), JBool True}"

section \<open>phase1_smoke.py\<close>

definition SMOKE_BATCH_ID :: uuid where
  "SMOKE_BATCH_ID = 0x00000000000040008000000000000001"

definition smoke_sample :: "datetime \<Rightarrow> TelemetrySample" where
  "smoke_sample moment = \<lparr>observed_at = moment, cpu_percent = Fin (25 / 2), load_1m = Fin (1 / 10), load_5m = Fin (1 / 5),
     load_15m = Fin (3 / 10),
     memory = \<lparr>mem_total_bytes = 1024, mem_available_bytes = 512, mem_used_bytes = 512, mem_used_percent = Fin 50\<rparr>,
     disks = [\<lparr>disk_mount = ''/'', disk_total_bytes = 2048, disk_used_bytes = 1024, disk_free_bytes = 1024,
       disk_used_percent = Fin 50\<rparr>],
     network = \<lparr>bytes_sent = 10, bytes_received = 20, packets_sent = 1, packets_received = 2, errors_in = 0, errors_out = 0,
       drops_in = 0, drops_out = 0, tcp_established = 1, tcp_listening = 1, tcp_other = 0, udp_sockets = 0\<rparr>,
     process_count = 1, top_processes = []\<rparr>"

definition smoke_batch :: "datetime \<Rightarrow> TelemetryBatch res" where
  "smoke_batch moment = new_batch SMOKE_BATCH_ID ''phase1-smoke-agent'' ''phase1-smoke-host'' [smoke_sample moment]"

definition post_batch :: "codec \<Rightarrow> 'o site \<Rightarrow> string \<Rightarrow> (string \<times> string) list \<Rightarrow> (datetime \<Rightarrow> TelemetryBatch res) \<Rightarrow>
    ('o, http_response \<times> (string \<times> string) list) smoke" where
  "post_batch c site api_url headers build =
     pbind (on_outside (datetime_now site)) (\<lambda>moment.
     pbind (lift_res (build moment)) (\<lambda>b.
     site_call site ''POST'' (api_url @ ''/v1/telemetry/batches'') headers (Some (dump_batch c b))))"

definition phase1_asserts :: "jval \<Rightarrow> jval \<Rightarrow> jval \<Rightarrow> (string \<times> string) list \<Rightarrow> (string \<times> jval) list res" where
  "phase1_asserts first_payload second_payload agent_payload first_headers =
     res_bind (subscript first_payload ''status'') (\<lambda>first_status.
     res_bind (in_names first_status [''accepted'', ''duplicate'']) (\<lambda>known.
     res_bind (require known []) (\<lambda>_.
     res_bind (subscript second_payload ''status'') (\<lambda>second_status.
     res_bind (require (second_status = JStr ''duplicate'') []) (\<lambda>_.
     res_bind (iterate agent_payload) (\<lambda>agents.
     res_bind (first_of ''phase1-smoke-agent'' agents) (\<lambda>found.
     res_bind (res_of (ServiceError ''StopIteration'') found) (\<lambda>smoke_agent.
     res_bind (subscript smoke_agent ''batch_count'') (\<lambda>count.
     res_bind (require (equals_one count) []) (\<lambda>_.
     res_bind (header_value first_headers ''X-Request-ID'') (\<lambda>correlation.
     res_bind (require (correlation = ''phase1-smoke-correlation'') []) (\<lambda>_.
     Inr [(''authentication_boundary'', JStr ''passed''), (''first_status'', first_status), (''replay_status'', second_status),
          (''durable_batch_count'', count), (''correlation_id'', JStr correlation)]))))))))))))"

definition phase1_main :: "codec \<Rightarrow> 'o env \<Rightarrow> 'o site \<Rightarrow> string \<Rightarrow> string \<Rightarrow> string \<Rightarrow> ('o, int \<times> string) smoke" where
  "phase1_main c E site api_url ca token =
     (let correlation = (''X-Request-ID'', ''phase1-smoke-correlation'');
          headers = [(''Authorization'', ''Bearer '' @ token), correlation] in
     then_do (open_client ca) (
     pbind (site_call site ''GET'' (api_url @ ''/v1/fleet/agents'') [(''Authorization'', []), correlation] None) (\<lambda>denied.
     pbind (post_batch c site api_url headers smoke_batch) (\<lambda>first.
     pbind (post_batch c site api_url headers smoke_batch) (\<lambda>second.
     pbind (site_call site ''GET'' (api_url @ ''/v1/fleet/agents'') headers None) (\<lambda>agents.
     then_do (lift_res (require (http_status (fst denied) = 401) [])) (
     then_do (lift_res (raise_for_status (fst first))) (
     then_do (lift_res (raise_for_status (fst second))) (
     then_do (lift_res (raise_for_status (fst agents))) (
     pbind (response_json (fst first)) (\<lambda>first_payload.
     pbind (response_json (fst second)) (\<lambda>second_payload.
     pbind (response_json (fst agents)) (\<lambda>agent_payload.
     pbind (lift_res (phase1_asserts first_payload second_payload agent_payload (snd first))) (\<lambda>summary.
     ret (0, json_line E summary)))))))))))))))"

section \<open>phase2_smoke.py\<close>

definition high_cpu_sample :: "datetime \<Rightarrow> TelemetrySample" where
  "high_cpu_sample moment = \<lparr>observed_at = moment, cpu_percent = Fin 99, load_1m = Fin 4, load_5m = Fin 3, load_15m = Fin 2,
     memory = \<lparr>mem_total_bytes = 100, mem_available_bytes = 50, mem_used_bytes = 50, mem_used_percent = Fin 50\<rparr>,
     disks = [\<lparr>disk_mount = ''/'', disk_total_bytes = 100, disk_used_bytes = 50, disk_free_bytes = 50, disk_used_percent = Fin 50\<rparr>],
     network = \<lparr>bytes_sent = 1, bytes_received = 1, packets_sent = 1, packets_received = 1, errors_in = 0, errors_out = 0,
       drops_in = 0, drops_out = 0, tcp_established = 0, tcp_listening = 1, tcp_other = 0, udp_sockets = 0\<rparr>,
     process_count = 1, top_processes = []\<rparr>"

definition high_cpu_batch :: "uuid \<Rightarrow> datetime \<Rightarrow> TelemetryBatch res" where
  "high_cpu_batch bid moment = new_batch bid ''phase2-incident-agent'' ''phase2-host'' [high_cpu_sample moment]"

definition phase2_summary :: "http_response \<Rightarrow> http_response \<Rightarrow> jval \<Rightarrow> jval \<Rightarrow> (string \<times> jval) list res" where
  "phase2_summary ingest deployment state incident =
     res_bind (res_of JSONDecodeError (loads (http_body ingest))) (\<lambda>i.
     res_bind (subscript i ''status'') (\<lambda>ingestion.
     res_bind (subscript state ''cpu_percent'') (\<lambda>cpu.
     res_bind (subscript incident ''incident_type'') (\<lambda>ty.
     res_bind (res_of JSONDecodeError (loads (http_body deployment))) (\<lambda>d.
     res_bind (subscript d ''status'') (\<lambda>deployed.
     Inr [(''ingestion'', ingestion), (''fleet_cpu'', cpu), (''incident_type'', ty), (''deployment_status'', deployed)]))))))"

definition phase2_pass :: "'o site \<Rightarrow> string \<Rightarrow> (string \<times> string) list \<Rightarrow> ('o, (jval \<times> jval) option) smoke" where
  "phase2_pass site api_url headers =
     pbind (site_call site ''GET'' (api_url @ ''/v1/fleet/state'') headers None) (\<lambda>fleet.
     pbind (site_call site ''GET'' (api_url @ ''/v1/incidents'') headers None) (\<lambda>incidents.
     then_do (lift_res (raise_for_status (fst fleet))) (
     then_do (lift_res (raise_for_status (fst incidents))) (
     pbind (response_json (fst fleet)) (\<lambda>f.
     pbind (lift_res (res_bind (iterate f) (first_of ''phase2-incident-agent''))) (\<lambda>state.
     pbind (response_json (fst incidents)) (\<lambda>i.
     pbind (lift_res (res_bind (iterate i) (first_of ''phase2-incident-agent''))) (\<lambda>incident.
     ret (case (state, incident) of
            (Some s, Some n) \<Rightarrow> if jtruthy s \<and> jtruthy n then Some (s, n) else None
          | _ \<Rightarrow> None)))))))))"

definition phase2_main :: "codec \<Rightarrow> 'o env \<Rightarrow> 'o site \<Rightarrow> string \<Rightarrow> string \<Rightarrow> string \<Rightarrow> uuid \<Rightarrow> ('o, int \<times> string) smoke" where
  "phase2_main c E site api_url ca token bid =
     (let headers = [(''Authorization'', ''Bearer '' @ token), (''X-Request-ID'', ''phase2-smoke'')] in
     then_do (open_client ca) (
     pbind (post_batch c site api_url headers (high_cpu_batch bid)) (\<lambda>ingest.
     then_do (lift_res (raise_for_status (fst ingest))) (
     pbind (site_call site ''POST'' (api_url @ ''/v1/deployments'') headers (Some (JObj
       [(''service'', JStr ''api''), (''version'', JStr ''phase2''), (''requested_by'', JStr ''phase2-smoke'')]))) (\<lambda>deployment.
     then_do (lift_res (raise_for_status (fst deployment))) (
     pbind (clock E) (\<lambda>t.
     pbind (poll E (t + 15) (1 / 4) (\<lambda>_.
         pbind (phase2_pass site api_url headers) (\<lambda>found.
         case found of
           Some (state, incident) \<Rightarrow>
             pbind (lift_res (phase2_summary (fst ingest) (fst deployment) state incident)) (\<lambda>summary.
             ret (Inr (0, json_line E summary)))
         | None \<Rightarrow> ret (Inl ()))) ()) (\<lambda>outcome.
     case outcome of
       Inr r \<Rightarrow> ret r
     | Inl _ \<Rightarrow> raise (RuntimeError ''worker-derived state did not appear before timeout'')))))))))"

section \<open>What the scripts rely on and report\<close>

text \<open>The service and the wall clock take no negative time.\<close>

definition site_ok :: "'o env \<Rightarrow> 'o site \<Rightarrow> bool" where
  "site_ok E site \<longleftrightarrow> (\<forall>c out. now_at E out \<le> now_at E (snd (ask_site site c out))) \<and>
     (\<forall>out. now_at E out \<le> now_at E (snd (datetime_now site out)))"

lemma returns_site_call [returns_intros]: "site_ok E site \<Longrightarrow> returns E (site_call site verb url headers body)"
  unfolding site_call_def by (intro returns_pbind returns_on_outside returns_pure) (simp add: site_ok_def)

lemma returns_post_batch [returns_intros]: "site_ok E site \<Longrightarrow> returns E (post_batch c site api_url headers build)"
  unfolding post_batch_def by (intro returns_pbind returns_on_outside returns_pure returns_site_call) (simp_all add: site_ok_def)

lemma returns_phase1_main: "clock_ok E \<Longrightarrow> site_ok E site \<Longrightarrow> returns E (phase1_main c E site api_url ca token)"
  unfolding phase1_main_def by (intro returns_intros)

lemma returns_phase2_pass [returns_intros]: "site_ok E site \<Longrightarrow> returns E (phase2_pass site api_url headers)"
  unfolding phase2_pass_def by (intro returns_intros)

lemma returns_phase2_main: "clock_ok E \<Longrightarrow> site_ok E site \<Longrightarrow> returns E (phase2_main c E site api_url ca token bid)"
  unfolding phase2_main_def by (intro returns_intros) simp_all

text \<open>Both batches are well formed, so the ingestion contract reads back exactly what was posted.\<close>

lemma smoke_batch_wf:
  assumes "is_aware d"
  shows "\<exists>b. smoke_batch d = Inr b \<and> wf_batch b \<and> batch_id b = SMOKE_BATCH_ID"
  using assms by (simp add: smoke_batch_def smoke_sample_def new_batch_def wf_defs agent_id_ok_def agent_id_char_def is_alnum_ascii_def)

lemma high_cpu_batch_wf:
  assumes "is_aware d"
  shows "\<exists>b. high_cpu_batch bid d = Inr b \<and> wf_batch b \<and> batch_id b = bid \<and> samples b = [high_cpu_sample d]"
  using assms by (simp add: high_cpu_batch_def high_cpu_sample_def new_batch_def wf_defs agent_id_ok_def agent_id_char_def is_alnum_ascii_def)

text \<open>
  The second smoke script posts a batch that does what its polling loop waits for: the ingestion
  contract accepts it and reads it back unchanged, and under every worker configuration with a CPU
  threshold of at most 99 and a memory threshold above 50, the defaults among them, exactly the
  high-CPU condition of its sample is met, so the worker opens one incident and no other.
\<close>

theorem high_cpu_batch_opens_incident:
  assumes "codec_ok c" and "is_aware d" and "cpu_incident_threshold cfg \<le> 99" and "50 < memory_incident_threshold cfg"
  shows "\<exists>b. high_cpu_batch bid d = Inr b \<and> validate_batch c (dump_batch c b) = Some b \<and> batch_id b = bid \<and>
    map (\<lambda>s. filter (\<lambda>(ty, v, threshold). fle threshold v) (conditions cfg s)) (samples b) =
      [[(''high_cpu'', Fin 99, Fin (cpu_incident_threshold cfg))]]"
proof -
  obtain b where b: "high_cpu_batch bid d = Inr b" "wf_batch b" "batch_id b = bid" "samples b = [high_cpu_sample d]"
    using high_cpu_batch_wf[OF assms(2)] by blast
  have "filter (\<lambda>(ty, v, threshold). fle threshold v) (conditions cfg (high_cpu_sample d)) =
      [(''high_cpu'', Fin 99, Fin (cpu_incident_threshold cfg))]"
    using assms(3,4) by (simp add: conditions_def high_cpu_sample_def)
  with b validate_dump_batch[OF assms(1) b(2)] show ?thesis by simp
qed

theorem high_cpu_batch_opens_incident_witness:
  "\<exists>b. high_cpu_batch 2 (utc_at 0) = Inr b \<and> validate_batch example_codec (dump_batch example_codec b) = Some b \<and>
     map (\<lambda>s. filter (\<lambda>(ty, v, threshold). fle threshold v) (conditions (default_worker_settings ''w'' 0) s)) (samples b) =
       [[(''high_cpu'', Fin 99, Fin 90)]]"
  using high_cpu_batch_opens_incident[of example_codec "utc_at 0" "default_worker_settings ''w'' 0" 2]
  by (auto simp: example_codec_ok default_worker_settings_def)

text \<open>A passing first run has seen the replay refused and one durable batch, and reports what it saw.\<close>

lemma phase1_asserts_sound:
  assumes "phase1_asserts p1 p2 pa hs = Inr summary"
  shows "subscript p2 ''status'' = Inr (JStr ''duplicate'') \<and> header_value hs ''X-Request-ID'' = Inr ''phase1-smoke-correlation'' \<and>
    (\<exists>first agents a count. subscript p1 ''status'' = Inr first \<and> iterate pa = Inr agents \<and>
       first_of ''phase1-smoke-agent'' agents = Inr (Some a) \<and> subscript a ''batch_count'' = Inr count \<and> equals_one count)"
  using assms unfolding phase1_asserts_def
  by (auto simp: res_bind_def require_def res_of_def split: sum.splits if_splits option.splits)

end
