(* ===== verification/Spec2Isabelle.thy ===== *)
theory Spec2Isabelle
  imports Contract Loops Migrations Migration_Env Logging Evaluation Performance Drills Experiments Images Cluster
    Sbom Repository Smoke
begin

text \<open>
  FleetPulse: a verification library.

  \<^bold>\<open>The program.\<close> An agent on every host collects telemetry, keeps it in a bounded SQLite spool and
  posts it in batches to the API. The API checks the token, stores a batch once under its id and
  writes an outbox event in the same transaction. The relay moves outbox events to a Redis stream; the
  workers read the stream, update the fleet state, open incidents, acknowledge, retry and dead-letter.
  Fleet reads go through a Redis cache. An optional assistant redacts evidence, asks a provider for an
  analysis, checks its citations and registers its proposals for one human review each. Around this
  stand the migrations, and the tools and scripts that gate and measure the repository.

  \<^bold>\<open>Reading the model.\<close> A class with state is a record and its methods are functions from the record to
  a result and the new record. An exception is a value of \<^typ>\<open>py_error\<close>, a fallible function returns
  \<open>'a res\<close> (\<^const>\<open>Inl\<close> the exception). A table is the list of its rows. A loop is structural
  recursion, a function with a measure, or a partial function where the source gives it no bound.
  Definitions keep the names of the source.

  \<^bold>\<open>Theories and sources\<close> (under \<open>src/src/fleetpulse\<close> unless another directory is named)

  \<^item> \<open>Prelude\<close>, \<open>Values\<close>, \<open>Json\<close>, \<open>Python\<close>: exceptions, keyed rows (\<open>row_simps\<close>), results (\<open>res_simps\<close>),
    floats, datetimes, UUIDs (128-bit words), \<open>json.dumps\<close> and \<open>json.loads\<close>, string and number
    functions of the standard library. \<open>Examples\<close> holds a concrete codec and telemetry for witnesses.
  \<^item> \<open>Telemetry\<close>, \<open>Contract\<close>: \<open>telemetry.py\<close>. Records, readers (\<open>validate_batch\<close>), writers
    (\<open>dump_batch\<close>), well-formedness (\<open>wf_batch\<close>); only well-formed batches are read, what is written
    is read back.
  \<^item> \<open>Spool\<close>, \<open>Agent\<close>: \<open>agent/spool.py\<close>; \<open>config.py\<close>, \<open>collector.py\<close>, \<open>client.py\<close>, \<open>main.py\<close> of
    \<open>agent\<close>. The locale \<open>spool_contract\<close> states what the collection loop needs of a spool, \<open>sqlite\<close>
    interprets it; bounds and accounting of the spool, no sample lost by the loop but through eviction.
  \<^item> \<open>Store\<close>, \<open>Api\<close>: \<open>api/models.py\<close>; \<open>api/config.py\<close>, \<open>security.py\<close>, \<open>middleware.py\<close>, \<open>routes.py\<close>.
    Transactions with faults at each statement and at the commit. The locale \<open>idempotent_receiver\<close> gives
    the laws of a receiver of repeated messages; \<open>ingestion\<close> and (in \<open>Processing\<close>) \<open>processing\<close>
    interpret it on the endpoint and on the worker.
  \<^item> \<open>Relay\<close>, \<open>Worker\<close>, \<open>Processing\<close>: \<open>queueing.py\<close>, \<open>worker/config.py\<close>, \<open>worker/relay.py\<close>,
    \<open>worker/main.py\<close>. The stream with one consumer group, the outbox poll, the processing transaction,
    incidents, retry, dead letters; the effect of an event, idempotence, acknowledgement.
  \<^item> \<open>Pipeline\<close>, \<open>Loops\<close>: the composition, as a step relation over one database and one stream with any
    interleaving and any faults: an invariant (no accepted batch is lost), the refinement to an abstract
    pipeline, and what a fault-free continuation achieves. The \<open>run\<close> loops of relay and worker, with
    other processes acting in between, take only steps of this relation.
  \<^item> \<open>Redaction\<close>, \<open>Analysis\<close>, \<open>Assistant\<close>, \<open>Evaluation\<close>: \<open>assistant/redaction.py\<close>; \<open>models.py\<close>,
    \<open>config.py\<close>, \<open>providers.py\<close>; \<open>service.py\<close>, \<open>app.py\<close>; \<open>src/src/fleetpulse_project/assistant_eval.py\<close>
    with \<open>src/tools/assistant_accuracy.py\<close>. The locale \<open>text_redactor\<close> is what the service needs of a
    redactor, \<open>secret_redactor\<close> interprets it. Failing closed, single review, what redaction keeps.
  \<^item> \<open>Migrations\<close>, \<open>Migration_Env\<close>: \<open>src/migrations/versions\<close> and \<open>src/migrations/env.py\<close>. The migrated
    schema is the one the models describe; an online run migrates under the advisory lock.
  \<^item> \<open>Logging\<close>: \<open>logging.py\<close>. An entry is one line of printable ASCII and reads back.
  \<^item> \<open>Performance\<close>: \<open>performance.py\<close> and \<open>reliability.py\<close> of \<open>src/src/fleetpulse_project\<close>. Parsing,
    summaries, aggregation, the nearest-rank percentile.
  \<^item> \<open>Script\<close>, \<open>Drills\<close>, \<open>Experiments\<close>, \<open>Smoke\<close>: \<open>src/tools/reliability_runner.py\<close>,
    \<open>src/tools/performance_runner.py\<close>, \<open>src/scripts/phase1_smoke.py\<close> and \<open>phase2_smoke.py\<close> as programs
    over an environment that answers for processes, requests and the clock. Total runs
    (\<open>returns_intros\<close>), what a recorded result has seen, that the environment is taken down.
  \<^item> \<open>Repository\<close>, \<open>Images\<close>, \<open>Cluster\<close>, \<open>Sbom\<close>: the gates \<open>repository_contract.py\<close> and
    \<open>evidence_claims.py\<close>, \<open>ci_contract.py\<close>, \<open>kubernetes_contract.py\<close>, \<open>supply_chain_report.py\<close> of
    \<open>src/tools\<close>. What a passing run guarantees of every workflow step, image, manifest, claim and report.

  \<^bold>\<open>Bounds and fuel.\<close> \<open>loads\<close> runs with fuel \<open>Suc (2 * length s)\<close>; \<open>scan_value_fuel\<close> shows that more
  changes nothing. The eviction loop of the spool and the polling loops of the scripts are partial
  functions: the first is shown to return on every spool, the second under \<open>clock_ok\<close> (time does not run
  backwards and a sleep takes the time it was asked for). \<open>subn\<close> and the readers that consume text carry
  a length measure. The retries of the provider are a list of attempts, bounded by the settings.

  \<^bold>\<open>What is a parameter.\<close> How pydantic reads a scalar and writes a datetime (\<open>codec\<close>, \<open>model_codec\<close>), the
  text of a float, clocks, random numbers and fresh ids, the HTTP transport, the faults of the database,
  of Redis and of the migration calls, the remote provider, the YAML reader and writer, \<open>kubectl\<close>, git
  and the file system of a checkout, \<open>str\<close> of an arbitrary value, the order in which a set is visited,
  the answers of containers and services to the scripts. \<open>codec_ok\<close>, \<open>clock_ok\<close> and \<open>site_ok\<close> state the documented
  behaviour relied on; witnesses instantiate them.

  \<^bold>\<open>What is exact in the model and rounded in the program.\<close> A finite float is a rational number. Comparisons
  agree; sums, means, durations and report arithmetic are exact here, except in the percentile, where
  rounding decides the rank and is an argument. A character is a code point below 256.

  \<^bold>\<open>Not modelled.\<close> The application factory, the engine and the metric declarations (\<open>api/app.py\<close>,
  \<open>api/database.py\<close>, \<open>metrics.py\<close>) only pass arguments to libraries. The health routes answer constants.
  Signal handling, argument parsing, where log lines go, and disk or permission errors of the scripts'
  own files are left out. The resource sampler of the experiments is a thread: its passes are run as a
  block when it starts, so its interleaving with the commands of the main thread is not modelled; it
  only appends to its own files. One poll of the relay and one transaction are one step of the pipeline, also
  where their calls to Redis and to the database could interleave with another process. Alembic's own bookkeeping is not modelled beyond running a revision.
\<close>

end
